theory Spec2Isabelle
  imports Complex_Main "HOL-Library.FSet"
begin

section \<open>JavaScript values and strings\<close>

text \<open>
  The profiler in \<^verbatim>\<open>server/ai-profiler.ts\<close> passes around plain JavaScript values: parsed JSON
  documents, profile objects, auction results. They are modelled by one datatype. Strings
  are byte sequences (the UTF-8 encoding, which is what \<^verbatim>\<open>Buffer.from\<close> sees); numbers are
  rationals, with \<open>JNaN\<close> for the one non-number that \<^verbatim>\<open>Math.min\<close>/\<^verbatim>\<open>Math.max\<close> can produce from a
  parsed document. Rounding and infinities of IEEE doubles are not represented.
\<close>

datatype json =
    JNull
  | JBool bool
  | JNum rat
  | JNaN
  | JStr string
  | JArr "json list"
  | JObj "(string \<times> json) list"

text \<open>Truthiness, as \<^verbatim>\<open>if (v)\<close>, \<^verbatim>\<open>v && w\<close> and \<^verbatim>\<open>v || w\<close> test it.\<close>

fun truthy :: "json \<Rightarrow> bool" where
  "truthy JNull = False"
| "truthy (JBool b) = b"
| "truthy (JNum n) = (n \<noteq> 0)"
| "truthy JNaN = False"
| "truthy (JStr s) = (s \<noteq> [])"
| "truthy (JArr xs) = True"
| "truthy (JObj fs) = True"

text \<open>
  A thrown value is represented by its message (\<^verbatim>\<open>String(err)\<close>). Property access \<^verbatim>\<open>v.k\<close>
  throws a TypeError on \<^verbatim>\<open>null\<close>; on an object it yields the field or \<^verbatim>\<open>undefined\<close>
  (\<open>None\<close>); the other values have none of the properties the profiler reads.
\<close>

type_synonym exn = string

definition null_read :: "string \<Rightarrow> exn" where
  "null_read k =
     ''TypeError: Cannot read properties of null (reading '' @ [CHR 0x27] @ k @ [CHR 0x27] @ '')''"

fun get_prop :: "json \<Rightarrow> string \<Rightarrow> exn + json option" where
  "get_prop JNull k = Inl (null_read k)"
| "get_prop (JObj fs) k = Inr (map_of fs k)"
| "get_prop v k = Inr None"

text \<open>Optional chaining \<^verbatim>\<open>v?.k\<close> on a value that may be \<^verbatim>\<open>undefined\<close>: never throws.\<close>

fun opt_prop :: "json option \<Rightarrow> string \<Rightarrow> json option" where
  "opt_prop None k = None"
| "opt_prop (Some JNull) k = None"
| "opt_prop (Some (JObj fs)) k = map_of fs k"
| "opt_prop (Some v) k = None"

text \<open>\<^verbatim>\<open>v?.[0]\<close>: the first element of an array, the first character of a string.\<close>

fun opt_first :: "json option \<Rightarrow> json option" where
  "opt_first None = None"
| "opt_first (Some JNull) = None"
| "opt_first (Some (JArr xs)) = (case xs of [] \<Rightarrow> None | x # _ \<Rightarrow> Some x)"
| "opt_first (Some (JStr s)) = (case s of [] \<Rightarrow> None | c # _ \<Rightarrow> Some (JStr [c]))"
| "opt_first (Some (JObj fs)) = map_of fs ''0''"
| "opt_first (Some v) = None"

text \<open>\<^verbatim>\<open>obj.k = v\<close> on an object: replaces the field in place or appends it.\<close>

fun set_field :: "string \<Rightarrow> json \<Rightarrow> (string \<times> json) list \<Rightarrow> (string \<times> json) list" where
  "set_field k v [] = [(k, v)]"
| "set_field k v ((k', v') # fs) = (if k' = k then (k, v) # fs else (k', v') # set_field k v fs)"

fun set_prop :: "json \<Rightarrow> string \<Rightarrow> json \<Rightarrow> json" where
  "set_prop (JObj fs) k v = JObj (set_field k v fs)"
| "set_prop j k v = j"

text \<open>\<^verbatim>\<open>v ?? d\<close> on a property that may be \<^verbatim>\<open>undefined\<close> or \<^verbatim>\<open>null\<close>.\<close>

fun nullish_or :: "json option \<Rightarrow> json \<Rightarrow> json" where
  "nullish_or None d = d"
| "nullish_or (Some JNull) d = d"
| "nullish_or (Some v) d = v"

definition startsWith :: "string \<Rightarrow> string \<Rightarrow> bool" where
  "startsWith s p = (take (length p) s = p)"

definition endsWith :: "string \<Rightarrow> string \<Rightarrow> bool" where
  "endsWith s p = (length p \<le> length s \<and> drop (length s - length p) s = p)"

text \<open>
  White space, as \<^verbatim>\<open>trim\<close> strips it and \<^verbatim>\<open>\s\<close> matches it in a regular expression: the code
  points U+0009 to U+000D, U+0020, U+00A0, U+1680, U+2000 to U+200A, U+2028, U+2029, U+202F,
  U+205F, U+3000 and U+FEFF, each in its UTF-8 encoding.
\<close>

definition js_spaces :: "string list" where
  "js_spaces =
     [[CHR 0x09], [CHR 0x0A], [CHR 0x0B], [CHR 0x0C], [CHR 0x0D], [CHR 0x20],
      [CHR 0xC2, CHR 0xA0],
      [CHR 0xE1, CHR 0x9A, CHR 0x80],
      [CHR 0xE2, CHR 0x80, CHR 0x80], [CHR 0xE2, CHR 0x80, CHR 0x81],
      [CHR 0xE2, CHR 0x80, CHR 0x82], [CHR 0xE2, CHR 0x80, CHR 0x83],
      [CHR 0xE2, CHR 0x80, CHR 0x84], [CHR 0xE2, CHR 0x80, CHR 0x85],
      [CHR 0xE2, CHR 0x80, CHR 0x86], [CHR 0xE2, CHR 0x80, CHR 0x87],
      [CHR 0xE2, CHR 0x80, CHR 0x88], [CHR 0xE2, CHR 0x80, CHR 0x89],
      [CHR 0xE2, CHR 0x80, CHR 0x8A],
      [CHR 0xE2, CHR 0x80, CHR 0xA8], [CHR 0xE2, CHR 0x80, CHR 0xA9],
      [CHR 0xE2, CHR 0x80, CHR 0xAF],
      [CHR 0xE2, CHR 0x81, CHR 0x9F],
      [CHR 0xE3, CHR 0x80, CHR 0x80],
      [CHR 0xEF, CHR 0xBB, CHR 0xBF]]"

text \<open>
  The number of bytes of the white-space character that \<open>s\<close> starts with (0 when it starts
  with none), and \<open>s\<close> without the white space it starts with. The counter of \<open>drop_spaces\<close>
  is the number of bytes of the current white-space character still to be dropped.
\<close>

definition space_at :: "string list \<Rightarrow> string \<Rightarrow> nat" where
  "space_at ws s = (case find (startsWith s) ws of None \<Rightarrow> 0 | Some w \<Rightarrow> length w)"

fun drop_spaces :: "string list \<Rightarrow> nat \<Rightarrow> string \<Rightarrow> string" where
  "drop_spaces ws n [] = []"
| "drop_spaces ws (Suc n) (c # cs) = drop_spaces ws n cs"
| "drop_spaces ws 0 (c # cs) =
     (case space_at ws (c # cs) of 0 \<Rightarrow> c # cs | Suc n \<Rightarrow> drop_spaces ws n cs)"

text \<open>\<^verbatim>\<open>s.trim()\<close>: at the end the encodings are read backwards.\<close>

definition trim :: "string \<Rightarrow> string" where
  "trim s = rev (drop_spaces (map rev js_spaces) 0 (rev (drop_spaces js_spaces 0 s)))"

text \<open>
  The case folding of a regular expression with the flag \<^verbatim>\<open>i\<close> (and without \<^verbatim>\<open>u\<close>) never
  identifies a character outside ASCII with an ASCII one: against a pattern of ASCII
  characters it is the folding of the letters A to Z.
\<close>

definition lower_char :: "char \<Rightarrow> char" where
  "lower_char c =
     (if 65 \<le> (of_char c :: nat) \<and> (of_char c :: nat) \<le> 90 then char_of ((of_char c :: nat) + 32) else c)"

definition fold_case :: "string \<Rightarrow> string" where
  "fold_case s = map lower_char s"

text \<open>
  \<^verbatim>\<open>s.toLowerCase()\<close>. Besides the letters A to Z, two characters have a lower case that
  contains an ASCII letter: U+212A (the Kelvin sign, bytes E2 84 AA), which becomes \<^verbatim>\<open>k\<close>, and
  U+0130 (bytes C4 B0), which becomes \<^verbatim>\<open>i\<close> followed by U+0307 (bytes CC 87). The other letters
  outside ASCII, which JavaScript maps to letters outside ASCII, are left as they are: the
  profiler only asks whether the result includes an ASCII literal, and that does not depend
  on them.
\<close>

fun toLowerCase :: "string \<Rightarrow> string" where
  "toLowerCase (a # b # c # cs) =
     (if a = CHR 0xE2 \<and> b = CHR 0x84 \<and> c = CHR 0xAA then CHR ''k'' # toLowerCase cs
      else if a = CHR 0xC4 \<and> b = CHR 0xB0
        then CHR ''i'' # CHR 0xCC # CHR 0x87 # toLowerCase (c # cs)
      else lower_char a # toLowerCase (b # c # cs))"
| "toLowerCase [a, b] =
     (if a = CHR 0xC4 \<and> b = CHR 0xB0 then [CHR ''i'', CHR 0xCC, CHR 0x87]
      else [lower_char a, lower_char b])"
| "toLowerCase [a] = [lower_char a]"
| "toLowerCase [] = []"

text \<open>\<^verbatim>\<open>s.includes(p)\<close> on strings: \<open>p\<close> occurs in \<open>s\<close>.\<close>

fun str_includes :: "string \<Rightarrow> string \<Rightarrow> bool" where
  "str_includes [] p = (p = [])"
| "str_includes (c # cs) p = (startsWith (c # cs) p \<or> str_includes cs p)"

text \<open>A case-insensitive alternation of literals, \<^verbatim>\<open>/A|B|C/i.test(s)\<close>.\<close>

definition test_any_i :: "string list \<Rightarrow> string \<Rightarrow> bool" where
  "test_any_i pats s = list_ex (\<lambda>p. str_includes (fold_case s) (fold_case p)) pats"

text \<open>\<^verbatim>\<open>parts.join(', ')\<close>.\<close>

fun join_comma :: "string list \<Rightarrow> string" where
  "join_comma [] = []"
| "join_comma [x] = x"
| "join_comma (x # y # ys) = x @ '', '' @ join_comma (y # ys)"

text \<open>\<^verbatim>\<open>[c1 && 'a', c2 && 'b'].filter(Boolean)\<close>: the labels whose condition holds.\<close>

definition detected :: "(bool \<times> string) list \<Rightarrow> string" where
  "detected xs = ''Detected: '' @ join_comma (map snd (filter fst xs))"

subsection \<open>Base64, as \<^verbatim>\<open>Buffer.from(s).toString('base64')\<close> produces it\<close>

definition b64_alphabet :: string where
  "b64_alphabet = ''ABCDEFGHIJKLMNOPQRSTUVWXYZabcdefghijklmnopqrstuvwxyz0123456789+/''"

definition b64_digit :: "nat \<Rightarrow> char" where
  "b64_digit n = b64_alphabet ! (n mod 64)"

fun base64 :: "string \<Rightarrow> string" where
  "base64 [] = []"
| "base64 [a] =
     (let n = (of_char a :: nat)
      in [b64_digit (n div 4), b64_digit ((n mod 4) * 16), CHR ''='', CHR ''=''])"
| "base64 [a, b] =
     (let n = (of_char a :: nat) * 256 + of_char b
      in [b64_digit (n div 1024), b64_digit (n div 16), b64_digit ((n mod 16) * 4), CHR ''=''])"
| "base64 (a # b # c # rest) =
     (let n = (of_char a :: nat) * 65536 + of_char b * 256 + of_char c
      in [b64_digit (n div 262144), b64_digit (n div 4096), b64_digit (n div 64), b64_digit n]
         @ base64 rest)"

section \<open>Configuration, module state and the store\<close>

text \<open>
  The process environment and the language built-ins the module relies on. \<open>JSON_parse\<close>
  yields \<open>None\<close> where \<^verbatim>\<open>JSON.parse\<close> throws a SyntaxError; \<open>coerce_number\<close> is the
  conversion to a number that \<^verbatim>\<open>Math.max\<close> applies to strings, arrays and objects (\<open>None\<close>
  is NaN).
\<close>

record sys =
  GROK_API_KEY :: "string option"
  OPENROUTER_API_KEY :: "string option"
  env_REDIS_URL :: "string option"
  JSON_parse :: "string \<Rightarrow> json option"
  JSON_stringify :: "json \<Rightarrow> string"
  coerce_number :: "json \<Rightarrow> rat option"

text \<open>An environment variable is truthy when it is set and not empty.\<close>

fun is_set :: "string option \<Rightarrow> bool" where
  "is_set None = False"
| "is_set (Some v) = (v \<noteq> [])"

definition REDIS_URL :: "sys \<Rightarrow> string" where
  "REDIS_URL y =
     (case env_REDIS_URL y of
        None \<Rightarrow> ''redis://localhost:6379''
      | Some url \<Rightarrow> if url \<noteq> [] then url else ''redis://localhost:6379'')"

definition REDIS_BACKOFF_MS :: int where
  "REDIS_BACKOFF_MS = 5000"

definition CACHE_TTL :: nat where
  "CACHE_TTL = 60 * 60 * 24 * 30"

definition RATE_LIMIT_WINDOW :: int where
  "RATE_LIMIT_WINDOW = 60 * 1000"

definition RATE_LIMIT_MAX :: nat where
  "RATE_LIMIT_MAX = 2"

definition UNIQUE_VISITORS_KEY :: string where
  "UNIQUE_VISITORS_KEY = ''yourinfo:unique_visitors''"

definition AUCTION_CACHE_TTL :: nat where
  "AUCTION_CACHE_TTL = 60 * 60"

datatype client = Client (isOpen: bool)

datatype conn_id = CacheConn | TrackingConn

datatype provider = Grok | MiMo

text \<open>
  The calls a run makes, in order. The trace is instrumentation: it lets a statement count
  connection attempts, or say that a call was or was not made.
\<close>

datatype event =
    Redis_connect conn_id string
  | Redis_disconnect conn_id
  | Redis_get string
  | Redis_setEx string nat string
  | Redis_sAdd string string
  | Redis_sCard string
  | Fetch provider
  | Called_checkRateLimit string
  | Called_cacheProfile string json
  | Called_setAuctionCache string json

record rate_entry =
  count :: nat
  resetTime :: int

text \<open>
  The module's variables (\<open>redis\<close> to \<open>userRateLimits\<close>), the content of the Redis
  server both connections talk to (\<open>kv\<close>: string keys with the time-to-live they were
  written with; \<open>sets\<close>: set keys), and the trace. The server has no clock here: an entry
  stays until it is overwritten, so what is said of a look-up that finds an entry is said
  of a look-up made within the time-to-live of that entry.
\<close>

record state =
  redis :: "client option"
  redisConnecting :: bool
  redisLastError :: int
  trackingRedis :: "client option"
  trackingRedisConnecting :: bool
  trackingRedisLastError :: int
  userRateLimits :: "string \<rightharpoonup> rate_entry"
  kv :: "string \<rightharpoonup> (nat \<times> string)"
  sets :: "string \<Rightarrow> string fset"
  trace :: "event list"

text \<open>
  An asynchronous function takes the state and returns the state together with its value
  or the exception it rejects with. Every awaited operation settles.
\<close>

type_synonym 'a io = "state \<Rightarrow> (exn + 'a) \<times> state"

definition io_ret :: "'a \<Rightarrow> 'a io" where
  "io_ret x = (\<lambda>s. (Inr x, s))"

definition io_throw :: "exn \<Rightarrow> 'a io" where
  "io_throw err = (\<lambda>s. (Inl err, s))"

definition io_bind :: "'a io \<Rightarrow> ('a \<Rightarrow> 'b io) \<Rightarrow> 'b io" where
  "io_bind m f = (\<lambda>s. case m s of (Inl err, s') \<Rightarrow> (Inl err, s') | (Inr x, s') \<Rightarrow> f x s')"

definition io_catch :: "'a io \<Rightarrow> (exn \<Rightarrow> 'a io) \<Rightarrow> 'a io" where
  "io_catch m h = (\<lambda>s. case m s of (Inl err, s') \<Rightarrow> h err s' | (Inr x, s') \<Rightarrow> (Inr x, s'))"

definition io_modify :: "(state \<Rightarrow> state) \<Rightarrow> unit io" where
  "io_modify f = (\<lambda>s. (Inr (), f s))"

definition io_state :: "state io" where
  "io_state = (\<lambda>s. (Inr s, s))"

text \<open>A synchronous function that cannot throw, run as a step.\<close>

definition io_lift :: "(state \<Rightarrow> 'a \<times> state) \<Rightarrow> 'a io" where
  "io_lift f = (\<lambda>s. case f s of (v, s') \<Rightarrow> (Inr v, s'))"

definition emit :: "event \<Rightarrow> unit io" where
  "emit ev = io_modify (\<lambda>s. s\<lparr>trace := trace s @ [ev]\<rparr>)"

subsection \<open>What the environment decides\<close>

text \<open>
  A Redis command either replies or rejects; a rejection may come with the client's
  \<^verbatim>\<open>'error'\<close> event, whose listener reads the clock. A rejected command leaves the server
  as it was.
\<close>

datatype redis_outcome = Replies | Rejects "int option"

text \<open>
  One acquisition of a connection followed by one command: the clock on entry, whether
  \<^verbatim>\<open>createRedisClient\<close>/\<^verbatim>\<open>connect\<close> succeeds if it is attempted, the clock in the
  \<^verbatim>\<open>catch\<close> block if it does not, and the outcome of the command if one is sent.
\<close>

record redis_env =
  r_now :: int
  r_connect_ok :: bool
  r_fail_now :: int
  r_reply :: redis_outcome

definition on_error :: "conn_id \<Rightarrow> int \<Rightarrow> state \<Rightarrow> state" where
  "on_error c t s =
     (case c of CacheConn \<Rightarrow> s\<lparr>redisLastError := t\<rparr>
              | TrackingConn \<Rightarrow> s\<lparr>trackingRedisLastError := t\<rparr>)"

definition rejected :: "conn_id \<Rightarrow> int option \<Rightarrow> 'a io" where
  "rejected c ev =
     io_bind (io_modify (\<lambda>s. case ev of None \<Rightarrow> s | Some t \<Rightarrow> on_error c t s))
       (\<lambda>_. io_throw ''Error: redis command failed'')"

definition redis_connect :: "conn_id \<Rightarrow> string \<Rightarrow> bool \<Rightarrow> unit io" where
  "redis_connect c url ok =
     io_bind (emit (Redis_connect c url))
       (\<lambda>_. if ok then io_ret () else io_throw ''Error: connect failed'')"

definition redis_get :: "conn_id \<Rightarrow> redis_outcome \<Rightarrow> string \<Rightarrow> string option io" where
  "redis_get c out k =
     io_bind (emit (Redis_get k))
       (\<lambda>_. case out of
               Replies \<Rightarrow> io_bind io_state (\<lambda>s. io_ret (map_option snd (kv s k)))
             | Rejects ev \<Rightarrow> rejected c ev)"

definition redis_setEx :: "conn_id \<Rightarrow> redis_outcome \<Rightarrow> string \<Rightarrow> nat \<Rightarrow> string \<Rightarrow> unit io" where
  "redis_setEx c out k ttl v =
     io_bind (emit (Redis_setEx k ttl v))
       (\<lambda>_. case out of
               Replies \<Rightarrow> io_modify (\<lambda>s. s\<lparr>kv := (kv s)(k \<mapsto> (ttl, v))\<rparr>)
             | Rejects ev \<Rightarrow> rejected c ev)"

definition redis_sAdd :: "conn_id \<Rightarrow> redis_outcome \<Rightarrow> string \<Rightarrow> string \<Rightarrow> nat io" where
  "redis_sAdd c out k m =
     io_bind (emit (Redis_sAdd k m))
       (\<lambda>_. case out of
               Replies \<Rightarrow>
                 io_bind io_state (\<lambda>s.
                 io_bind (io_modify (\<lambda>s. s\<lparr>sets := (sets s)(k := finsert m (sets s k))\<rparr>)) (\<lambda>_.
                 io_ret (if m |\<in>| sets s k then 0 else 1)))
             | Rejects ev \<Rightarrow> rejected c ev)"

definition redis_sCard :: "conn_id \<Rightarrow> redis_outcome \<Rightarrow> string \<Rightarrow> nat io" where
  "redis_sCard c out k =
     io_bind (emit (Redis_sCard k))
       (\<lambda>_. case out of
               Replies \<Rightarrow> io_bind io_state (\<lambda>s. io_ret (fcard (sets s k)))
             | Rejects ev \<Rightarrow> rejected c ev)"

section \<open>Connection manager\<close>

definition in_backoff :: "int \<Rightarrow> int \<Rightarrow> bool" where
  "in_backoff lastError now = (lastError > 0 \<and> now - lastError < REDIS_BACKOFF_MS)"

definition client_open :: "client option \<Rightarrow> bool" where
  "client_open c = (case c of None \<Rightarrow> False | Some h \<Rightarrow> isOpen h)"

definition getRedis :: "sys \<Rightarrow> redis_env \<Rightarrow> client option io" where
  "getRedis y e = io_bind io_state (\<lambda>s.
     if in_backoff (redisLastError s) (r_now e) then io_ret None
     else if client_open (redis s) then io_ret (redis s)
     else if redisConnecting s then io_ret None
     else
       io_catch
         (io_bind (io_modify (\<lambda>s. s\<lparr>redisConnecting := True, redis := Some (Client False)\<rparr>)) (\<lambda>_.
          io_bind (redis_connect CacheConn (REDIS_URL y) (r_connect_ok e)) (\<lambda>_.
          io_bind (io_modify (\<lambda>s. s\<lparr>redis := Some (Client True), redisConnecting := False,
                                      redisLastError := 0\<rparr>)) (\<lambda>_.
          io_ret (Some (Client True))))))
         (\<lambda>err.
          io_bind (io_modify (\<lambda>s. s\<lparr>redisConnecting := False, redisLastError := r_fail_now e,
                                      redis := None\<rparr>)) (\<lambda>_.
          io_ret None)))"

definition getTrackingRedis :: "sys \<Rightarrow> redis_env \<Rightarrow> client option io" where
  "getTrackingRedis y e = io_bind io_state (\<lambda>s.
     if in_backoff (trackingRedisLastError s) (r_now e) then io_ret None
     else if client_open (trackingRedis s) then io_ret (trackingRedis s)
     else if trackingRedisConnecting s then io_ret None
     else
       io_catch
         (io_bind (io_modify (\<lambda>s. s\<lparr>trackingRedisConnecting := True,
                                      trackingRedis := Some (Client False)\<rparr>)) (\<lambda>_.
          io_bind (redis_connect TrackingConn (REDIS_URL y) (r_connect_ok e)) (\<lambda>_.
          io_bind (io_modify (\<lambda>s. s\<lparr>trackingRedis := Some (Client True),
                                      trackingRedisConnecting := False,
                                      trackingRedisLastError := 0\<rparr>)) (\<lambda>_.
          io_ret (Some (Client True))))))
         (\<lambda>err.
          io_bind (io_modify (\<lambda>s. s\<lparr>trackingRedisConnecting := False,
                                      trackingRedisLastError := r_fail_now e,
                                      trackingRedis := None\<rparr>)) (\<lambda>_.
          io_ret None)))"

section \<open>Rate limiter\<close>

definition checkRateLimit :: "int \<Rightarrow> string \<Rightarrow> state \<Rightarrow> bool \<times> state" where
  "checkRateLimit now userId s0 =
     (let s = s0\<lparr>trace := trace s0 @ [Called_checkRateLimit userId]\<rparr>
      in case userRateLimits s userId of
           None \<Rightarrow>
             (True, s\<lparr>userRateLimits := (userRateLimits s)
                        (userId \<mapsto> \<lparr>count = 1, resetTime = now + RATE_LIMIT_WINDOW\<rparr>)\<rparr>)
         | Some userLimit \<Rightarrow>
             if now > resetTime userLimit then
               (True, s\<lparr>userRateLimits := (userRateLimits s)
                          (userId \<mapsto> \<lparr>count = 1, resetTime = now + RATE_LIMIT_WINDOW\<rparr>)\<rparr>)
             else if count userLimit \<ge> RATE_LIMIT_MAX then (False, s)
             else
               (True, s\<lparr>userRateLimits := (userRateLimits s)
                          (userId \<mapsto> userLimit\<lparr>count := count userLimit + 1\<rparr>)\<rparr>))"

text \<open>The periodic clean-up (\<^verbatim>\<open>setInterval\<close>, every five minutes).\<close>

definition sweep :: "int \<Rightarrow> state \<Rightarrow> state" where
  "sweep now s =
     s\<lparr>userRateLimits := (\<lambda>k. case userRateLimits s k of
                                 None \<Rightarrow> None
                               | Some v \<Rightarrow> if now > resetTime v then None else Some v)\<rparr>"

section \<open>Cache layer\<close>

definition getCacheKey :: "string \<Rightarrow> string \<Rightarrow> string" where
  "getCacheKey fingerprintId crossBrowserId =
     ''yourinfo:profile:'' @ fingerprintId @ '':'' @ crossBrowserId"

definition parse_cached :: "sys \<Rightarrow> string option \<Rightarrow> json io" where
  "parse_cached y cached =
     (case cached of
        None \<Rightarrow> io_ret JNull
      | Some text \<Rightarrow>
          if text \<noteq> [] then
            (case JSON_parse y text of
               None \<Rightarrow> io_throw ''SyntaxError''
             | Some v \<Rightarrow> io_ret v)
          else io_ret JNull)"

definition getCachedProfile :: "sys \<Rightarrow> redis_env \<Rightarrow> string \<Rightarrow> json io" where
  "getCachedProfile y e cacheKey =
     io_catch
       (io_bind (getRedis y e) (\<lambda>c.
          case c of
            None \<Rightarrow> io_ret JNull
          | Some _ \<Rightarrow> io_bind (redis_get CacheConn (r_reply e) cacheKey) (parse_cached y)))
       (\<lambda>err. io_ret JNull)"

definition cacheProfile :: "sys \<Rightarrow> redis_env \<Rightarrow> string \<Rightarrow> json \<Rightarrow> unit io" where
  "cacheProfile y e cacheKey profile =
     io_bind (emit (Called_cacheProfile cacheKey profile)) (\<lambda>_.
     io_catch
       (io_bind (getRedis y e) (\<lambda>c.
          case c of
            None \<Rightarrow> io_ret ()
          | Some _ \<Rightarrow>
              redis_setEx CacheConn (r_reply e) cacheKey CACHE_TTL (JSON_stringify y profile)))
       (\<lambda>err. io_ret ()))"

section \<open>The rule-based profile\<close>

text \<open>
  The fields of \<^verbatim>\<open>Partial<ClientInfo>\<close> and \<^verbatim>\<open>GeoData\<close> that the profile path reads, each
  optional. \<^verbatim>\<open>buildPrompt\<close> reads more of them, but only to format the body of the request
  sent to a provider; the provider's answer is the environment's for every body, so the
  prompt is not represented.
\<close>

record advancedBehavior =
  devToolsOpen :: bool
  keyboardShortcutsUsed :: "string list"

record vpnDetection =
  likelyUsingVPN :: bool

record socialLogins =
  google :: "bool option"
  facebook :: "bool option"
  twitter :: "bool option"
  github :: "bool option"

record geoData =
  city :: "string option"
  region :: "string option"
  country :: "string option"
  isp :: "string option"
  timezone :: "string option"

record clientInfo =
  fingerprintId :: "string option"
  crossBrowserId :: "string option"
  fontsDetected :: "string list option"
  extensionsDetected :: "string list option"
  advancedBehavior :: "advancedBehavior option"
  gamepadsSupported :: "bool option"
  webglRenderer :: "string option"
  installedApps :: "string list option"
  devicePixelRatio :: "rat option"
  colorGamut :: "string option"
  hdrSupported :: "bool option"
  screenWidth :: "rat option"
  hardwareConcurrency :: "rat option"
  deviceMemory :: "rat option"
  languages :: "string list option"
  adBlockerDetected :: "bool option"
  doNotTrack :: "bool option"
  globalPrivacyControl :: "bool option"
  isIncognito :: "bool option"
  vpnDetection :: "vpnDetection option"
  maxTouchPoints :: "rat option"
  platform :: "string option"
  isAutomated :: "bool option"
  isHeadless :: "bool option"
  isVirtualMachine :: "bool option"
  cryptoWallets :: "string list option"
  socialLogins :: "socialLogins option"

text \<open>\<^verbatim>\<open>v ?? d\<close> and \<^verbatim>\<open>s || d\<close> on an optional field.\<close>

fun or_else :: "'a option \<Rightarrow> 'a \<Rightarrow> 'a" where
  "or_else None d = d"
| "or_else (Some v) d = v"

fun str_or :: "string option \<Rightarrow> string \<Rightarrow> string" where
  "str_or None d = d"
| "str_or (Some v) d = (if v \<noteq> [] then v else d)"

definition jstrs :: "string list \<Rightarrow> json" where
  "jstrs xs = JArr (map JStr xs)"

definition pts :: "bool \<Rightarrow> rat \<Rightarrow> rat" where
  "pts b n = (if b then n else 0)"

definition generateFallbackProfile :: "clientInfo \<Rightarrow> geoData option \<Rightarrow> json" where
  "generateFallbackProfile clientInfo geo =
    (let developerFonts = [''Fira Code'', ''JetBrains Mono'', ''Source Code Pro'', ''Consolas'',
                           ''Monaco'', ''Menlo'', ''Cascadia Code'', ''Hack''];
         developerExtensions = [''react devtools'', ''vue devtools'', ''redux devtools'',
                                ''angular devtools'', ''vscode''];
         hasDeveloperFonts =
           (case fontsDetected clientInfo of
              None \<Rightarrow> False
            | Some fs \<Rightarrow>
                list_ex (\<lambda>f. list_ex (\<lambda>df. str_includes (toLowerCase f) (toLowerCase df))
                                 developerFonts) fs);
         hasDeveloperExtensions =
           (case extensionsDetected clientInfo of
              None \<Rightarrow> False
            | Some es \<Rightarrow>
                list_ex (\<lambda>x. list_ex (\<lambda>de. str_includes (toLowerCase x) (toLowerCase de))
                                 developerExtensions) es);
         hasDevToolsOpen =
           (case advancedBehavior clientInfo of None \<Rightarrow> False | Some a \<Rightarrow> devToolsOpen a);
         developerScore =
           min 100 (pts hasDeveloperFonts 40 + pts hasDeveloperExtensions 40 + pts hasDevToolsOpen 30);
         likelyDeveloper = (developerScore \<ge> 40);

         hasGamepad = or_else (gamepadsSupported clientInfo) False;
         hasGamingGPU =
           test_any_i [''RTX'', ''GTX'', ''Radeon RX'', ''GeForce''] (str_or (webglRenderer clientInfo) []);
         hasDiscord =
           (case installedApps clientInfo of None \<Rightarrow> False | Some apps \<Rightarrow> ''discord'' \<in> set apps);
         hasSteam =
           (case installedApps clientInfo of None \<Rightarrow> False | Some apps \<Rightarrow> ''steam'' \<in> set apps);
         gamerScore =
           min 100 (pts hasGamepad 30 + pts hasGamingGPU 30 + pts hasDiscord 20 + pts hasSteam 30);
         likelyGamer = (gamerScore \<ge> 40);

         hasHighDPI = (or_else (devicePixelRatio clientInfo) 1 \<ge> 2);
         hasWideGamut =
           (colorGamut clientInfo = Some ''p3'' \<or> colorGamut clientInfo = Some ''rec2020'');
         hasHDR = or_else (hdrSupported clientInfo) False;
         highResolution = (or_else (screenWidth clientInfo) 0 \<ge> 2560);
         designerScore =
           min 100 (pts hasHighDPI 25 + pts hasWideGamut 25 + pts hasHDR 25 + pts highResolution 25);
         likelyDesigner = (designerScore \<ge> 50);

         highCores = (or_else (hardwareConcurrency clientInfo) 0 \<ge> 8);
         highRAM = (or_else (deviceMemory clientInfo) 0 \<ge> 16);
         multipleLanguages =
           ((case languages clientInfo of None \<Rightarrow> 0 | Some ls \<Rightarrow> length ls) \<ge> 3);
         keyboardShortcutsCount =
           (case advancedBehavior clientInfo of
              None \<Rightarrow> 0
            | Some a \<Rightarrow> length (keyboardShortcutsUsed a));
         usesKeyboardShortcuts = (keyboardShortcutsCount > 3);
         powerUserScore =
           min 100 (pts highCores 25 + pts highRAM 25 + pts multipleLanguages 20
                    + pts usesKeyboardShortcuts 30);
         likelyPowerUser = (powerUserScore \<ge> 50);

         hasAdBlocker = or_else (adBlockerDetected clientInfo) False;
         hasDNT = or_else (doNotTrack clientInfo) False;
         hasGPC = or_else (globalPrivacyControl clientInfo) False;
         incognito = or_else (isIncognito clientInfo) False;
         hasVPN = (case vpnDetection clientInfo of None \<Rightarrow> False | Some v \<Rightarrow> likelyUsingVPN v);
         privacyScore =
           min 100 (pts hasAdBlocker 25 + pts hasDNT 15 + pts hasGPC 20 + pts incognito 25
                    + pts hasVPN 25);
         privacyConscious = (privacyScore \<ge> 40);

         ramGB = or_else (deviceMemory clientInfo) 4;
         cores = or_else (hardwareConcurrency clientInfo) 4;
         deviceTier =
           (if ramGB \<ge> 32 \<or> cores \<ge> 16 \<or> hasGamingGPU then ''premium''
            else if ramGB \<ge> 16 \<or> cores \<ge> 8 then ''high-end''
            else if ramGB \<le> 4 \<and> cores \<le> 4 then ''budget''
            else ''mid-range'');
         estimatedDeviceValue =
           (if ramGB \<ge> 32 \<or> cores \<ge> 16 \<or> hasGamingGPU then ''$2,000-$4,000''
            else if ramGB \<ge> 16 \<or> cores \<ge> 8 then ''$1,000-$2,000''
            else if ramGB \<le> 4 \<and> cores \<le> 4 then ''$200-$500''
            else ''$500-$1,000'');

         likelyMobile =
           (or_else (maxTouchPoints clientInfo) 0 > 1
            \<and> test_any_i [''Mobile'', ''Android'', ''iPhone'', ''iPad''] (str_or (platform clientInfo) []));

         automated = or_else (isAutomated clientInfo) False;
         headless = or_else (isHeadless clientInfo) False;
         isVM = or_else (isVirtualMachine clientInfo) False;
         botIndicators =
           (if automated then [''Automation detected''] else [])
           @ (if headless then [''Headless browser''] else [])
           @ (if isVM then [''Virtual machine''] else []);
         humanScore = max 0 (100 - pts automated 50 - pts headless 30 - pts isVM 20);

         anySocial =
           (case socialLogins clientInfo of
              None \<Rightarrow> False
            | Some l \<Rightarrow>
                or_else (google l) False \<or> or_else (facebook l) False
                \<or> or_else (twitter l) False \<or> or_else (github l) False);
         inferredInterests =
           (if likelyDeveloper then [''Software Development'', ''Technology''] else [])
           @ (if likelyGamer then [''Gaming'', ''Entertainment''] else [])
           @ (if likelyDesigner then [''Design'', ''Creative Work''] else [])
           @ (if (case cryptoWallets clientInfo of None \<Rightarrow> False | Some ws \<Rightarrow> ws \<noteq> [])
              then [''Cryptocurrency'', ''Finance''] else [])
           @ (if anySocial then [''Social Media''] else []);

         fraudIndicators =
           (if automated then [''Automation detected''] else [])
           @ (if hasVPN \<and> incognito then [''VPN + Incognito mode''] else [])
           @ (if headless then [''Headless browser''] else []);
         fraudRiskScore = min 100 (of_nat (length fraudIndicators) * 25)
     in JObj
       [(''likelyDeveloper'', JBool likelyDeveloper),
        (''developerScore'', JNum developerScore),
        (''developerReason'', JStr
           (if likelyDeveloper
            then detected [(hasDeveloperFonts, ''coding fonts''),
                           (hasDeveloperExtensions, ''dev extensions''),
                           (hasDevToolsOpen, ''DevTools open'')]
            else ''No strong developer indicators'')),
        (''likelyGamer'', JBool likelyGamer),
        (''gamerScore'', JNum gamerScore),
        (''gamerReason'', JStr
           (if likelyGamer
            then detected [(hasGamingGPU, ''gaming GPU''), (hasGamepad, ''gamepad support''),
                           (hasDiscord, ''Discord''), (hasSteam, ''Steam'')]
            else ''No strong gaming indicators'')),
        (''likelyDesigner'', JBool likelyDesigner),
        (''designerScore'', JNum designerScore),
        (''designerReason'', JStr
           (if likelyDesigner
            then detected [(hasHighDPI, ''high DPI display''), (hasWideGamut, ''wide color gamut''),
                           (hasHDR, ''HDR support''), (highResolution, ''high resolution'')]
            else ''No strong designer indicators'')),
        (''likelyPowerUser'', JBool likelyPowerUser),
        (''powerUserScore'', JNum powerUserScore),
        (''powerUserReason'', JStr
           (if likelyPowerUser
            then detected [(highCores, ''high CPU cores''), (highRAM, ''high RAM''),
                           (usesKeyboardShortcuts, ''keyboard shortcuts'')]
            else ''Average user setup'')),
        (''privacyConscious'', JBool privacyConscious),
        (''privacyScore'', JNum privacyScore),
        (''privacyReason'', JStr
           (if privacyConscious
            then detected [(hasAdBlocker, ''ad blocker''), (hasDNT, ''DNT''), (hasGPC, ''GPC''),
                           (incognito, ''incognito''), (hasVPN, ''VPN'')]
            else ''Standard privacy settings'')),
        (''deviceTier'', JStr deviceTier),
        (''estimatedDeviceValue'', JStr estimatedDeviceValue),
        (''deviceAge'', JStr ''recent''),
        (''humanScore'', JNum humanScore),
        (''botIndicators'', jstrs botIndicators),
        (''likelyTechSavvy'', JBool (likelyDeveloper \<or> likelyPowerUser \<or> privacyConscious)),
        (''likelyMobile'', JBool likelyMobile),
        (''likelyWorkDevice'', JBool (\<not> likelyGamer \<and> (cores \<ge> 8 \<or> ramGB \<ge> 16))),
        (''likelyCountry'', JStr
           (case geo of None \<Rightarrow> ''Unknown'' | Some g \<Rightarrow> str_or (country g) ''Unknown'')),
        (''inferredInterests'', jstrs inferredInterests),
        (''fraudRiskScore'', JNum fraudRiskScore),
        (''fraudIndicators'', jstrs fraudIndicators),
        (''personalityTraits'',
           jstrs (if likelyDeveloper then [''Analytical'', ''Detail-oriented''] else [''Curious''])),
        (''incomeLevel'', JStr (if deviceTier = ''premium'' then ''high'' else ''medium'')),
        (''ageRange'', JStr ''25-45''),
        (''occupation'', JStr
           (if likelyDeveloper then ''Tech Professional''
            else if likelyDesigner then ''Creative Professional'' else ''Unknown'')),
        (''aiGenerated'', JBool False)])"

section \<open>Parsing a provider's answer\<close>

text \<open>The clean-up before \<^verbatim>\<open>JSON.parse\<close>: a Markdown fence around the answer is cut off.\<close>

definition strip_fence :: "string \<Rightarrow> string" where
  "strip_fence response =
     (let c0 = trim response;
          c1 = (if startsWith c0 ''```json'' then drop 7 c0 else c0);
          c2 = (if startsWith c1 ''```'' then drop 3 c1 else c1);
          c3 = (if endsWith c2 ''```'' then take (length c2 - 3) c2 else c2)
      in trim c3)"

text \<open>
  \<^verbatim>\<open>cleaned.replace(/\/\/[^\n]*/g, '')\<close>: from two slashes to the end of the line. The flag
  says whether the scan is inside such a comment.
\<close>

fun strip_comments :: "bool \<Rightarrow> string \<Rightarrow> string" where
  "strip_comments inside [] = []"
| "strip_comments True (c # cs) =
     (if c = CHR 0x0A then c # strip_comments False cs else strip_comments True cs)"
| "strip_comments False [c] = [c]"
| "strip_comments False (c # d # cs) =
     (if c = CHR ''/'' \<and> d = CHR ''/'' then strip_comments True cs
      else c # strip_comments False (d # cs))"

text \<open>
  \<^verbatim>\<open>cleaned.replace(/,\s*([\}\]])/g, '$1')\<close>: a comma, and the white space after it, goes when
  a closing bracket follows. The flag says whether the scan is dropping that white space,
  the counter how many bytes of a white-space character are still to be dropped.
\<close>

definition closes_next :: "string \<Rightarrow> bool" where
  "closes_next cs =
     (case drop_spaces js_spaces 0 cs of
        [] \<Rightarrow> False
      | d # _ \<Rightarrow> d = CHR ''}'' \<or> d = CHR '']'')"

fun fix_commas :: "bool \<Rightarrow> nat \<Rightarrow> string \<Rightarrow> string" where
  "fix_commas dropping n [] = []"
| "fix_commas dropping (Suc n) (c # cs) = fix_commas dropping n cs"
| "fix_commas True 0 (c # cs) =
     (case space_at js_spaces (c # cs) of
        0 \<Rightarrow> c # fix_commas False 0 cs
      | Suc n \<Rightarrow> fix_commas True n cs)"
| "fix_commas False 0 (c # cs) =
     (if c = CHR '','' \<and> closes_next cs then fix_commas True 0 cs
      else c # fix_commas False 0 cs)"

text \<open>The number \<^verbatim>\<open>Math.max\<close> and \<^verbatim>\<open>Math.min\<close> see in a value; \<open>None\<close> is NaN.\<close>

definition to_number :: "sys \<Rightarrow> json \<Rightarrow> rat option" where
  "to_number y v =
     (case v of
        JNum n \<Rightarrow> Some n
      | JNaN \<Rightarrow> None
      | JNull \<Rightarrow> Some 0
      | JBool b \<Rightarrow> Some (if b then 1 else 0)
      | _ \<Rightarrow> coerce_number y v)"

text \<open>\<^verbatim>\<open>Math.min(100, Math.max(0, v))\<close>.\<close>

definition clamp_score :: "sys \<Rightarrow> json \<Rightarrow> json" where
  "clamp_score y v = (case to_number y v of None \<Rightarrow> JNaN | Some n \<Rightarrow> JNum (min 100 (max 0 n)))"

text \<open>
  The extended fields are copied by \<^verbatim>\<open>...(parsed.k && { k: parsed.k })\<close>, which copies a truthy
  value, or by \<^verbatim>\<open>...(parsed.k !== undefined && { k: parsed.k })\<close>, which copies any value
  that is there.
\<close>

datatype guard = IfTruthy | IfDefined

definition extended_fields :: "(string \<times> guard) list" where
  "extended_fields =
     [(''personalityTraits'', IfTruthy), (''incomeLevel'', IfTruthy), (''ageRange'', IfTruthy),
      (''occupation'', IfTruthy), (''developerReason'', IfTruthy), (''gamerReason'', IfTruthy),
      (''designerReason'', IfTruthy), (''powerUserReason'', IfTruthy), (''privacyReason'', IfTruthy),
      (''relationshipStatus'', IfTruthy), (''relationshipReason'', IfTruthy),
      (''educationLevel'', IfTruthy), (''educationReason'', IfTruthy),
      (''politicalLeaning'', IfTruthy), (''politicalReason'', IfTruthy),
      (''lifeSituation'', IfTruthy), (''financialHealth'', IfTruthy),
      (''financialReason'', IfTruthy), (''workStyle'', IfTruthy), (''workReason'', IfTruthy),
      (''sleepSchedule'', IfTruthy), (''sleepReason'', IfTruthy), (''stressLevel'', IfTruthy),
      (''stressReason'', IfTruthy), (''socialLife'', IfTruthy), (''socialReason'', IfTruthy),
      (''likelyParent'', IfDefined), (''parentReason'', IfTruthy), (''petOwner'', IfDefined),
      (''petType'', IfTruthy), (''homeowner'', IfDefined), (''homeReason'', IfTruthy),
      (''carOwner'', IfDefined), (''carType'', IfTruthy), (''healthConscious'', IfDefined),
      (''healthReason'', IfTruthy), (''dietaryPreference'', IfTruthy), (''coffeeOrTea'', IfTruthy),
      (''drinksAlcohol'', IfDefined), (''smokes'', IfDefined), (''fitnessLevel'', IfTruthy),
      (''fitnessReason'', IfTruthy), (''lifeEvents'', IfTruthy), (''shoppingHabits'', IfTruthy),
      (''shoppingReason'', IfTruthy), (''brandPreference'', IfTruthy),
      (''streamingServices'', IfTruthy), (''musicTaste'', IfTruthy),
      (''travelFrequency'', IfTruthy), (''travelReason'', IfTruthy),
      (''creepyInsights'', IfTruthy)]"

definition spread_field :: "(string \<times> json) list \<Rightarrow> string \<times> guard \<Rightarrow> (string \<times> json) list" where
  "spread_field parsed kg =
     (case map_of parsed (fst kg) of
        None \<Rightarrow> []
      | Some v \<Rightarrow>
          (case snd kg of
             IfTruthy \<Rightarrow> if truthy v then [(fst kg, v)] else []
           | IfDefined \<Rightarrow> [(fst kg, v)]))"

definition normalized_profile :: "sys \<Rightarrow> (string \<times> json) list \<Rightarrow> json" where
  "normalized_profile y parsed =
     JObj
      ([(''likelyDeveloper'', nullish_or (map_of parsed ''likelyDeveloper'') JNull),
        (''developerScore'', clamp_score y (nullish_or (map_of parsed ''developerScore'') JNull)),
        (''likelyGamer'', nullish_or (map_of parsed ''likelyGamer'') (JBool False)),
        (''gamerScore'', clamp_score y (nullish_or (map_of parsed ''gamerScore'') (JNum 0))),
        (''likelyDesigner'', nullish_or (map_of parsed ''likelyDesigner'') (JBool False)),
        (''designerScore'', clamp_score y (nullish_or (map_of parsed ''designerScore'') (JNum 0))),
        (''likelyPowerUser'', nullish_or (map_of parsed ''likelyPowerUser'') (JBool False)),
        (''powerUserScore'', clamp_score y (nullish_or (map_of parsed ''powerUserScore'') (JNum 0))),
        (''privacyConscious'', nullish_or (map_of parsed ''privacyConscious'') (JBool False)),
        (''privacyScore'', clamp_score y (nullish_or (map_of parsed ''privacyScore'') (JNum 0))),
        (''deviceTier'', nullish_or (map_of parsed ''deviceTier'') (JStr ''mid-range'')),
        (''estimatedDeviceValue'', nullish_or (map_of parsed ''estimatedDeviceValue'') (JStr ''Unknown'')),
        (''deviceAge'', nullish_or (map_of parsed ''deviceAge'') (JStr ''recent'')),
        (''humanScore'', clamp_score y (nullish_or (map_of parsed ''humanScore'') (JNum 100))),
        (''botIndicators'', nullish_or (map_of parsed ''botIndicators'') (JArr [])),
        (''likelyTechSavvy'', nullish_or (map_of parsed ''likelyTechSavvy'') (JBool False)),
        (''likelyMobile'', nullish_or (map_of parsed ''likelyMobile'') (JBool False)),
        (''likelyWorkDevice'', nullish_or (map_of parsed ''likelyWorkDevice'') (JBool False)),
        (''likelyCountry'', nullish_or (map_of parsed ''likelyCountry'') (JStr ''Unknown'')),
        (''inferredInterests'', nullish_or (map_of parsed ''inferredInterests'') (JArr [])),
        (''fraudRiskScore'', clamp_score y (nullish_or (map_of parsed ''fraudRiskScore'') (JNum 0))),
        (''fraudIndicators'', nullish_or (map_of parsed ''fraudIndicators'') (JArr []))]
       @ concat (map (spread_field parsed) extended_fields))"

fun is_boolean :: "json option \<Rightarrow> bool" where
  "is_boolean (Some (JBool b)) = True"
| "is_boolean v = False"

fun is_number :: "json option \<Rightarrow> bool" where
  "is_number (Some (JNum n)) = True"
| "is_number (Some JNaN) = True"
| "is_number v = False"

text \<open>The body of the \<^verbatim>\<open>try\<close> block of \<^verbatim>\<open>parseAIResponse\<close>, and the function with its \<^verbatim>\<open>catch\<close>.\<close>

definition parseAIResponse_try :: "sys \<Rightarrow> json \<Rightarrow> exn + json" where
  "parseAIResponse_try y response =
     (case response of
        JStr text \<Rightarrow>
          (case JSON_parse y (fix_commas False 0 (strip_comments False (strip_fence text))) of
             None \<Rightarrow> Inl ''SyntaxError''
           | Some JNull \<Rightarrow> Inl (null_read ''likelyDeveloper'')
           | Some (JObj parsed) \<Rightarrow>
               if \<not> (is_boolean (map_of parsed ''likelyDeveloper'')
                       \<and> is_number (map_of parsed ''developerScore''))
               then Inl ''Error: Invalid AI response structure''
               else Inr (normalized_profile y parsed)
           | Some _ \<Rightarrow> Inl ''Error: Invalid AI response structure'')
      | _ \<Rightarrow> Inl ''TypeError: response.trim is not a function'')"

definition parseAIResponse :: "sys \<Rightarrow> json \<Rightarrow> json" where
  "parseAIResponse y response =
     (case parseAIResponse_try y response of Inl err \<Rightarrow> JNull | Inr p \<Rightarrow> p)"

section \<open>The fallback chain for profiles\<close>

text \<open>
  What \<^verbatim>\<open>fetch\<close> does is the environment's: it rejects, or it resolves to a response with a
  status, whose \<^verbatim>\<open>text()\<close> and \<^verbatim>\<open>json()\<close> each resolve or reject.
\<close>

datatype http_outcome =
    Fetch_rejects exn
  | Response (status: nat) (body_text: "exn + string") (body_json: "exn + json")

text \<open>
  One run of the pipeline: the store at the cache look-up, the clock at the rate gate, the
  two providers, the store at the write-through.
\<close>

record run_env =
  lookup :: redis_env
  rate_now :: int
  grok :: http_outcome
  mimo :: http_outcome
  store :: redis_env

datatype src = Ai | Cache | Fallback

record profile_result =
  profile :: json
  source :: src
  error :: "string option"

record mimoResult =
  mimo_profile :: json
  mimo_error :: "string option"

definition fetch :: "provider \<Rightarrow> http_outcome \<Rightarrow> http_outcome io" where
  "fetch p out =
     io_bind (emit (Fetch p))
       (\<lambda>_. case out of Fetch_rejects err \<Rightarrow> io_throw err | Response st t j \<Rightarrow> io_ret out)"

definition response_ok :: "http_outcome \<Rightarrow> bool" where
  "response_ok r = (200 \<le> status r \<and> status r \<le> 299)"

definition settle :: "exn + 'a \<Rightarrow> 'a io" where
  "settle r = (case r of Inl err \<Rightarrow> io_throw err | Inr v \<Rightarrow> io_ret v)"

text \<open>\<^verbatim>\<open>data.choices?.[0]?.message?.content\<close>.\<close>

definition message_content :: "json \<Rightarrow> exn + json option" where
  "message_content data =
     (case get_prop data ''choices'' of
        Inl err \<Rightarrow> Inl err
      | Inr choices \<Rightarrow> Inr (opt_prop (opt_prop (opt_first choices) ''message'') ''content''))"

fun truthy_opt :: "json option \<Rightarrow> bool" where
  "truthy_opt None = False"
| "truthy_opt (Some v) = truthy v"

fun show_nat :: "nat \<Rightarrow> string" where
  "show_nat n = (if n < 10 then [char_of (48 + n)] else show_nat (n div 10) @ [char_of (48 + n mod 10)])"

declare show_nat.simps [simp del]

text \<open>A value that may be \<^verbatim>\<open>undefined\<close>, inside a template string.\<close>

fun show_opt :: "string option \<Rightarrow> string" where
  "show_opt None = ''undefined''"
| "show_opt (Some s) = s"

definition tryMiMo :: "sys \<Rightarrow> http_outcome \<Rightarrow> mimoResult io" where
  "tryMiMo y out =
     (if \<not> is_set (OPENROUTER_API_KEY y) then
        io_ret \<lparr>mimo_profile = JNull, mimo_error = Some ''OpenRouter not configured''\<rparr>
      else
        io_catch
          (io_bind (fetch MiMo out) (\<lambda>mimoResponse.
             if \<not> response_ok mimoResponse then
               io_bind (settle (body_text mimoResponse)) (\<lambda>errorText.
               io_ret \<lparr>mimo_profile = JNull,
                       mimo_error = Some (''MiMo API error: '' @ show_nat (status mimoResponse))\<rparr>)
             else
               io_bind (settle (body_json mimoResponse)) (\<lambda>mimoData.
               io_bind (settle (message_content mimoData)) (\<lambda>mimoText.
                 if \<not> truthy_opt mimoText then
                   io_ret \<lparr>mimo_profile = JNull, mimo_error = Some ''Empty MiMo response''\<rparr>
                 else
                   (let mimoProfile = parseAIResponse y (or_else mimoText JNull)
                    in if truthy mimoProfile then
                         io_ret \<lparr>mimo_profile =
                                   set_prop (set_prop mimoProfile ''aiGenerated'' (JBool True))
                                     ''aiSource'' (JStr ''mimo''),
                                 mimo_error = None\<rparr>
                       else
                         io_ret \<lparr>mimo_profile = JNull,
                                 mimo_error = Some ''Failed to parse MiMo response''\<rparr>)))))
          (\<lambda>err. io_ret \<lparr>mimo_profile = JNull, mimo_error = Some err\<rparr>))"

text \<open>
  The source repeats one block after each way the primary provider can fail, and when the
  primary provider is not configured: try MiMo; on a profile, write it through and return
  it as \<^verbatim>\<open>'ai'\<close>; otherwise return the rule-based profile as \<^verbatim>\<open>'fallback'\<close>. The copies differ
  in the error text only, which is the last parameter here.
\<close>

definition mimo_or_fallback ::
  "sys \<Rightarrow> run_env \<Rightarrow> string \<Rightarrow> clientInfo \<Rightarrow> geoData option \<Rightarrow> (mimoResult \<Rightarrow> string option)
   \<Rightarrow> profile_result io" where
  "mimo_or_fallback y e cacheKey clientInfo geo msg =
     io_bind (tryMiMo y (mimo e)) (\<lambda>mimoResult.
       if truthy (mimo_profile mimoResult) then
         io_bind (cacheProfile y (store e) cacheKey (mimo_profile mimoResult)) (\<lambda>_.
         io_ret \<lparr>profile = mimo_profile mimoResult, source = Ai, error = None\<rparr>)
       else
         io_ret \<lparr>profile = generateFallbackProfile clientInfo geo, source = Fallback,
                 error = msg mimoResult\<rparr>)"

text \<open>The \<^verbatim>\<open>try\<close> block around the call to Grok.\<close>

definition grok_try ::
  "sys \<Rightarrow> run_env \<Rightarrow> string \<Rightarrow> clientInfo \<Rightarrow> geoData option \<Rightarrow> profile_result io" where
  "grok_try y e cacheKey clientInfo geo =
     io_bind (fetch Grok (grok e)) (\<lambda>response.
       if \<not> response_ok response then
         io_bind (settle (body_text response)) (\<lambda>errorText.
         mimo_or_fallback y e cacheKey clientInfo geo
           (\<lambda>m. Some (''Grok: '' @ show_nat (status response) @ '', MiMo: '' @ show_opt (mimo_error m))))
       else
         io_bind (settle (body_json response)) (\<lambda>data.
         io_bind (settle (message_content data)) (\<lambda>text.
           if \<not> truthy_opt text then
             mimo_or_fallback y e cacheKey clientInfo geo (\<lambda>m. Some ''Empty Grok response'')
           else
             (let parsed = parseAIResponse y (or_else text JNull)
              in if \<not> truthy parsed then
                   mimo_or_fallback y e cacheKey clientInfo geo
                     (\<lambda>m. Some ''Failed to parse Grok response'')
                 else
                   (let marked = set_prop (set_prop parsed ''aiGenerated'' (JBool True))
                                   ''aiSource'' (JStr ''grok'')
                    in io_bind (cacheProfile y (store e) cacheKey marked) (\<lambda>_.
                       io_ret \<lparr>profile = marked, source = Ai, error = None\<rparr>))))))"

definition generateAIProfile ::
  "sys \<Rightarrow> run_env \<Rightarrow> clientInfo \<Rightarrow> geoData option \<Rightarrow> profile_result io" where
  "generateAIProfile y e clientInfo geo =
     (let fpId = str_or (fingerprintId clientInfo) ''unknown'';
          cbId = str_or (crossBrowserId clientInfo) ''unknown'';
          cacheKey = getCacheKey fpId cbId
      in io_bind (getCachedProfile y (lookup e) cacheKey) (\<lambda>cached.
           if truthy cached then io_ret \<lparr>profile = cached, source = Cache, error = None\<rparr>
           else if \<not> is_set (GROK_API_KEY y) \<and> \<not> is_set (OPENROUTER_API_KEY y) then
             io_ret \<lparr>profile = generateFallbackProfile clientInfo geo, source = Fallback,
                     error = Some ''No AI configured''\<rparr>
           else
             (let userId = fpId @ '':'' @ cbId
              in io_bind (io_lift (checkRateLimit (rate_now e) userId)) (\<lambda>allowed.
                   if \<not> allowed then
                     io_ret \<lparr>profile = generateFallbackProfile clientInfo geo, source = Fallback,
                             error = Some ''Rate limited''\<rparr>
                   else if \<not> is_set (GROK_API_KEY y) then
                     mimo_or_fallback y e cacheKey clientInfo geo mimo_error
                   else
                     io_catch (grok_try y e cacheKey clientInfo geo)
                       (\<lambda>err. mimo_or_fallback y e cacheKey clientInfo geo
                          (\<lambda>m. Some (''Grok: '' @ err @ '', MiMo: '' @ show_opt (mimo_error m))))))))"

section \<open>Visitor tracking\<close>

text \<open>
  One pass through the body of the retry loop of \<^verbatim>\<open>trackUniqueVisitor\<close>: \<open>Some b\<close> when the
  pass returns \<open>b\<close>, \<open>None\<close> when the loop goes on. The waits between attempts show only in
  the clock of the next attempt.
\<close>

definition track_attempt :: "sys \<Rightarrow> redis_env \<Rightarrow> string \<Rightarrow> nat \<Rightarrow> bool option io" where
  "track_attempt y e visitorKey attempt =
     io_catch
       (io_bind (getTrackingRedis y e) (\<lambda>c.
          case c of
            None \<Rightarrow> if attempt < 3 then io_ret None else io_ret (Some False)
          | Some _ \<Rightarrow>
              io_bind (redis_sAdd TrackingConn (r_reply e) UNIQUE_VISITORS_KEY visitorKey) (\<lambda>added.
              io_ret (Some (added = 1)))))
       (\<lambda>err.
          io_bind (io_modify (\<lambda>s. case trackingRedis s of
                                     None \<Rightarrow> s
                                   | Some _ \<Rightarrow> s\<lparr>trackingRedis := None,
                                                 trace := trace s @ [Redis_disconnect TrackingConn]\<rparr>)) (\<lambda>_.
          io_ret None))"

function track_loop :: "sys \<Rightarrow> (nat \<Rightarrow> redis_env) \<Rightarrow> string \<Rightarrow> nat \<Rightarrow> state \<Rightarrow> (exn + bool) \<times> state" where
  "track_loop y env visitorKey attempt s =
     (if attempt \<le> 3 then
        (case track_attempt y (env attempt) visitorKey attempt s of
           (Inl err, s') \<Rightarrow> (Inl err, s')
         | (Inr (Some b), s') \<Rightarrow> (Inr b, s')
         | (Inr None, s') \<Rightarrow> track_loop y env visitorKey (attempt + 1) s')
      else (Inr False, s))"
  by pat_completeness auto
termination
  by (relation "measure (\<lambda>(y, env, visitorKey, attempt, s). 4 - attempt)") auto

declare track_loop.simps [simp del]

definition trackUniqueVisitor :: "sys \<Rightarrow> (nat \<Rightarrow> redis_env) \<Rightarrow> string \<Rightarrow> string \<Rightarrow> bool io" where
  "trackUniqueVisitor y env fpId cbId = track_loop y env (fpId @ '':'' @ cbId) 1"

definition count_attempt :: "sys \<Rightarrow> redis_env \<Rightarrow> nat \<Rightarrow> nat option io" where
  "count_attempt y e attempt =
     io_catch
       (io_bind (getTrackingRedis y e) (\<lambda>c.
          case c of
            None \<Rightarrow> if attempt < 2 then io_ret None else io_ret (Some 0)
          | Some _ \<Rightarrow>
              io_bind (redis_sCard TrackingConn (r_reply e) UNIQUE_VISITORS_KEY) (\<lambda>n.
              io_ret (Some n))))
       (\<lambda>err. io_ret None)"

function count_loop :: "sys \<Rightarrow> (nat \<Rightarrow> redis_env) \<Rightarrow> nat \<Rightarrow> state \<Rightarrow> (exn + nat) \<times> state" where
  "count_loop y env attempt s =
     (if attempt \<le> 2 then
        (case count_attempt y (env attempt) attempt s of
           (Inl err, s') \<Rightarrow> (Inl err, s')
         | (Inr (Some n), s') \<Rightarrow> (Inr n, s')
         | (Inr None, s') \<Rightarrow> count_loop y env (attempt + 1) s')
      else (Inr 0, s))"
  by pat_completeness auto
termination
  by (relation "measure (\<lambda>(y, env, attempt, s). 3 - attempt)") auto

declare count_loop.simps [simp del]

definition getTotalUniqueVisitors :: "sys \<Rightarrow> (nat \<Rightarrow> redis_env) \<Rightarrow> nat io" where
  "getTotalUniqueVisitors y env = count_loop y env 1"

section \<open>The auction path\<close>

text \<open>
  \<^verbatim>\<open>cleaned.replace(/```(?:json)?\n?/g, '')\<close>: every fence goes, with the word \<^verbatim>\<open>json\<close> and the
  line break that may follow it. The number says how many characters are still to be dropped.
\<close>

definition fence_tail :: "string \<Rightarrow> nat" where
  "fence_tail r =
     (if startsWith r ''json'' then 4 + (if startsWith (drop 4 r) [CHR 0x0A] then 1 else 0)
      else if startsWith r [CHR 0x0A] then 1 else 0)"

fun strip_fences :: "nat \<Rightarrow> string \<Rightarrow> string" where
  "strip_fences n [] = []"
| "strip_fences (Suc n) (c # cs) = strip_fences n cs"
| "strip_fences 0 (c # cs) =
     (if startsWith (c # cs) ''```'' then strip_fences (2 + fence_tail (drop 2 cs)) cs
      else c # strip_fences 0 cs)"

definition parseAuctionResponse_try :: "sys \<Rightarrow> json \<Rightarrow> exn + json" where
  "parseAuctionResponse_try y text =
     (case text of
        JStr t \<Rightarrow>
          (let c0 = trim t;
               cleaned = (if startsWith c0 ''```'' then trim (strip_fences 0 c0) else c0)
           in case JSON_parse y cleaned of
                None \<Rightarrow> Inl ''SyntaxError''
              | Some JNull \<Rightarrow> Inl (null_read ''bids'')
              | Some (JObj parsed) \<Rightarrow>
                  (case map_of parsed ''bids'' of
                     Some (JArr bids) \<Rightarrow>
                       Inr (JObj [(''bids'', JArr bids),
                                  (''valueFactors'',
                                     (if truthy_opt (map_of parsed ''valueFactors'')
                                      then or_else (map_of parsed ''valueFactors'') JNull
                                      else JArr [])),
                                  (''source'', JStr ''grok'')])
                   | _ \<Rightarrow> Inr JNull)
              | Some _ \<Rightarrow> Inr JNull)
      | _ \<Rightarrow> Inl ''TypeError: text.trim is not a function'')"

definition parseAuctionResponse :: "sys \<Rightarrow> json \<Rightarrow> json" where
  "parseAuctionResponse y text =
     (case parseAuctionResponse_try y text of Inl err \<Rightarrow> JNull | Inr r \<Rightarrow> r)"

definition getAuctionCache :: "sys \<Rightarrow> redis_env \<Rightarrow> string \<Rightarrow> json io" where
  "getAuctionCache y e cacheKey =
     io_catch
       (io_bind (getRedis y e) (\<lambda>c.
          case c of
            None \<Rightarrow> io_ret JNull
          | Some _ \<Rightarrow> io_bind (redis_get CacheConn (r_reply e) cacheKey) (parse_cached y)))
       (\<lambda>err. io_ret JNull)"

definition setAuctionCache :: "sys \<Rightarrow> redis_env \<Rightarrow> string \<Rightarrow> json \<Rightarrow> unit io" where
  "setAuctionCache y e cacheKey result =
     io_bind (emit (Called_setAuctionCache cacheKey result)) (\<lambda>_.
     io_catch
       (io_bind (getRedis y e) (\<lambda>c.
          case c of
            None \<Rightarrow> io_ret ()
          | Some _ \<Rightarrow>
              redis_setEx CacheConn (r_reply e) cacheKey AUCTION_CACHE_TTL (JSON_stringify y result)))
       (\<lambda>err. io_ret ()))"

text \<open>
  A provider's attempt at an auction: the result, or \<^verbatim>\<open>null\<close> when the attempt gives none.
  Neither reads the body of a response that is not \<^verbatim>\<open>ok\<close>.
\<close>

definition auction_answer :: "sys \<Rightarrow> provider \<Rightarrow> string \<Rightarrow> http_outcome \<Rightarrow> json io" where
  "auction_answer y p tag out =
     io_bind (fetch p out) (\<lambda>response.
       if \<not> response_ok response then io_ret JNull
       else
         io_bind (settle (body_json response)) (\<lambda>data.
         io_bind (settle (message_content data)) (\<lambda>text.
           if \<not> truthy_opt text then io_ret JNull
           else
             (let result = parseAuctionResponse y (or_else text JNull)
              in if truthy result then io_ret (set_prop result ''source'' (JStr tag))
                 else io_ret JNull))))"

definition tryMiMo_auction :: "sys \<Rightarrow> http_outcome \<Rightarrow> json io" where
  "tryMiMo_auction y out =
     (if \<not> is_set (OPENROUTER_API_KEY y) then io_ret JNull
      else io_catch (auction_answer y MiMo ''mimo'' out) (\<lambda>err. io_ret JNull))"

definition auction_key :: "string \<Rightarrow> string \<Rightarrow> string" where
  "auction_key profileSummary countryCode =
     ''yourinfo:auction:'' @ take 32 (base64 profileSummary) @ '':'' @ countryCode"

definition generateAIAuction :: "sys \<Rightarrow> run_env \<Rightarrow> string \<Rightarrow> string \<Rightarrow> string \<Rightarrow> json io" where
  "generateAIAuction y e profileSummary country' countryCode =
     (let cacheKey = auction_key profileSummary countryCode
      in io_bind (getAuctionCache y (lookup e) cacheKey) (\<lambda>cached.
           if truthy cached then io_ret cached
           else
             io_bind
               (if is_set (GROK_API_KEY y) then
                  io_catch
                    (io_bind (auction_answer y Grok ''grok'' (grok e)) (\<lambda>result.
                       if truthy result then
                         io_bind (setAuctionCache y (store e) cacheKey result) (\<lambda>_. io_ret result)
                       else io_ret JNull))
                    (\<lambda>err. io_ret JNull)
                else io_ret JNull)
               (\<lambda>fromGrok.
                  if truthy fromGrok then io_ret fromGrok
                  else
                    io_bind (tryMiMo_auction y (mimo e)) (\<lambda>mimoResult.
                      if truthy mimoResult then
                        io_bind (setAuctionCache y (store e) cacheKey mimoResult) (\<lambda>_.
                        io_ret mimoResult)
                      else
                        io_ret (JObj [(''bids'', JArr []), (''valueFactors'', JArr []),
                                      (''source'', JStr ''fallback'')])))))"

section \<open>Runs and observations\<close>

text \<open>The state of a freshly started process in front of an empty store.\<close>

definition init_state :: state where
  "init_state =
     \<lparr>redis = None, redisConnecting = False, redisLastError = 0,
      trackingRedis = None, trackingRedisConnecting = False, trackingRedisLastError = 0,
      userRateLimits = Map.empty, kv = Map.empty, sets = (\<lambda>k. {||}), trace = []\<rparr>"

text \<open>What happens to the rate limiter: calls of \<^verbatim>\<open>checkRateLimit\<close> and clean-ups, in any order.\<close>

datatype limiter_op = Check int string | Sweep int

fun limiter_run :: "limiter_op list \<Rightarrow> state \<Rightarrow> state" where
  "limiter_run [] s = s"
| "limiter_run (Check now userId # ops) s = limiter_run ops (snd (checkRateLimit now userId s))"
| "limiter_run (Sweep now # ops) s = limiter_run ops (sweep now s)"

text \<open>The events a run added to the trace, and the connection attempts among them.\<close>

definition events_since :: "state \<Rightarrow> state \<Rightarrow> event list" where
  "events_since s s' = drop (length (trace s)) (trace s')"

fun is_connect :: "event \<Rightarrow> bool" where
  "is_connect (Redis_connect c url) = True"
| "is_connect ev = False"

definition connect_attempts :: "state \<Rightarrow> nat" where
  "connect_attempts s = length (filter is_connect (trace s))"

section \<open>Specifications of runs\<close>

text \<open>
  \<open>io_spec m s Q E\<close>: run from \<open>s\<close>, \<open>m\<close> returns a value and a state that satisfy \<open>Q\<close>,
  or throws in a state that satisfies \<open>E\<close>. The step relations say which parts of the
  state a phase of the pipeline may have changed and which events it may have added.
\<close>

definition io_spec :: "'a io \<Rightarrow> state \<Rightarrow> ('a \<Rightarrow> state \<Rightarrow> bool) \<Rightarrow> (exn \<Rightarrow> state \<Rightarrow> bool) \<Rightarrow> bool" where
  "io_spec m s Q E = (case m s of (Inl err, s') \<Rightarrow> E err s' | (Inr v, s') \<Rightarrow> Q v s')"

fun is_lookup_event :: "event \<Rightarrow> bool" where
  "is_lookup_event (Redis_connect c url) = (c = CacheConn)"
| "is_lookup_event (Redis_get k) = True"
| "is_lookup_event ev = False"

fun is_cache_connect :: "event \<Rightarrow> bool" where
  "is_cache_connect (Redis_connect c url) = (c = CacheConn)"
| "is_cache_connect ev = False"

fun is_fetch :: "event \<Rightarrow> bool" where
  "is_fetch (Fetch p) = True"
| "is_fetch ev = False"

fun is_store_event :: "event \<Rightarrow> bool" where
  "is_store_event (Redis_connect c url) = (c = CacheConn)"
| "is_store_event (Redis_setEx k ttl v) = True"
| "is_store_event ev = False"

definition conn_step :: "(event \<Rightarrow> bool) \<Rightarrow> state \<Rightarrow> state \<Rightarrow> bool" where
  "conn_step P s s' =
     (trackingRedis s' = trackingRedis s \<and> trackingRedisConnecting s' = trackingRedisConnecting s
      \<and> trackingRedisLastError s' = trackingRedisLastError s
      \<and> userRateLimits s' = userRateLimits s \<and> kv s' = kv s \<and> sets s' = sets s
      \<and> (\<exists>evs. trace s' = trace s @ evs \<and> list_all P evs))"

definition fetch_step :: "state \<Rightarrow> state \<Rightarrow> bool" where
  "fetch_step s s' = (\<exists>evs. s' = s\<lparr>trace := trace s @ evs\<rparr> \<and> list_all is_fetch evs)"

definition write_step :: "redis_outcome \<Rightarrow> event \<Rightarrow> string \<Rightarrow> nat \<Rightarrow> string \<Rightarrow> state \<Rightarrow> state \<Rightarrow> bool" where
  "write_step out call k ttl v s s' =
     (trackingRedis s' = trackingRedis s \<and> trackingRedisConnecting s' = trackingRedisConnecting s
      \<and> trackingRedisLastError s' = trackingRedisLastError s
      \<and> userRateLimits s' = userRateLimits s \<and> sets s' = sets s
      \<and> (\<exists>evs. trace s' = trace s @ call # evs \<and> list_all is_store_event evs
             \<and> kv s' = (if Redis_setEx k ttl v \<in> set evs \<and> out = Replies
                         then (kv s)(k \<mapsto> (ttl, v)) else kv s)))"

text \<open>
  The profile a provider's answer carries, marked with the provider's tag: \<^verbatim>\<open>null\<close> when the
  call rejects, the status is not a success, the body is not JSON, the message has no
  content, or the content does not parse into a profile.
\<close>

definition answer_profile :: "sys \<Rightarrow> string \<Rightarrow> http_outcome \<Rightarrow> json" where
  "answer_profile y tag out =
     (case out of
        Fetch_rejects err \<Rightarrow> JNull
      | Response st t j \<Rightarrow>
          if \<not> response_ok out then JNull
          else
            (case j of
               Inl err \<Rightarrow> JNull
             | Inr data \<Rightarrow>
                 (case message_content data of
                    Inl err \<Rightarrow> JNull
                  | Inr content \<Rightarrow>
                      if \<not> truthy_opt content then JNull
                      else if truthy (parseAIResponse y (or_else content JNull)) then
                        set_prop (set_prop (parseAIResponse y (or_else content JNull))
                                    ''aiGenerated'' (JBool True)) ''aiSource'' (JStr tag)
                      else JNull)))"

definition mimo_choice :: "sys \<Rightarrow> run_env \<Rightarrow> json" where
  "mimo_choice y e =
     (if is_set (OPENROUTER_API_KEY y) then answer_profile y ''mimo'' (mimo e) else JNull)"

definition grok_choice :: "sys \<Rightarrow> run_env \<Rightarrow> json" where
  "grok_choice y e =
     (if is_set (GROK_API_KEY y) then answer_profile y ''grok'' (grok e) else JNull)"

text \<open>The profile the providers give a run that reaches them: Grok's, else MiMo's, else none.\<close>

definition chosen_profile :: "sys \<Rightarrow> run_env \<Rightarrow> json" where
  "chosen_profile y e = (if truthy (grok_choice y e) then grok_choice y e else mimo_choice y e)"

definition choice_post ::
  "sys \<Rightarrow> run_env \<Rightarrow> string \<Rightarrow> clientInfo \<Rightarrow> geoData option \<Rightarrow> json \<Rightarrow> state \<Rightarrow> profile_result \<Rightarrow> state \<Rightarrow> bool" where
  "choice_post y e k c g p s r s' =
     (if truthy p then
        source r = Ai \<and> profile r = p \<and> error r = None \<and>
        (\<exists>s1. fetch_step s s1 \<and> cacheProfile y (store e) k p s1 = (Inr (), s') \<and>
              write_step (r_reply (store e)) (Called_cacheProfile k p) k CACHE_TTL
                (JSON_stringify y p) s1 s')
      else
        source r = Fallback \<and> profile r = generateFallbackProfile c g \<and> fetch_step s s')"

definition prov_post ::
  "sys \<Rightarrow> run_env \<Rightarrow> string \<Rightarrow> clientInfo \<Rightarrow> geoData option \<Rightarrow> state \<Rightarrow> profile_result \<Rightarrow> state \<Rightarrow> bool" where
  "prov_post y e k c g s r s' = choice_post y e k c g (chosen_profile y e) s r s'"

definition profile_key :: "clientInfo \<Rightarrow> string" where
  "profile_key c =
     getCacheKey (str_or (fingerprintId c) ''unknown'') (str_or (crossBrowserId c) ''unknown'')"

definition profile_user :: "clientInfo \<Rightarrow> string" where
  "profile_user c =
     str_or (fingerprintId c) ''unknown'' @ '':'' @ str_or (crossBrowserId c) ''unknown''"

definition configured :: "sys \<Rightarrow> bool" where
  "configured y = (is_set (GROK_API_KEY y) \<or> is_set (OPENROUTER_API_KEY y))"

definition run_post ::
  "sys \<Rightarrow> run_env \<Rightarrow> clientInfo \<Rightarrow> geoData option \<Rightarrow> state \<Rightarrow> profile_result \<Rightarrow> state \<Rightarrow> bool" where
  "run_post y e c g s r s' =
     (\<exists>cached s1.
        getCachedProfile y (lookup e) (profile_key c) s = (Inr cached, s1)
        \<and> conn_step is_lookup_event s s1
        \<and> (if truthy cached then r = \<lparr>profile = cached, source = Cache, error = None\<rparr> \<and> s' = s1
            else if \<not> configured y then
              r = \<lparr>profile = generateFallbackProfile c g, source = Fallback,
                     error = Some ''No AI configured''\<rparr> \<and> s' = s1
            else if \<not> fst (checkRateLimit (rate_now e) (profile_user c) s1) then
              r = \<lparr>profile = generateFallbackProfile c g, source = Fallback,
                     error = Some ''Rate limited''\<rparr>
              \<and> s' = snd (checkRateLimit (rate_now e) (profile_user c) s1)
            else prov_post y e (profile_key c) c g
                   (snd (checkRateLimit (rate_now e) (profile_user c) s1)) r s'))"

section \<open>Summaries of a run\<close>

text \<open>
  \<open>store_ok\<close>: the acquisition yields a client and the command replies. \<open>cached_value\<close>:
  what a look-up that reaches the store returns for an entry. \<open>lookup_misses\<close>: the look-up
  gives nothing to return. \<open>outcome\<close>: the profile and the tag of a run, from what the
  look-up, the rate gate and the providers gave.
\<close>

definition store_ok :: "redis_env \<Rightarrow> state \<Rightarrow> bool" where
  "store_ok e s =
     ((client_open (redis s) \<or> (\<not> redisConnecting s \<and> r_connect_ok e))
      \<and> \<not> in_backoff (redisLastError s) (r_now e) \<and> r_reply e = Replies)"

definition cached_value :: "sys \<Rightarrow> (nat \<times> string) option \<Rightarrow> json" where
  "cached_value y entry =
     (case entry of
        None \<Rightarrow> JNull
      | Some (ttl, text) \<Rightarrow>
          if text = [] then JNull
          else (case JSON_parse y text of None \<Rightarrow> JNull | Some v \<Rightarrow> v))"

definition lookup_misses :: "sys \<Rightarrow> redis_env \<Rightarrow> string \<Rightarrow> state \<Rightarrow> bool" where
  "lookup_misses y e k s =
     (case fst (getCachedProfile y e k s) of Inl err \<Rightarrow> True | Inr v \<Rightarrow> \<not> truthy v)"

definition outcome ::
  "sys \<Rightarrow> run_env \<Rightarrow> clientInfo \<Rightarrow> geoData option \<Rightarrow> json \<Rightarrow> bool \<Rightarrow> json \<times> src" where
  "outcome y e c g cached allowed =
     (if truthy cached then (cached, Cache)
      else if configured y \<and> allowed \<and> truthy (chosen_profile y e) then (chosen_profile y e, Ai)
      else (generateFallbackProfile c g, Fallback))"


section \<open>An example deployment\<close>

text \<open>
  A provider's answer, the profile it is parsed into, and the text that profile is stored
  as; \<open>JSON_parse\<close> and \<open>JSON_stringify\<close> are given on these texts only. The store is up
  (every connection attempt and command succeeds) or down (none does). The visitor sends
  no identity.
\<close>

definition example_answer :: string where
  "example_answer = ''{\"likelyDeveloper\":true,\"developerScore\":50}''"

definition example_parsed :: json where
  "example_parsed = JObj [(''likelyDeveloper'', JBool True), (''developerScore'', JNum 50)]"

definition example_profile :: json where
  "example_profile =
     JObj [(''likelyDeveloper'', JBool True), (''developerScore'', JNum 50),
           (''likelyGamer'', JBool False), (''gamerScore'', JNum 0),
           (''likelyDesigner'', JBool False), (''designerScore'', JNum 0),
           (''likelyPowerUser'', JBool False), (''powerUserScore'', JNum 0),
           (''privacyConscious'', JBool False), (''privacyScore'', JNum 0),
           (''deviceTier'', JStr ''mid-range''), (''estimatedDeviceValue'', JStr ''Unknown''),
           (''deviceAge'', JStr ''recent''), (''humanScore'', JNum 100),
           (''botIndicators'', JArr []), (''likelyTechSavvy'', JBool False),
           (''likelyMobile'', JBool False), (''likelyWorkDevice'', JBool False),
           (''likelyCountry'', JStr ''Unknown''), (''inferredInterests'', JArr []),
           (''fraudRiskScore'', JNum 0), (''fraudIndicators'', JArr []),
           (''aiGenerated'', JBool True), (''aiSource'', JStr ''grok'')]"

definition example_stored :: string where
  "example_stored = ''{\"likelyDeveloper\":true,\"developerScore\":50,\"likelyGamer\":false,\"gamerScore\":0,\"likelyDesigner\":false,\"designerScore\":0,\"likelyPowerUser\":false,\"powerUserScore\":0,\"privacyConscious\":false,\"privacyScore\":0,\"deviceTier\":\"mid-range\",\"estimatedDeviceValue\":\"Unknown\",\"deviceAge\":\"recent\",\"humanScore\":100,\"botIndicators\":[],\"likelyTechSavvy\":false,\"likelyMobile\":false,\"likelyWorkDevice\":false,\"likelyCountry\":\"Unknown\",\"inferredInterests\":[],\"fraudRiskScore\":0,\"fraudIndicators\":[],\"aiGenerated\":true,\"aiSource\":\"grok\"}''"

definition example_sys :: "string option \<Rightarrow> string option \<Rightarrow> sys" where
  "example_sys grokKey openrouterKey =
     \<lparr>GROK_API_KEY = grokKey, OPENROUTER_API_KEY = openrouterKey, env_REDIS_URL = None,
      JSON_parse = (\<lambda>t. if t = example_answer then Some example_parsed
                         else if t = example_stored then Some example_profile else None),
      JSON_stringify = (\<lambda>j. if j = example_profile then example_stored else ''null''),
      coerce_number = (\<lambda>j. None)\<rparr>"

definition healthy :: http_outcome where
  "healthy =
     Response 200 (Inr example_answer)
       (Inr (JObj [(''choices'',
                    JArr [JObj [(''message'', JObj [(''content'', JStr example_answer)])]])]))"

definition store_up :: "int \<Rightarrow> redis_env" where
  "store_up t = \<lparr>r_now = t, r_connect_ok = True, r_fail_now = t, r_reply = Replies\<rparr>"

definition store_down :: "int \<Rightarrow> redis_env" where
  "store_down t = \<lparr>r_now = t, r_connect_ok = False, r_fail_now = t, r_reply = Rejects None\<rparr>"

definition example_env :: "(int \<Rightarrow> redis_env) \<Rightarrow> int \<Rightarrow> run_env" where
  "example_env st t = \<lparr>lookup = st t, rate_now = t, grok = healthy, mimo = healthy, store = st t\<rparr>"

definition anonymous :: clientInfo where
  "anonymous =
     \<lparr>fingerprintId = None, crossBrowserId = None, fontsDetected = None,
      extensionsDetected = None, advancedBehavior = None, gamepadsSupported = None,
      webglRenderer = None, installedApps = None, devicePixelRatio = None, colorGamut = None,
      hdrSupported = None, screenWidth = None, hardwareConcurrency = None, deviceMemory = None,
      languages = None, adBlockerDetected = None, doNotTrack = None,
      globalPrivacyControl = None, isIncognito = None, vpnDetection = None,
      maxTouchPoints = None, platform = None, isAutomated = None, isHeadless = None,
      isVirtualMachine = None, cryptoWallets = None, socialLogins = None\<rparr>"

definition both_keys :: sys where
  "both_keys = example_sys (Some ''k'') (Some ''k'')"


definition down1 :: "(exn + profile_result) \<times> state" where
  "down1 = generateAIProfile both_keys (example_env store_down 1000) anonymous None init_state"





section \<open>Summaries of an auction run\<close>

text \<open>
  The auction a provider's answer carries, marked with the provider's tag: \<^verbatim>\<open>null\<close> when the
  call rejects, the status is not a success, the body is not JSON, the message has no
  content, or the content does not parse into an auction. \<open>chosen_auction\<close>: what the
  providers give a run that reaches them, Grok's, else MiMo's, else none.
\<close>

definition auction_result :: "sys \<Rightarrow> string \<Rightarrow> http_outcome \<Rightarrow> json" where
  "auction_result y tag out =
     (case out of
        Fetch_rejects err \<Rightarrow> JNull
      | Response st t j \<Rightarrow>
          if \<not> response_ok out then JNull
          else
            (case j of
               Inl err \<Rightarrow> JNull
             | Inr data \<Rightarrow>
                 (case message_content data of
                    Inl err \<Rightarrow> JNull
                  | Inr content \<Rightarrow>
                      if \<not> truthy_opt content then JNull
                      else if truthy (parseAuctionResponse y (or_else content JNull)) then
                        set_prop (parseAuctionResponse y (or_else content JNull))
                          ''source'' (JStr tag)
                      else JNull)))"

definition grok_auction :: "sys \<Rightarrow> run_env \<Rightarrow> json" where
  "grok_auction y e =
     (if is_set (GROK_API_KEY y) then auction_result y ''grok'' (grok e) else JNull)"

definition mimo_auction :: "sys \<Rightarrow> run_env \<Rightarrow> json" where
  "mimo_auction y e =
     (if is_set (OPENROUTER_API_KEY y) then auction_result y ''mimo'' (mimo e) else JNull)"

definition chosen_auction :: "sys \<Rightarrow> run_env \<Rightarrow> json" where
  "chosen_auction y e = (if truthy (grok_auction y e) then grok_auction y e else mimo_auction y e)"

definition auction_fallback :: json where
  "auction_fallback =
     JObj [(''bids'', JArr []), (''valueFactors'', JArr []), (''source'', JStr ''fallback'')]"

fun is_rate_check :: "event \<Rightarrow> bool" where
  "is_rate_check (Called_checkRateLimit u) = True"
| "is_rate_check ev = False"

fun is_auction_write :: "event \<Rightarrow> bool" where
  "is_auction_write (Called_setAuctionCache k r) = True"
| "is_auction_write (Redis_connect c url) = (c = CacheConn)"
| "is_auction_write (Redis_setEx k ttl v) = True"
| "is_auction_write ev = False"

text \<open>
  The providers a run that misses the cache calls, in order: Grok when its key is set,
  then MiMo when Grok gave no auction and MiMo's key is set.
\<close>

definition auction_fetches :: "sys \<Rightarrow> run_env \<Rightarrow> provider list" where
  "auction_fetches y e =
     (if is_set (GROK_API_KEY y) then [Grok] else [])
     @ (if \<not> truthy (grok_auction y e) \<and> is_set (OPENROUTER_API_KEY y) then [MiMo] else [])"

definition fetched :: "provider list \<Rightarrow> state \<Rightarrow> state" where
  "fetched ps s = s\<lparr>trace := trace s @ map Fetch ps\<rparr>"

text \<open>
  What a run of \<^verbatim>\<open>generateAIAuction\<close> under the key \<open>k\<close> does after the look-up missed (the
  providers, then the write-through of a provider's result), and what it does as a whole.
\<close>

definition providers_post :: "sys \<Rightarrow> run_env \<Rightarrow> string \<Rightarrow> state \<Rightarrow> json \<Rightarrow> state \<Rightarrow> bool" where
  "providers_post y e k s1 r s' =
     (if truthy (chosen_auction y e) then
        r = chosen_auction y e
        \<and> setAuctionCache y (store e) k r (fetched (auction_fetches y e) s1) = (Inr (), s')
        \<and> write_step (r_reply (store e)) (Called_setAuctionCache k r) k AUCTION_CACHE_TTL
             (JSON_stringify y r) (fetched (auction_fetches y e) s1) s'
      else r = auction_fallback \<and> s' = fetched (auction_fetches y e) s1)"

definition auction_post :: "sys \<Rightarrow> run_env \<Rightarrow> string \<Rightarrow> state \<Rightarrow> json \<Rightarrow> state \<Rightarrow> bool" where
  "auction_post y e k s r s' =
     (\<exists>cached s1.
        getAuctionCache y (lookup e) k s = (Inr cached, s1)
        \<and> conn_step is_lookup_event s s1
        \<and> (if truthy cached then r = cached \<and> s' = s1 else providers_post y e k s1 r s'))"

section \<open>An example auction\<close>

text \<open>
  An auction: a provider's answer, the result it is parsed into, and the text that result
  is stored as. Two summaries that differ after their first 24 bytes.
\<close>

definition auction_answer_text :: string where
  "auction_answer_text = ''{\"bids\":[{\"bidder\":\"Google Ads\",\"amount\":2}]}''"

definition auction_parsed :: json where
  "auction_parsed =
     JObj [(''bids'', JArr [JObj [(''bidder'', JStr ''Google Ads''), (''amount'', JNum 2)]])]"

definition example_auction :: json where
  "example_auction =
     JObj [(''bids'', JArr [JObj [(''bidder'', JStr ''Google Ads''), (''amount'', JNum 2)]]),
           (''valueFactors'', JArr []), (''source'', JStr ''grok'')]"

definition auction_stored :: string where
  "auction_stored = ''{\"bids\":[{\"bidder\":\"Google Ads\",\"amount\":2}],\"valueFactors\":[],\"source\":\"grok\"}''"

definition auction_sys :: sys where
  "auction_sys =
     \<lparr>GROK_API_KEY = Some ''k'', OPENROUTER_API_KEY = Some ''k'', env_REDIS_URL = None,
      JSON_parse = (\<lambda>t. if t = auction_answer_text then Some auction_parsed
                         else if t = auction_stored then Some example_auction else None),
      JSON_stringify = (\<lambda>j. if j = example_auction then auction_stored else ''null''),
      coerce_number = (\<lambda>j. None)\<rparr>"

definition bidding :: http_outcome where
  "bidding =
     Response 200 (Inr auction_answer_text)
       (Inr (JObj [(''choices'',
                    JArr [JObj [(''message'', JObj [(''content'', JStr auction_answer_text)])]])]))"

definition auction_env :: "(int \<Rightarrow> redis_env) \<Rightarrow> int \<Rightarrow> run_env" where
  "auction_env st t = \<lparr>lookup = st t, rate_now = t, grok = bidding, mimo = bidding, store = st t\<rparr>"

definition summary1 :: string where
  "summary1 = ''Developer using a MacBook Pro''"

definition summary2 :: string where
  "summary2 = ''Developer using a MacBook Air''"

text \<open>An auction request answered by Grok in front of a store that is up.\<close>

definition sold1 :: "(exn + json) \<times> state" where
  "sold1 = generateAIAuction auction_sys (auction_env store_up 1000) summary1 ''Germany'' ''DE''
             init_state"


text \<open>Three auction requests within one minute, the store out of reach at each.\<close>

definition bid1 :: "(exn + json) \<times> state" where
  "bid1 = generateAIAuction auction_sys (auction_env store_down 1000) summary1 ''Germany'' ''DE''
            init_state"

definition bid2 :: "(exn + json) \<times> state" where
  "bid2 = generateAIAuction auction_sys (auction_env store_down 2000) summary1 ''Germany'' ''DE''
            (snd bid1)"

definition bid3 :: "(exn + json) \<times> state" where
  "bid3 = generateAIAuction auction_sys (auction_env store_down 3000) summary1 ''Germany'' ''DE''
            (snd bid2)"

section \<open>Example visitors\<close>

text \<open>
  Visitors: one who sends no identity and says it is an iPhone; two who send a
  cross-browser identity and no fingerprint; one who sends a fingerprint and no
  cross-browser identity.
\<close>

definition anonymous_phone :: clientInfo where
  "anonymous_phone = anonymous\<lparr>platform := Some ''iPhone''\<rparr>"

definition visitor_a :: clientInfo where
  "visitor_a = anonymous\<lparr>crossBrowserId := Some ''a''\<rparr>"

definition visitor_b :: clientInfo where
  "visitor_b = anonymous\<lparr>crossBrowserId := Some ''b''\<rparr>"

definition visitor_f :: clientInfo where
  "visitor_f = anonymous\<lparr>fingerprintId := Some ''f''\<rparr>"

text \<open>The requests of \<open>visitor_a\<close> and then \<open>visitor_b\<close>, the store up and the providers healthy.\<close>

definition half1 :: "(exn + profile_result) \<times> state" where
  "half1 = generateAIProfile both_keys (example_env store_up 1000) visitor_a None init_state"

definition half2 :: "(exn + profile_result) \<times> state" where
  "half2 = generateAIProfile both_keys (example_env store_up 2000) visitor_b None (snd half1)"

text \<open>
  An identity-less request after \<open>down1\<close> (the store out of reach), and a third one by the
  first visitor.
\<close>

definition crowd2 :: "(exn + profile_result) \<times> state" where
  "crowd2 = generateAIProfile both_keys (example_env store_down 2000) anonymous_phone None
              (snd down1)"

definition crowd3 :: "(exn + profile_result) \<times> state" where
  "crowd3 = generateAIProfile both_keys (example_env store_down 3000) anonymous None (snd crowd2)"

text \<open>The first request of a visitor, the store up and a provider answering.\<close>

definition shared1 :: "(exn + profile_result) \<times> state" where
  "shared1 = generateAIProfile both_keys (example_env store_up 1000) anonymous None init_state"


section \<open>Repeated visits\<close>

text \<open>
  \<open>tracking_ok\<close>: the acquisition of the tracking connection yields a client and the command
  replies. \<open>tracking_up\<close>: the same of the first attempt of a call, said of the environment
  alone, for a connection whose last error was at \<open>lastError\<close>.
\<close>

definition tracking_ok :: "redis_env \<Rightarrow> state \<Rightarrow> bool" where
  "tracking_ok e s =
     ((client_open (trackingRedis s) \<or> (\<not> trackingRedisConnecting s \<and> r_connect_ok e))
      \<and> \<not> in_backoff (trackingRedisLastError s) (r_now e) \<and> r_reply e = Replies)"

definition tracking_up :: "int \<Rightarrow> (nat \<Rightarrow> redis_env) \<Rightarrow> bool" where
  "tracking_up lastError env =
     (r_connect_ok (env 1) \<and> r_reply (env 1) = Replies \<and> \<not> in_backoff lastError (r_now (env 1)))"

text \<open>
  One visitor calling again and again: each round is a call of \<^verbatim>\<open>trackUniqueVisitor\<close> with the
  visitor's identity followed by a call of \<^verbatim>\<open>getTotalUniqueVisitors\<close>; the log holds what the
  two calls returned. \<open>visit_log\<close> reads the total once before the first round.
\<close>

fun visits ::
  "sys \<Rightarrow> string \<Rightarrow> string \<Rightarrow> ((nat \<Rightarrow> redis_env) \<times> (nat \<Rightarrow> redis_env)) list \<Rightarrow> state
   \<Rightarrow> ((exn + bool) \<times> (exn + nat)) list \<times> state" where
  "visits y fpId cbId [] s = ([], s)"
| "visits y fpId cbId ((envT, envC) # envs) s =
     (case trackUniqueVisitor y envT fpId cbId s of
        (isNew, s1) \<Rightarrow>
          (case getTotalUniqueVisitors y envC s1 of
             (count', s2) \<Rightarrow>
               (case visits y fpId cbId envs s2 of
                  (rest, s3) \<Rightarrow> ((isNew, count') # rest, s3))))"

definition visit_log ::
  "sys \<Rightarrow> string \<Rightarrow> string \<Rightarrow> (nat \<Rightarrow> redis_env)
   \<Rightarrow> ((nat \<Rightarrow> redis_env) \<times> (nat \<Rightarrow> redis_env)) list \<Rightarrow> state
   \<Rightarrow> (exn + nat) \<times> ((exn + bool) \<times> (exn + nat)) list" where
  "visit_log y fpId cbId env0 envs s =
     (case getTotalUniqueVisitors y env0 s of
        (count', s0) \<Rightarrow> (count', fst (visits y fpId cbId envs s0)))"

text \<open>Three environments in which the store is up.\<close>

definition up_at :: "int \<Rightarrow> nat \<Rightarrow> redis_env" where
  "up_at t attempt = store_up t"


section \<open>The rate limiter's window\<close>

lemma checkRateLimit_bounded:
  assumes "\<forall>u w. userRateLimits s u = Some w \<longrightarrow> count w \<le> RATE_LIMIT_MAX"
  shows "\<forall>u w. userRateLimits (snd (checkRateLimit now v s)) u = Some w \<longrightarrow> count w \<le> RATE_LIMIT_MAX"
  using assms
  by (auto simp: checkRateLimit_def Let_def RATE_LIMIT_MAX_def split: option.splits if_splits)

lemma sweep_bounded:
  assumes "\<forall>u w. userRateLimits s u = Some w \<longrightarrow> count w \<le> RATE_LIMIT_MAX"
  shows "\<forall>u w. userRateLimits (sweep now s) u = Some w \<longrightarrow> count w \<le> RATE_LIMIT_MAX"
  using assms
  by (auto simp: sweep_def split: option.splits if_splits)

lemma limiter_run_bounded:
  assumes "\<forall>u w. userRateLimits s u = Some w \<longrightarrow> count w \<le> RATE_LIMIT_MAX"
  shows "\<forall>u w. userRateLimits (limiter_run ops s) u = Some w \<longrightarrow> count w \<le> RATE_LIMIT_MAX"
  using assms
proof (induction ops arbitrary: s)
  case Nil
  then show ?case by simp
next
  case (Cons a ops)
  show ?case
  proof (cases a)
    case (Check now v)
    then show ?thesis using Cons.IH[OF checkRateLimit_bounded[OF Cons.prems]] by simp
  next
    case (Sweep now)
    then show ?thesis using Cons.IH[OF sweep_bounded[OF Cons.prems]] by simp
  qed
qed

lemma checkRateLimit_new_window:
  assumes "userRateLimits t u = None \<or> (\<exists>w. userRateLimits t u = Some w \<and> now > resetTime w)"
  shows "fst (checkRateLimit now u t) \<and>
         userRateLimits (snd (checkRateLimit now u t)) u =
           Some \<lparr>count = 1, resetTime = now + RATE_LIMIT_WINDOW\<rparr>"
  using assms
  by (auto simp: checkRateLimit_def Let_def split: option.splits)

text \<open>
  C7. Whatever calls of \<^verbatim>\<open>checkRateLimit\<close> and clean-ups happen, for whatever callers and
  clock readings, no caller's window entry ever holds a count above the maximum, which is 2.
  A call for a caller with no entry, or with an entry whose reset time has passed
  (\<open>now > resetTime\<close>), is allowed and replaces the entry by a new one with count 1 and reset
  time \<open>now + RATE_LIMIT_WINDOW\<close>; nothing is decremented.
\<close>

theorem rate_window_bounded:
  assumes "\<forall>u w. userRateLimits s u = Some w \<longrightarrow> count w \<le> RATE_LIMIT_MAX"
  shows "RATE_LIMIT_MAX = 2 \<and>
         (\<forall>u w. userRateLimits (limiter_run ops s) u = Some w \<longrightarrow> count w \<le> RATE_LIMIT_MAX) \<and>
         (\<forall>now u. (userRateLimits (limiter_run ops s) u = None
                    \<or> (\<exists>w. userRateLimits (limiter_run ops s) u = Some w \<and> now > resetTime w)) \<longrightarrow>
            fst (checkRateLimit now u (limiter_run ops s)) \<and>
            userRateLimits (snd (checkRateLimit now u (limiter_run ops s))) u =
              Some \<lparr>count = 1, resetTime = now + RATE_LIMIT_WINDOW\<rparr>)"
  using limiter_run_bounded[OF assms] checkRateLimit_new_window
  by (simp add: RATE_LIMIT_MAX_def)

theorem rate_window_bounded_witness:
  "userRateLimits (limiter_run [Check 0 ''u'', Check 1 ''u'', Check 2 ''u''] init_state) ''u''
     = Some \<lparr>count = 2, resetTime = 60000\<rparr>
   \<and> fst (checkRateLimit 60001 ''u'' (limiter_run [Check 0 ''u'', Check 1 ''u'', Check 2 ''u''] init_state))
   \<and> userRateLimits (snd (checkRateLimit 60001 ''u''
        (limiter_run [Check 0 ''u'', Check 1 ''u'', Check 2 ''u''] init_state))) ''u''
     = Some \<lparr>count = 1, resetTime = 120001\<rparr>"
proof -
  have h: "\<forall>u w. userRateLimits init_state u = Some w \<longrightarrow> count w \<le> RATE_LIMIT_MAX"
    by (simp add: init_state_def)
  have v: "userRateLimits (limiter_run [Check 0 ''u'', Check 1 ''u'', Check 2 ''u''] init_state) ''u''
     = Some \<lparr>count = 2, resetTime = 60000\<rparr>"
    by (simp add: init_state_def checkRateLimit_def Let_def RATE_LIMIT_MAX_def RATE_LIMIT_WINDOW_def)
  show ?thesis
    using rate_window_bounded[OF h, of "[Check 0 ''u'', Check 1 ''u'', Check 2 ''u'']"] v
    by (simp add: RATE_LIMIT_WINDOW_def)
qed

section \<open>The cooldown of a connection\<close>

text \<open>
  C5. While the last error of a connection is less than the backoff of 5000 ms old,
  \<^verbatim>\<open>getRedis\<close> (and likewise \<^verbatim>\<open>getTrackingRedis\<close>) returns \<^verbatim>\<open>null\<close> and leaves the whole
  state as it was: no connection is attempted, so the number of connection attempts does
  not grow.
\<close>

theorem backoff_short_circuit:
  "REDIS_BACKOFF_MS = 5000 \<and>
   (0 < redisLastError s \<and> r_now e - redisLastError s < 5000 \<longrightarrow>
      getRedis y e s = (Inr None, s) \<and>
      connect_attempts (snd (getRedis y e s)) = connect_attempts s) \<and>
   (0 < trackingRedisLastError s \<and> r_now e - trackingRedisLastError s < 5000 \<longrightarrow>
      getTrackingRedis y e s = (Inr None, s) \<and>
      connect_attempts (snd (getTrackingRedis y e s)) = connect_attempts s)"
  by (simp add: getRedis_def getTrackingRedis_def in_backoff_def REDIS_BACKOFF_MS_def io_ret_def
      io_bind_def io_state_def)

theorem backoff_short_circuit_witness:
  "getRedis \<lparr>GROK_API_KEY = None, OPENROUTER_API_KEY = None, env_REDIS_URL = None,
              JSON_parse = (\<lambda>t. None), JSON_stringify = (\<lambda>j. []), coerce_number = (\<lambda>j. None)\<rparr>
     \<lparr>r_now = 5999, r_connect_ok = True, r_fail_now = 0, r_reply = Replies\<rparr>
     (init_state\<lparr>redisLastError := 1000\<rparr>)
   = (Inr None, init_state\<lparr>redisLastError := 1000\<rparr>)
   \<and> getTrackingRedis \<lparr>GROK_API_KEY = None, OPENROUTER_API_KEY = None, env_REDIS_URL = None,
              JSON_parse = (\<lambda>t. None), JSON_stringify = (\<lambda>j. []), coerce_number = (\<lambda>j. None)\<rparr>
     \<lparr>r_now = 5999, r_connect_ok = True, r_fail_now = 0, r_reply = Replies\<rparr>
     (init_state\<lparr>trackingRedisLastError := 1000\<rparr>)
   = (Inr None, init_state\<lparr>trackingRedisLastError := 1000\<rparr>)"
proof -
  let ?y = "\<lparr>GROK_API_KEY = None, OPENROUTER_API_KEY = None, env_REDIS_URL = None,
              JSON_parse = (\<lambda>t. None), JSON_stringify = (\<lambda>j. []), coerce_number = (\<lambda>j. None)\<rparr>"
  let ?e = "\<lparr>r_now = 5999, r_connect_ok = True, r_fail_now = 0, r_reply = Replies\<rparr>"
  let ?s = "init_state\<lparr>redisLastError := 1000\<rparr>"
  let ?t = "init_state\<lparr>trackingRedisLastError := 1000\<rparr>"
  have 1: "0 < redisLastError ?s \<and> r_now ?e - redisLastError ?s < 5000" by simp
  have 2: "0 < trackingRedisLastError ?t \<and> r_now ?e - trackingRedisLastError ?t < 5000" by simp
  from backoff_short_circuit[of ?s ?e ?y] 1 have "getRedis ?y ?e ?s = (Inr None, ?s)" by blast
  moreover from backoff_short_circuit[of ?t ?e ?y] 2
  have "getTrackingRedis ?y ?e ?t = (Inr None, ?t)" by blast
  ultimately show ?thesis by blast
qed

section \<open>Reasoning about runs\<close>

lemma spec_ret [simp]: "io_spec (io_ret x) s Q E = Q x s"
  by (simp add: io_spec_def io_ret_def)

lemma spec_throw [simp]: "io_spec (io_throw err) s Q E = E err s"
  by (simp add: io_spec_def io_throw_def)

lemma spec_modify [simp]: "io_spec (io_modify f) s Q E = Q () (f s)"
  by (simp add: io_spec_def io_modify_def)

lemma spec_state [simp]: "io_spec io_state s Q E = Q s s"
  by (simp add: io_spec_def io_state_def)

lemma spec_lift [simp]: "io_spec (io_lift f) s Q E = (case f s of (v, s') \<Rightarrow> Q v s')"
  by (simp add: io_spec_def io_lift_def split: prod.splits)

lemma spec_emit [simp]: "io_spec (emit ev) s Q E = Q () (s\<lparr>trace := trace s @ [ev]\<rparr>)"
  by (simp add: emit_def)

lemma spec_bind [simp]:
  "io_spec (io_bind m f) s Q E = io_spec m s (\<lambda>v s'. io_spec (f v) s' Q E) E"
  by (simp add: io_spec_def io_bind_def split: prod.splits sum.splits)

lemma spec_catch [simp]:
  "io_spec (io_catch m h) s Q E = io_spec m s Q (\<lambda>err s'. io_spec (h err) s' Q E)"
  by (simp add: io_spec_def io_catch_def split: prod.splits sum.splits)

lemma spec_settle [simp]:
  "io_spec (settle r) s Q E = (case r of Inl err \<Rightarrow> E err s | Inr v \<Rightarrow> Q v s)"
  by (simp add: settle_def split: sum.splits)

lemma spec_if:
  "io_spec (if b then m else n) s Q E = (if b then io_spec m s Q E else io_spec n s Q E)"
  by simp

lemma spec_mono:
  assumes "io_spec m s Q' E'"
    and "\<And>v s'. Q' v s' \<Longrightarrow> Q v s'"
    and "\<And>err s'. E' err s' \<Longrightarrow> E err s'"
  shows "io_spec m s Q E"
  using assms by (auto simp: io_spec_def split: prod.splits sum.splits)

lemma spec_result:
  assumes "io_spec m s Q (\<lambda>err s'. False)"
  shows "\<exists>v s'. m s = (Inr v, s') \<and> Q v s'"
  using assms by (auto simp: io_spec_def split: prod.splits sum.splits)

lemma conn_step_refl: "conn_step P s s"
  by (simp add: conn_step_def)

lemma conn_step_trans:
  assumes "conn_step P s s1" and "conn_step P s1 s2"
  shows "conn_step P s s2"
proof -
  from assms(1) obtain evs where 1: "trace s1 = trace s @ evs" "list_all P evs"
    unfolding conn_step_def by blast
  from assms(2) obtain evs' where 2: "trace s2 = trace s1 @ evs'" "list_all P evs'"
    unfolding conn_step_def by blast
  have "trace s2 = trace s @ (evs @ evs') \<and> list_all P (evs @ evs')"
    using 1 2 by simp
  then have "\<exists>evs. trace s2 = trace s @ evs \<and> list_all P evs" by blast
  then show ?thesis using assms unfolding conn_step_def by simp
qed

lemma conn_step_weaken:
  assumes "conn_step P s s'" and "\<And>ev. P ev \<Longrightarrow> P' ev"
  shows "conn_step P' s s'"
proof -
  from assms(1) obtain evs where 1: "trace s' = trace s @ evs" "list_all P evs"
    unfolding conn_step_def by blast
  have "list_all P' evs" using 1 assms(2) by (simp add: list_all_iff)
  with 1 have "\<exists>evs. trace s' = trace s @ evs \<and> list_all P' evs" by blast
  then show ?thesis using assms(1) unfolding conn_step_def by simp
qed

lemma getRedis_spec:
  "io_spec (getRedis y e) s (\<lambda>c s'. conn_step is_cache_connect s s') (\<lambda>err s'. False)"
  unfolding getRedis_def
  by (simp add: redis_connect_def conn_step_def)

lemma cache_connect_lookup: "is_cache_connect ev \<Longrightarrow> is_lookup_event ev"
  by (cases ev) simp_all

lemma cache_connect_store: "is_cache_connect ev \<Longrightarrow> is_store_event ev"
  by (cases ev) simp_all

lemma cache_connect_not_setEx: "list_all is_cache_connect evs \<Longrightarrow> Redis_setEx k ttl v \<notin> set evs"
  by (auto simp: list_all_iff)

lemma getCachedProfile_spec:
  "io_spec (getCachedProfile y e k) s (\<lambda>v s'. conn_step is_lookup_event s s') (\<lambda>err s'. False)"
  unfolding getCachedProfile_def
  apply simp
  apply (rule spec_mono[OF getRedis_spec])
   apply (drule conn_step_weaken[where P'=is_lookup_event], erule cache_connect_lookup)
   apply (auto simp: redis_get_def rejected_def on_error_def parse_cached_def conn_step_def
               split: option.splits redis_outcome.splits)
  done

lemma write_step_none:
  assumes "conn_step is_cache_connect (s\<lparr>trace := trace s @ [call]\<rparr>) s1"
  shows "write_step out call k ttl v s s1"
proof -
  from assms obtain evs where 1: "trace s1 = trace s @ call # evs" "list_all is_cache_connect evs"
    unfolding conn_step_def by auto
  have 2: "list_all is_store_event evs"
    using 1(2) cache_connect_store by (simp add: list_all_iff)
  have 3: "Redis_setEx k ttl v \<notin> set evs" using 1(2) by (rule cache_connect_not_setEx)
  have "\<exists>evs. trace s1 = trace s @ call # evs \<and> list_all is_store_event evs
             \<and> kv s1 = (if Redis_setEx k ttl v \<in> set evs \<and> out = Replies
                         then (kv s)(k \<mapsto> (ttl, v)) else kv s)"
    using 1 2 3 assms unfolding conn_step_def by (intro exI[of _ evs]) simp
  then show ?thesis using assms unfolding conn_step_def write_step_def by simp
qed

lemma write_step_sent:
  assumes "conn_step is_cache_connect (s\<lparr>trace := trace s @ [call]\<rparr>) s1"
    and "trackingRedis s2 = trackingRedis s1"
    and "trackingRedisConnecting s2 = trackingRedisConnecting s1"
    and "trackingRedisLastError s2 = trackingRedisLastError s1"
    and "userRateLimits s2 = userRateLimits s1" and "sets s2 = sets s1"
    and "trace s2 = trace s1 @ [Redis_setEx k ttl v]"
    and "kv s2 = (if out = Replies then (kv s1)(k \<mapsto> (ttl, v)) else kv s1)"
  shows "write_step out call k ttl v s s2"
proof -
  from assms(1) obtain evs where 1: "trace s1 = trace s @ call # evs" "list_all is_cache_connect evs"
    unfolding conn_step_def by auto
  have 2: "list_all is_store_event (evs @ [Redis_setEx k ttl v])"
    using 1(2) cache_connect_store by (simp add: list_all_iff)
  have "\<exists>evs. trace s2 = trace s @ call # evs \<and> list_all is_store_event evs
             \<and> kv s2 = (if Redis_setEx k ttl v \<in> set evs \<and> out = Replies
                         then (kv s)(k \<mapsto> (ttl, v)) else kv s)"
    using 1 2 assms unfolding conn_step_def by (intro exI[of _ "evs @ [Redis_setEx k ttl v]"]) simp
  then show ?thesis using assms unfolding conn_step_def write_step_def by simp
qed

lemma cacheProfile_spec:
  "io_spec (cacheProfile y e k p) s
     (\<lambda>u s'. write_step (r_reply e) (Called_cacheProfile k p) k CACHE_TTL (JSON_stringify y p) s s')
     (\<lambda>err s'. False)"
  unfolding cacheProfile_def
  apply simp
  apply (rule spec_mono[OF getRedis_spec])
   apply (simp split: option.splits)
   apply (intro conjI impI allI)
    apply (erule write_step_none)
   apply (simp add: redis_setEx_def rejected_def split: redis_outcome.splits)
   apply (intro conjI impI allI)
    apply (erule write_step_sent; simp)
   apply (erule write_step_sent; simp add: on_error_def split: option.splits)
  apply simp
  done


lemma spec_with_eq:
  assumes "io_spec m s Q E"
  shows "io_spec m s (\<lambda>v s'. m s = (Inr v, s') \<and> Q v s') (\<lambda>err s'. m s = (Inl err, s') \<and> E err s')"
  using assms by (auto simp: io_spec_def split: prod.splits sum.splits)

lemma fetch_step_refl: "fetch_step s s"
  unfolding fetch_step_def by (rule exI[of _ "[]"]) simp

lemma fetch_step_one: "fetch_step s (s\<lparr>trace := trace s @ [Fetch p]\<rparr>)"
  unfolding fetch_step_def by (rule exI[of _ "[Fetch p]"]) simp

lemma fetch_step_trans:
  assumes "fetch_step s s1" and "fetch_step s1 s2"
  shows "fetch_step s s2"
proof -
  from assms(1) obtain evs where 1: "s1 = s\<lparr>trace := trace s @ evs\<rparr>" "list_all is_fetch evs"
    unfolding fetch_step_def by blast
  from assms(2) obtain evs' where 2: "s2 = s1\<lparr>trace := trace s1 @ evs'\<rparr>" "list_all is_fetch evs'"
    unfolding fetch_step_def by blast
  have "s2 = s\<lparr>trace := trace s @ (evs @ evs')\<rparr> \<and> list_all is_fetch (evs @ evs')"
    using 1 2 by simp
  then show ?thesis unfolding fetch_step_def by blast
qed

lemma truthy_set_prop: "truthy p \<Longrightarrow> truthy (set_prop p k v)"
  by (cases p) simp_all

lemma answer_profile_rejects [simp]: "answer_profile y tag (Fetch_rejects err) = JNull"
  by (simp add: answer_profile_def)

lemma tryMiMo_spec:
  "io_spec (tryMiMo y (mimo e)) s
     (\<lambda>m s'. fetch_step s s' \<and> mimo_profile m = mimo_choice y e) (\<lambda>err s'. False)"
proof (cases "is_set (OPENROUTER_API_KEY y)")
  case False
  then show ?thesis by (simp add: tryMiMo_def fetch_step_refl mimo_choice_def)
next
  case True
  show ?thesis
  proof (cases "mimo e")
    case (Fetch_rejects err)
    then show ?thesis using True
      by (simp add: tryMiMo_def fetch_def fetch_step_one mimo_choice_def)
  next
    case (Response st t j)
    show ?thesis
    proof (cases "response_ok (mimo e)")
      case False
      then show ?thesis using True Response
        by (cases t)
           (simp_all add: tryMiMo_def fetch_def fetch_step_one mimo_choice_def answer_profile_def)
    next
      case ok: True
      show ?thesis
      proof (cases j)
        case (Inl err)
        then show ?thesis using True Response ok
          by (simp add: tryMiMo_def fetch_def fetch_step_one mimo_choice_def answer_profile_def)
      next
        case (Inr data)
        then show ?thesis using True Response ok
          by (cases "message_content data")
             (simp_all add: tryMiMo_def fetch_def fetch_step_one Let_def mimo_choice_def
                answer_profile_def)
      qed
    qed
  qed
qed

lemma spec_cases:
  assumes "io_spec m s Q E"
  obtains (returns) v s' where "m s = (Inr v, s')" and "Q v s'"
        | (throws) err s' where "m s = (Inl err, s')" and "E err s'"
  using assms by (auto simp: io_spec_def split: prod.splits sum.splits)

lemma mimo_or_fallback_spec:
  assumes "fetch_step s0 s"
  shows "io_spec (mimo_or_fallback y e k c g msg) s
           (choice_post y e k c g (mimo_choice y e) s0) (\<lambda>err s'. False)"
proof -
  obtain m s1 where T: "tryMiMo y (mimo e) s = (Inr m, s1)"
    and F: "fetch_step s s1" and M: "mimo_profile m = mimo_choice y e"
    using spec_result[OF tryMiMo_spec] by blast
  have T': "io_spec (tryMiMo y (mimo e)) s Q E = Q m s1" for Q E
    by (simp add: io_spec_def T)
  have F0: "fetch_step s0 s1" using assms F by (rule fetch_step_trans)
  show ?thesis
  proof (cases "truthy (mimo_choice y e)")
    case True
    obtain u s2 where W: "cacheProfile y (store e) k (mimo_choice y e) s1 = (Inr u, s2)"
      and WS: "write_step (r_reply (store e)) (Called_cacheProfile k (mimo_choice y e)) k CACHE_TTL
                 (JSON_stringify y (mimo_choice y e)) s1 s2"
      using spec_result[OF cacheProfile_spec] by blast
    have W': "io_spec (cacheProfile y (store e) k (mimo_choice y e)) s1 Q E = Q u s2" for Q E
      by (simp add: io_spec_def W)
    have "choice_post y e k c g (mimo_choice y e) s0
            \<lparr>profile = mimo_choice y e, source = Ai, error = None\<rparr> s2"
      using True F0 WS W by (auto simp: choice_post_def)
    then show ?thesis
      using True by (simp add: mimo_or_fallback_def T' M W')
  next
    case False
    have "choice_post y e k c g (mimo_choice y e) s0
            \<lparr>profile = generateFallbackProfile c g, source = Fallback, error = msg m\<rparr> s1"
      using False F0 by (simp add: choice_post_def)
    then show ?thesis
      using False by (simp add: mimo_or_fallback_def T' M)
  qed
qed

lemma direct_ai_post:
  assumes "truthy p" and "fetch_step s s1"
  shows "io_spec (cacheProfile y (store e) k p) s1
           (\<lambda>u s'. choice_post y e k c g p s \<lparr>profile = p, source = Ai, error = None\<rparr> s')
           (\<lambda>err s'. False)"
proof -
  obtain u s2 where W: "cacheProfile y (store e) k p s1 = (Inr u, s2)"
    and WS: "write_step (r_reply (store e)) (Called_cacheProfile k p) k CACHE_TTL
               (JSON_stringify y p) s1 s2"
    using spec_result[OF cacheProfile_spec] by blast
  have "choice_post y e k c g p s \<lparr>profile = p, source = Ai, error = None\<rparr> s2"
    using assms W WS by (auto simp: choice_post_def)
  then show ?thesis by (simp add: io_spec_def W)
qed

lemma grok_try_spec:
  "io_spec (grok_try y e k c g) s
     (choice_post y e k c g
        (if truthy (answer_profile y ''grok'' (grok e)) then answer_profile y ''grok'' (grok e)
         else mimo_choice y e) s)
     (\<lambda>err s'. fetch_step s s' \<and> \<not> truthy (answer_profile y ''grok'' (grok e)))"
proof (cases "grok e")
  case (Fetch_rejects err)
  then show ?thesis
    by (simp add: grok_try_def fetch_def fetch_step_one)
next
  case (Response st t j)
  note mf = mimo_or_fallback_spec[OF fetch_step_one, of y e k c g _ s Grok]
  show ?thesis
  proof (cases "response_ok (grok e)")
    case False
    then show ?thesis
      using Response
      apply (simp add: grok_try_def fetch_def answer_profile_def split: sum.splits)
      apply (intro conjI impI allI)
       apply (simp add: fetch_step_one)
      apply (rule spec_mono[OF mf]; simp)
      done
  next
    case True
    show ?thesis
    proof (cases j)
      case (Inl err)
      then show ?thesis using Response True
        by (simp add: grok_try_def fetch_def fetch_step_one answer_profile_def)
    next
      case (Inr data)
      show ?thesis
      proof (cases "message_content data")
        case (Inl err)
        then show ?thesis using Response True \<open>j = Inr data\<close>
          by (simp add: grok_try_def fetch_def fetch_step_one answer_profile_def)
      next
        case (Inr content)
        note facts = Response True \<open>j = Inr data\<close> Inr
        show ?thesis
        proof (cases "truthy_opt content")
          case False
          then show ?thesis using facts
            apply (simp add: grok_try_def fetch_def Let_def answer_profile_def)
            apply (rule spec_mono[OF mf]; simp)
            done
        next
          case some: True
          show ?thesis
          proof (cases "truthy (parseAIResponse y (or_else content JNull))")
            case False
            then show ?thesis using facts some
              apply (simp add: grok_try_def fetch_def Let_def answer_profile_def)
              apply (rule spec_mono[OF mf]; simp)
              done
          next
            case True
            then show ?thesis using facts some
              apply (simp add: grok_try_def fetch_def Let_def answer_profile_def truthy_set_prop)
              apply (rule spec_mono[OF direct_ai_post[where s=s]])
                 apply (simp add: truthy_set_prop)
                apply (rule fetch_step_one)
               apply simp
              apply simp
              done
          qed
        qed
      qed
    qed
  qed
qed

lemma truthy_not_null: "truthy v \<Longrightarrow> v \<noteq> JNull"
  by (cases v) simp_all

lemma fallback_not_null: "generateFallbackProfile c g \<noteq> JNull"
  by (simp add: generateFallbackProfile_def Let_def)

lemma prov_post_not_null: "prov_post y e k c g s r s' \<Longrightarrow> profile r \<noteq> JNull"
  by (auto simp: prov_post_def choice_post_def fallback_not_null split: if_splits
           dest: truthy_not_null)

lemma providers_spec:
  "io_spec
     (if \<not> is_set (GROK_API_KEY y) then mimo_or_fallback y e k c g msg
      else io_catch (grok_try y e k c g) (\<lambda>err. mimo_or_fallback y e k c g (msg' err)))
     s (prov_post y e k c g s) (\<lambda>err s'. False)"
proof (cases "is_set (GROK_API_KEY y)")
  case False
  have "io_spec (mimo_or_fallback y e k c g msg) s (prov_post y e k c g s) (\<lambda>err s'. False)"
    apply (rule spec_mono[OF mimo_or_fallback_spec[OF fetch_step_refl]])
     apply (simp add: prov_post_def chosen_profile_def grok_choice_def False)
    apply simp
    done
  then show ?thesis using False by simp
next
  case True
  have ch: "chosen_profile y e =
              (if truthy (answer_profile y ''grok'' (grok e)) then answer_profile y ''grok'' (grok e)
               else mimo_choice y e)"
    using True by (simp add: chosen_profile_def grok_choice_def)
  have "io_spec (io_catch (grok_try y e k c g) (\<lambda>err. mimo_or_fallback y e k c g (msg' err)))
          s (prov_post y e k c g s) (\<lambda>err s'. False)"
    using grok_try_spec[of y e k c g s]
  proof (cases rule: spec_cases)
    case (returns r s')
    then show ?thesis
      by (simp add: io_spec_def io_catch_def prov_post_def ch)
  next
    case (throws err s')
    have "io_spec (mimo_or_fallback y e k c g (msg' err)) s' (prov_post y e k c g s) (\<lambda>err s'. False)"
      apply (rule spec_mono[OF mimo_or_fallback_spec[of s s']])
        apply (simp add: throws)
       apply (simp add: prov_post_def ch throws)
      apply simp
      done
    then show ?thesis
      using throws(1) by (simp add: io_spec_def io_catch_def)
  qed
  then show ?thesis using True by simp
qed

lemma generateAIProfile_unfold:
  "generateAIProfile y e c g =
     io_bind (getCachedProfile y (lookup e) (profile_key c)) (\<lambda>cached.
       if truthy cached then io_ret \<lparr>profile = cached, source = Cache, error = None\<rparr>
       else if \<not> is_set (GROK_API_KEY y) \<and> \<not> is_set (OPENROUTER_API_KEY y) then
         io_ret \<lparr>profile = generateFallbackProfile c g, source = Fallback,
                 error = Some ''No AI configured''\<rparr>
       else
         io_bind (io_lift (checkRateLimit (rate_now e) (profile_user c))) (\<lambda>allowed.
           if \<not> allowed then
             io_ret \<lparr>profile = generateFallbackProfile c g, source = Fallback,
                     error = Some ''Rate limited''\<rparr>
           else if \<not> is_set (GROK_API_KEY y) then
             mimo_or_fallback y e (profile_key c) c g mimo_error
           else
             io_catch (grok_try y e (profile_key c) c g)
               (\<lambda>err. mimo_or_fallback y e (profile_key c) c g
                  (\<lambda>m. Some (''Grok: '' @ err @ '', MiMo: '' @ show_opt (mimo_error m))))))"
  unfolding generateAIProfile_def Let_def profile_key_def profile_user_def
  by (rule refl)

lemma generateAIProfile_spec:
  "io_spec (generateAIProfile y e c g) s (run_post y e c g s) (\<lambda>err s'. False)"
proof -
  obtain cached s1 where
    L: "getCachedProfile y (lookup e) (profile_key c) s = (Inr cached, s1)"
    and C: "conn_step is_lookup_event s s1"
    using spec_result[OF getCachedProfile_spec] by blast
  have L': "io_spec (getCachedProfile y (lookup e) (profile_key c)) s Q E = Q cached s1" for Q E
    by (simp add: io_spec_def L)
  show ?thesis
  proof (cases "truthy cached")
    case True
    then show ?thesis
      by (simp add: generateAIProfile_unfold L' run_post_def L C)
  next
    case miss: False
    note cf = configured_def
    show ?thesis
    proof (cases "configured y")
      case False
      then show ?thesis using miss
        by (simp add: generateAIProfile_unfold L' run_post_def L C configured_def)
    next
      case cfg: True
      obtain allowed s2 where R: "checkRateLimit (rate_now e) (profile_user c) s1 = (allowed, s2)"
        by (cases "checkRateLimit (rate_now e) (profile_user c) s1")
      show ?thesis
      proof (cases allowed)
        case False
        then show ?thesis using miss cfg R
          by (auto simp add: generateAIProfile_unfold L' run_post_def L C configured_def)
      next
        case True
        have "io_spec
               (if \<not> is_set (GROK_API_KEY y) then mimo_or_fallback y e (profile_key c) c g mimo_error
                else io_catch (grok_try y e (profile_key c) c g)
                  (\<lambda>err. mimo_or_fallback y e (profile_key c) c g
                     (\<lambda>m. Some (''Grok: '' @ err @ '', MiMo: '' @ show_opt (mimo_error m)))))
               s2 (run_post y e c g s) (\<lambda>err s'. False)"
          apply (rule spec_mono[OF providers_spec])
           apply (simp add: run_post_def L C miss cfg R True)
          apply simp
          done
        then show ?thesis using miss cfg R True
          by (auto simp add: generateAIProfile_unfold L' configured_def)
      qed
    qed
  qed
qed

section \<open>The profile pipeline always returns a profile\<close>

text \<open>
  C1. Whatever the request, the configuration, the state of the process and of the store,
  and whatever each access to the store and each call to Grok and to MiMo does (reply,
  reject, answer with anything), \<^verbatim>\<open>generateAIProfile\<close> returns: no exception leaves it. What
  it returns holds a profile that is not \<^verbatim>\<open>null\<close> and one of the three provenance tags.
\<close>

theorem always_a_result:
  "\<exists>r s'. generateAIProfile y e c g s = (Inr r, s') \<and> profile r \<noteq> JNull
           \<and> (source r = Cache \<or> source r = Ai \<or> source r = Fallback)"
proof -
  obtain r s' where 1: "generateAIProfile y e c g s = (Inr r, s')" and 2: "run_post y e c g s r s'"
    using spec_result[OF generateAIProfile_spec] by blast
  have "profile r \<noteq> JNull"
    using 2 unfolding run_post_def
    by (auto simp: fallback_not_null split: if_splits dest: truthy_not_null prov_post_not_null)
  moreover have "source r = Cache \<or> source r = Ai \<or> source r = Fallback"
    by (cases "source r") simp_all
  ultimately show ?thesis using 1 by blast
qed

section \<open>What a run leaves behind\<close>

lemma example_parse: "parseAIResponse (example_sys a b) (JStr example_answer) =
   JObj [(''likelyDeveloper'', JBool True), (''developerScore'', JNum 50),
           (''likelyGamer'', JBool False), (''gamerScore'', JNum 0),
           (''likelyDesigner'', JBool False), (''designerScore'', JNum 0),
           (''likelyPowerUser'', JBool False), (''powerUserScore'', JNum 0),
           (''privacyConscious'', JBool False), (''privacyScore'', JNum 0),
           (''deviceTier'', JStr ''mid-range''), (''estimatedDeviceValue'', JStr ''Unknown''),
           (''deviceAge'', JStr ''recent''), (''humanScore'', JNum 100),
           (''botIndicators'', JArr []), (''likelyTechSavvy'', JBool False),
           (''likelyMobile'', JBool False), (''likelyWorkDevice'', JBool False),
           (''likelyCountry'', JStr ''Unknown''), (''inferredInterests'', JArr []),
           (''fraudRiskScore'', JNum 0), (''fraudIndicators'', JArr [])]"
  by (simp add: parseAIResponse_def parseAIResponse_try_def example_sys_def example_answer_def
      strip_fence_def trim_def js_spaces_def space_at_def startsWith_def endsWith_def
      closes_next_def
      example_parsed_def normalized_profile_def extended_fields_def spread_field_def
      clamp_score_def to_number_def)

lemma example_answer_nonempty: "example_answer \<noteq> []"
  by (simp add: example_answer_def)

lemma example_answer_profile: "answer_profile (example_sys a b) ''grok'' healthy = example_profile"
  by (simp add: answer_profile_def healthy_def response_ok_def message_content_def example_parse
       example_profile_def example_answer_nonempty)

lemmas io_defs = io_bind_def io_ret_def io_catch_def io_throw_def io_modify_def io_state_def
  io_lift_def emit_def settle_def

lemmas redis_defs = getRedis_def redis_connect_def redis_get_def redis_setEx_def rejected_def
  in_backoff_def client_open_def REDIS_BACKOFF_MS_def parse_cached_def






lemma checkRateLimit_frame:
  "trace (snd (checkRateLimit now u s)) = trace s @ [Called_checkRateLimit u]
   \<and> kv (snd (checkRateLimit now u s)) = kv s
   \<and> sets (snd (checkRateLimit now u s)) = sets s"
  by (simp add: checkRateLimit_def Let_def split: option.splits)

text \<open>What a run that reaches the rate gate and passes it leaves behind.\<close>

lemma events_since_append: "trace s' = trace s @ evs \<Longrightarrow> events_since s s' = evs"
  by (simp add: events_since_def)



lemma in_backoff_zero [simp]: "\<not> in_backoff 0 t"
  by (simp add: in_backoff_def)

lemma getRedis_ok:
  assumes "store_ok e s"
  shows "\<exists>h s1. getRedis y e s = (Inr (Some h), s1) \<and> conn_step is_cache_connect s s1
           \<and> client_open (redis s1)
           \<and> (redisLastError s1 = redisLastError s \<or> redisLastError s1 = 0)"
  using assms
  by (auto simp: store_ok_def getRedis_def io_defs redis_connect_def conn_step_def client_open_def
           split: option.splits)

lemma lookup_ok:
  assumes "store_ok e s"
  shows "\<exists>s1. getCachedProfile y e k s = (Inr (cached_value y (kv s k)), s1)
           \<and> conn_step is_lookup_event s s1
           \<and> client_open (redis s1)
           \<and> (redisLastError s1 = redisLastError s \<or> redisLastError s1 = 0)"
proof -
  obtain h s1 where G: "getRedis y e s = (Inr (Some h), s1)"
    and C: "conn_step is_cache_connect s s1" and O: "client_open (redis s1)"
    and L: "redisLastError s1 = redisLastError s \<or> redisLastError s1 = 0"
    using getRedis_ok[OF assms] by blast
  have R: "r_reply e = Replies" using assms by (simp add: store_ok_def)
  have K: "kv s1 = kv s" using C by (simp add: conn_step_def)
  let ?s2 = "s1\<lparr>trace := trace s1 @ [Redis_get k]\<rparr>"
  have eq: "getCachedProfile y e k s = (Inr (cached_value y (kv s k)), ?s2)"
    by (cases "kv s k")
       (auto simp: getCachedProfile_def io_defs G redis_get_def R K parse_cached_def
          cached_value_def split: option.splits)
  have "conn_step is_lookup_event s1 ?s2"
    by (simp add: conn_step_def)
  moreover have "conn_step is_lookup_event s s1"
    using C by (rule conn_step_weaken) (rule cache_connect_lookup)
  ultimately have "conn_step is_lookup_event s ?s2"
    using conn_step_trans by blast
  then show ?thesis using eq O L by auto
qed

lemma cacheProfile_ok:
  assumes "client_open (redis s)" and "\<not> in_backoff (redisLastError s) (r_now e)"
    and "r_reply e = Replies"
  shows "cacheProfile y e k p s =
           (Inr (), s\<lparr>trace := trace s @ [Called_cacheProfile k p,
                                             Redis_setEx k CACHE_TTL (JSON_stringify y p)],
                      kv := (kv s)(k \<mapsto> (CACHE_TTL, JSON_stringify y p))\<rparr>)"
  using assms
  by (auto simp: cacheProfile_def io_defs getRedis_def redis_setEx_def client_open_def
           split: option.splits)

lemma checkRateLimit_cong:
  assumes "userRateLimits s = userRateLimits t"
  shows "fst (checkRateLimit now u s) = fst (checkRateLimit now u t)
         \<and> userRateLimits (snd (checkRateLimit now u s)) = userRateLimits (snd (checkRateLimit now u t))"
  using assms by (simp add: checkRateLimit_def Let_def split: option.splits)

lemma checkRateLimit_conn:
  "redis (snd (checkRateLimit now u s)) = redis s
   \<and> redisLastError (snd (checkRateLimit now u s)) = redisLastError s
   \<and> redisConnecting (snd (checkRateLimit now u s)) = redisConnecting s"
  by (simp add: checkRateLimit_def Let_def split: option.splits)


lemma lookup_not_fetch: "is_lookup_event ev \<Longrightarrow> \<not> is_fetch ev"
  by (cases ev) simp_all

text \<open>What a run does to the rate limiter's table.\<close>

lemma run_post_limits:
  assumes "run_post y e c g s r s'"
  shows "userRateLimits s' =
           (if lookup_misses y (lookup e) (profile_key c) s \<and> configured y
            then userRateLimits (snd (checkRateLimit (rate_now e) (profile_user c) s))
            else userRateLimits s)"
proof -
  from assms obtain cached s1 where
    L: "getCachedProfile y (lookup e) (profile_key c) s = (Inr cached, s1)"
    and C: "conn_step is_lookup_event s s1"
    and R: "if truthy cached then r = \<lparr>profile = cached, source = Cache, error = None\<rparr> \<and> s' = s1
            else if \<not> configured y then
              r = \<lparr>profile = generateFallbackProfile c g, source = Fallback,
                     error = Some ''No AI configured''\<rparr> \<and> s' = s1
            else if \<not> fst (checkRateLimit (rate_now e) (profile_user c) s1) then
              r = \<lparr>profile = generateFallbackProfile c g, source = Fallback,
                     error = Some ''Rate limited''\<rparr>
              \<and> s' = snd (checkRateLimit (rate_now e) (profile_user c) s1)
            else prov_post y e (profile_key c) c g
                   (snd (checkRateLimit (rate_now e) (profile_user c) s1)) r s'"
    unfolding run_post_def by blast
  have U: "userRateLimits s1 = userRateLimits s" using C by (simp add: conn_step_def)
  note cg = checkRateLimit_cong[OF U, of "rate_now e" "profile_user c"]
  have M: "lookup_misses y (lookup e) (profile_key c) s = (\<not> truthy cached)"
    by (simp add: lookup_misses_def L)
  let ?s2 = "snd (checkRateLimit (rate_now e) (profile_user c) s1)"
  show ?thesis
  proof (cases "truthy cached \<or> \<not> configured y")
    case True
    then show ?thesis using R U M by auto
  next
    case False
    show ?thesis
    proof (cases "fst (checkRateLimit (rate_now e) (profile_user c) s1)")
      case denied: False
      then show ?thesis using R False M cg by auto
    next
      case True
      then have P: "choice_post y e (profile_key c) c g (chosen_profile y e) ?s2 r s'"
        using R False by (auto simp: prov_post_def)
      have "userRateLimits s' = userRateLimits ?s2"
        using P
        by (auto simp: choice_post_def fetch_step_def write_step_def split: if_splits)
      then show ?thesis using False M cg by auto
    qed
  qed
qed

text \<open>The profile and the tag of a run, from what the look-up, the gate and the providers gave.\<close>

lemma run_post_outcome:
  assumes "run_post y e c g s r s'"
  shows "\<exists>cached s1. getCachedProfile y (lookup e) (profile_key c) s = (Inr cached, s1)
           \<and> (profile r, source r) =
               outcome y e c g cached (fst (checkRateLimit (rate_now e) (profile_user c) s))
           \<and> (\<not> truthy cached \<and> configured y
                \<and> \<not> fst (checkRateLimit (rate_now e) (profile_user c) s) \<longrightarrow>
                error r = Some ''Rate limited''
                \<and> list_all (\<lambda>ev. \<not> is_fetch ev) (events_since s s'))"
proof -
  from assms obtain cached s1 where
    L: "getCachedProfile y (lookup e) (profile_key c) s = (Inr cached, s1)"
    and C: "conn_step is_lookup_event s s1"
    and R: "if truthy cached then r = \<lparr>profile = cached, source = Cache, error = None\<rparr> \<and> s' = s1
            else if \<not> configured y then
              r = \<lparr>profile = generateFallbackProfile c g, source = Fallback,
                     error = Some ''No AI configured''\<rparr> \<and> s' = s1
            else if \<not> fst (checkRateLimit (rate_now e) (profile_user c) s1) then
              r = \<lparr>profile = generateFallbackProfile c g, source = Fallback,
                     error = Some ''Rate limited''\<rparr>
              \<and> s' = snd (checkRateLimit (rate_now e) (profile_user c) s1)
            else prov_post y e (profile_key c) c g
                   (snd (checkRateLimit (rate_now e) (profile_user c) s1)) r s'"
    unfolding run_post_def by blast
  have U: "userRateLimits s1 = userRateLimits s" using C by (simp add: conn_step_def)
  note cg = checkRateLimit_cong[OF U, of "rate_now e" "profile_user c"]
  from C obtain evs1 where E1: "trace s1 = trace s @ evs1" "list_all is_lookup_event evs1"
    unfolding conn_step_def by blast
  have N1: "list_all (\<lambda>ev. \<not> is_fetch ev) evs1"
    using E1(2) lookup_not_fetch by (auto simp: list_all_iff)
  note F2 = checkRateLimit_frame[of "rate_now e" "profile_user c" s1]
  have out: "(profile r, source r) =
               outcome y e c g cached (fst (checkRateLimit (rate_now e) (profile_user c) s))"
    using R cg
    by (auto simp: outcome_def prov_post_def choice_post_def split: if_splits)
  have rl: "error r = Some ''Rate limited'' \<and> list_all (\<lambda>ev. \<not> is_fetch ev) (events_since s s')"
    if "\<not> truthy cached" "configured y" "\<not> fst (checkRateLimit (rate_now e) (profile_user c) s)"
  proof -
    have d: "\<not> fst (checkRateLimit (rate_now e) (profile_user c) s1)" using that(3) cg by simp
    have "trace s' = trace s @ (evs1 @ [Called_checkRateLimit (profile_user c)])"
      using R that d F2 E1 by simp
    then have "events_since s s' = evs1 @ [Called_checkRateLimit (profile_user c)]"
      by (rule events_since_append)
    then show ?thesis using R that d N1 by simp
  qed
  show ?thesis using L out rl by blast
qed

lemma run_post_healthy:
  assumes "run_post y e c g s r s'" and "store_ok (lookup e) s"
    and "r_reply (store e) = Replies" and "\<not> in_backoff (redisLastError s) (r_now (store e))"
  shows "(profile r, source r) =
           outcome y e c g (cached_value y (kv s (profile_key c)))
             (fst (checkRateLimit (rate_now e) (profile_user c) s))
         \<and> kv s' = (if source r = Ai
                     then (kv s)(profile_key c \<mapsto> (CACHE_TTL, JSON_stringify y (profile r)))
                     else kv s)
         \<and> client_open (redis s')
         \<and> (redisLastError s' = redisLastError s \<or> redisLastError s' = 0)"
proof -
  from assms(1) obtain cached s1 where
    L: "getCachedProfile y (lookup e) (profile_key c) s = (Inr cached, s1)"
    and C: "conn_step is_lookup_event s s1"
    and R: "if truthy cached then r = \<lparr>profile = cached, source = Cache, error = None\<rparr> \<and> s' = s1
            else if \<not> configured y then
              r = \<lparr>profile = generateFallbackProfile c g, source = Fallback,
                     error = Some ''No AI configured''\<rparr> \<and> s' = s1
            else if \<not> fst (checkRateLimit (rate_now e) (profile_user c) s1) then
              r = \<lparr>profile = generateFallbackProfile c g, source = Fallback,
                     error = Some ''Rate limited''\<rparr>
              \<and> s' = snd (checkRateLimit (rate_now e) (profile_user c) s1)
            else prov_post y e (profile_key c) c g
                   (snd (checkRateLimit (rate_now e) (profile_user c) s1)) r s'"
    unfolding run_post_def by blast
  from lookup_ok[OF assms(2), of y "profile_key c"] L
  have cv: "cached = cached_value y (kv s (profile_key c))"
    and O1: "client_open (redis s1)"
    and L1: "redisLastError s1 = redisLastError s \<or> redisLastError s1 = 0"
    by auto
  have K1: "kv s1 = kv s" using C by (simp add: conn_step_def)
  have B1: "\<not> in_backoff (redisLastError s1) (r_now (store e))"
    using L1 assms(4) by auto
  from run_post_outcome[OF assms(1)] L cv
  have out: "(profile r, source r) =
           outcome y e c g (cached_value y (kv s (profile_key c)))
             (fst (checkRateLimit (rate_now e) (profile_user c) s))"
    by auto
  let ?s2 = "snd (checkRateLimit (rate_now e) (profile_user c) s1)"
  note F2 = checkRateLimit_frame[of "rate_now e" "profile_user c" s1]
  note G2 = checkRateLimit_conn[of "rate_now e" "profile_user c" s1]
  have rest: "kv s' = (if source r = Ai
                     then (kv s)(profile_key c \<mapsto> (CACHE_TTL, JSON_stringify y (profile r)))
                     else kv s)
         \<and> client_open (redis s')
         \<and> (redisLastError s' = redisLastError s \<or> redisLastError s' = 0)"
  proof (cases "truthy cached \<or> \<not> configured y")
    case True
    then show ?thesis using R K1 O1 L1 by (auto split: if_splits)
  next
    case False
    show ?thesis
    proof (cases "fst (checkRateLimit (rate_now e) (profile_user c) s1)")
      case denied: False
      then show ?thesis using R False K1 O1 L1 F2 G2 by (auto split: if_splits)
    next
      case True
      then have P: "choice_post y e (profile_key c) c g (chosen_profile y e) ?s2 r s'"
        using R False by (auto simp: prov_post_def)
      show ?thesis
      proof (cases "truthy (chosen_profile y e)")
        case nt: False
        then have "fetch_step ?s2 s'" and "source r = Fallback"
          using P by (simp_all add: choice_post_def)
        then show ?thesis using K1 O1 L1 F2 G2 by (auto simp: fetch_step_def)
      next
        case t: True
        then obtain s3 where FS: "fetch_step ?s2 s3"
          and W: "cacheProfile y (store e) (profile_key c) (chosen_profile y e) s3 = (Inr (), s')"
          and pr: "profile r = chosen_profile y e" and so: "source r = Ai"
          using P by (auto simp: choice_post_def)
        have 3: "client_open (redis s3)" "\<not> in_backoff (redisLastError s3) (r_now (store e))"
          "kv s3 = kv s" "redisLastError s3 = redisLastError s1"
          using FS O1 B1 K1 F2 G2 by (auto simp: fetch_step_def)
        from cacheProfile_ok[OF 3(1) 3(2) assms(3), of y "profile_key c" "chosen_profile y e"] W
        have "s' = s3\<lparr>trace := trace s3 @ [Called_cacheProfile (profile_key c) (chosen_profile y e),
                        Redis_setEx (profile_key c) CACHE_TTL (JSON_stringify y (chosen_profile y e))],
                      kv := (kv s3)(profile_key c \<mapsto> (CACHE_TTL, JSON_stringify y (chosen_profile y e)))\<rparr>"
          by simp
        then show ?thesis using 3 pr so L1 by auto
      qed
    qed
  qed
  show ?thesis using out rest by blast
qed

text \<open>The store out of reach: the look-up misses, nothing is written, the connection stays closed.\<close>

lemma getRedis_down:
  assumes "\<not> client_open (redis s)" and "\<not> r_connect_ok e"
  shows "\<exists>s1. getRedis y e s = (Inr None, s1) \<and> \<not> client_open (redis s1) \<and> kv s1 = kv s"
  using assms
  by (auto simp: getRedis_def io_defs redis_connect_def client_open_def)

lemma lookup_down:
  assumes "\<not> client_open (redis s)" and "\<not> r_connect_ok e"
  shows "\<exists>s1. getCachedProfile y e k s = (Inr JNull, s1) \<and> \<not> client_open (redis s1)"
proof -
  obtain s1 where G: "getRedis y e s = (Inr None, s1)" and O: "\<not> client_open (redis s1)"
    using getRedis_down[OF assms] by blast
  have "getCachedProfile y e k s = (Inr JNull, s1)"
    by (simp add: getCachedProfile_def io_defs G)
  then show ?thesis using O by blast
qed

lemma lookup_down_misses:
  assumes "\<not> client_open (redis s)" and "\<not> r_connect_ok e"
  shows "lookup_misses y e k s"
  using lookup_down[OF assms, of y k] by (auto simp: lookup_misses_def)

lemma cacheProfile_down:
  assumes "\<not> client_open (redis s)" and "\<not> r_connect_ok e"
  shows "\<exists>s1. cacheProfile y e k p s = (Inr (), s1) \<and> \<not> client_open (redis s1) \<and> kv s1 = kv s"
proof -
  let ?s0 = "s\<lparr>trace := trace s @ [Called_cacheProfile k p]\<rparr>"
  have "\<not> client_open (redis ?s0)" using assms(1) by simp
  from getRedis_down[OF this assms(2), of y]
  obtain s1 where G: "getRedis y e ?s0 = (Inr None, s1)" and O: "\<not> client_open (redis s1)"
    and K: "kv s1 = kv s"
    by auto
  have "cacheProfile y e k p s = (Inr (), s1)"
    by (simp add: cacheProfile_def io_defs G)
  then show ?thesis using O K by blast
qed

lemma run_post_down:
  assumes "run_post y e c g s r s'" and "\<not> client_open (redis s)"
    and "\<not> r_connect_ok (lookup e)" and "\<not> r_connect_ok (store e)"
  shows "\<not> client_open (redis s') \<and> kv s' = kv s \<and> source r \<noteq> Cache"
proof -
  from assms(1) obtain cached s1 where
    L: "getCachedProfile y (lookup e) (profile_key c) s = (Inr cached, s1)"
    and C: "conn_step is_lookup_event s s1"
    and R: "if truthy cached then r = \<lparr>profile = cached, source = Cache, error = None\<rparr> \<and> s' = s1
            else if \<not> configured y then
              r = \<lparr>profile = generateFallbackProfile c g, source = Fallback,
                     error = Some ''No AI configured''\<rparr> \<and> s' = s1
            else if \<not> fst (checkRateLimit (rate_now e) (profile_user c) s1) then
              r = \<lparr>profile = generateFallbackProfile c g, source = Fallback,
                     error = Some ''Rate limited''\<rparr>
              \<and> s' = snd (checkRateLimit (rate_now e) (profile_user c) s1)
            else prov_post y e (profile_key c) c g
                   (snd (checkRateLimit (rate_now e) (profile_user c) s1)) r s'"
    unfolding run_post_def by blast
  from lookup_down[OF assms(2) assms(3), of y "profile_key c"] L
  have cv: "cached = JNull" and O1: "\<not> client_open (redis s1)" by auto
  have K1: "kv s1 = kv s" using C by (simp add: conn_step_def)
  let ?s2 = "snd (checkRateLimit (rate_now e) (profile_user c) s1)"
  note F2 = checkRateLimit_frame[of "rate_now e" "profile_user c" s1]
  note G2 = checkRateLimit_conn[of "rate_now e" "profile_user c" s1]
  show ?thesis
  proof (cases "configured y")
    case False
    then show ?thesis using R cv O1 K1 by simp
  next
    case cfg: True
    show ?thesis
    proof (cases "fst (checkRateLimit (rate_now e) (profile_user c) s1)")
      case False
      then show ?thesis using R cv cfg O1 K1 F2 G2 by simp
    next
      case True
      then have P: "choice_post y e (profile_key c) c g (chosen_profile y e) ?s2 r s'"
        using R cv cfg by (auto simp: prov_post_def)
      show ?thesis
      proof (cases "truthy (chosen_profile y e)")
        case nt: False
        then have "fetch_step ?s2 s'" and "source r = Fallback"
          using P by (simp_all add: choice_post_def)
        then show ?thesis using K1 O1 F2 G2 by (auto simp: fetch_step_def)
      next
        case t: True
        then obtain s3 where FS: "fetch_step ?s2 s3"
          and W: "cacheProfile y (store e) (profile_key c) (chosen_profile y e) s3 = (Inr (), s')"
          and so: "source r = Ai"
          using P by (auto simp: choice_post_def)
        have 3: "\<not> client_open (redis s3)" "kv s3 = kv s"
          using FS O1 K1 F2 G2 by (auto simp: fetch_step_def)
        from cacheProfile_down[OF 3(1) assms(4), of y "profile_key c" "chosen_profile y e"] W
        show ?thesis using 3 so by auto
      qed
    qed
  qed
qed

lemma run_post_error:
  assumes "run_post y e c g s r s'"
  shows "source r = Fallback \<or> error r = None"
  using assms
  by (auto simp: run_post_def prov_post_def choice_post_def split: if_splits)

lemma checkRateLimit_open:
  assumes "userRateLimits s u = None \<or> (\<exists>w. userRateLimits s u = Some w \<and> now > resetTime w)"
  shows "fst (checkRateLimit now u s)
         \<and> userRateLimits (snd (checkRateLimit now u s)) =
             (userRateLimits s)(u \<mapsto> \<lparr>count = 1, resetTime = now + RATE_LIMIT_WINDOW\<rparr>)"
  using assms by (auto simp: checkRateLimit_def Let_def split: option.splits)

lemma checkRateLimit_within:
  assumes "userRateLimits s u = Some w" and "now \<le> resetTime w" and "count w < RATE_LIMIT_MAX"
  shows "fst (checkRateLimit now u s)
         \<and> userRateLimits (snd (checkRateLimit now u s)) =
             (userRateLimits s)(u \<mapsto> w\<lparr>count := count w + 1\<rparr>)"
  using assms by (auto simp: checkRateLimit_def Let_def split: option.splits)

lemma checkRateLimit_denied:
  assumes "userRateLimits s u = Some w" and "now \<le> resetTime w" and "RATE_LIMIT_MAX \<le> count w"
  shows "\<not> fst (checkRateLimit now u s)
         \<and> userRateLimits (snd (checkRateLimit now u s)) = userRateLimits s"
  using assms by (auto simp: checkRateLimit_def Let_def split: option.splits)

text \<open>A run that misses the cache with a provider configured goes through the rate gate.\<close>

lemma gated_run:
  assumes "generateAIProfile y e c g s = (res, s')"
    and "lookup_misses y (lookup e) (profile_key c) s" and "configured y"
  shows "\<exists>r. res = Inr r
           \<and> userRateLimits s' = userRateLimits (snd (checkRateLimit (rate_now e) (profile_user c) s))
           \<and> (if fst (checkRateLimit (rate_now e) (profile_user c) s) then
                 (profile r, source r) =
                   (if truthy (chosen_profile y e) then (chosen_profile y e, Ai)
                    else (generateFallbackProfile c g, Fallback))
               else
                 r = \<lparr>profile = generateFallbackProfile c g, source = Fallback,
                        error = Some ''Rate limited''\<rparr>
                 \<and> list_all (\<lambda>ev. \<not> is_fetch ev) (events_since s s'))"
proof -
  obtain r s'' where 1: "generateAIProfile y e c g s = (Inr r, s'')" and 2: "run_post y e c g s r s''"
    using spec_result[OF generateAIProfile_spec] by blast
  have eq: "res = Inr r" "s'' = s'" using 1 assms(1) by simp_all
  from run_post_outcome[OF 2] obtain cached s1 where
    L: "getCachedProfile y (lookup e) (profile_key c) s = (Inr cached, s1)"
    and O: "(profile r, source r) =
               outcome y e c g cached (fst (checkRateLimit (rate_now e) (profile_user c) s))"
    and D: "\<not> truthy cached \<and> configured y
                \<and> \<not> fst (checkRateLimit (rate_now e) (profile_user c) s) \<longrightarrow>
                error r = Some ''Rate limited''
                \<and> list_all (\<lambda>ev. \<not> is_fetch ev) (events_since s s'')"
    by blast
  have M: "\<not> truthy cached" using assms(2) L by (simp add: lookup_misses_def)
  have U: "userRateLimits s' = userRateLimits (snd (checkRateLimit (rate_now e) (profile_user c) s))"
    using run_post_limits[OF 2] assms(2,3) eq by simp
  show ?thesis
  proof (cases "fst (checkRateLimit (rate_now e) (profile_user c) s)")
    case True
    then show ?thesis using eq U O M assms(3) by (auto simp: outcome_def)
  next
    case False
    have "profile r = generateFallbackProfile c g" "source r = Fallback"
      using O M False by (simp_all add: outcome_def)
    moreover have "error r = Some ''Rate limited''"
      "list_all (\<lambda>ev. \<not> is_fetch ev) (events_since s s')"
      using D M assms(3) False eq by simp_all
    ultimately have "r = \<lparr>profile = generateFallbackProfile c g, source = Fallback,
                        error = Some ''Rate limited''\<rparr>
                 \<and> list_all (\<lambda>ev. \<not> is_fetch ev) (events_since s s')"
      by (cases r) simp
    then show ?thesis using eq U False by simp
  qed
qed


lemma healthy_run:
  assumes "store_ok (lookup e) s" and "r_reply (store e) = Replies"
    and "\<not> in_backoff (redisLastError s) (r_now (store e))"
  shows "\<exists>r s'. generateAIProfile y e c g s = (Inr r, s')
           \<and> (profile r, source r) =
               outcome y e c g (cached_value y (kv s (profile_key c)))
                 (fst (checkRateLimit (rate_now e) (profile_user c) s))
           \<and> (source r = Fallback \<or> error r = None)
           \<and> kv s' = (if source r = Ai
                       then (kv s)(profile_key c \<mapsto> (CACHE_TTL, JSON_stringify y (profile r)))
                       else kv s)
           \<and> userRateLimits s' =
               (if lookup_misses y (lookup e) (profile_key c) s \<and> configured y
                then userRateLimits (snd (checkRateLimit (rate_now e) (profile_user c) s))
                else userRateLimits s)
           \<and> client_open (redis s')
           \<and> (redisLastError s' = redisLastError s \<or> redisLastError s' = 0)"
proof -
  obtain r s' where 1: "generateAIProfile y e c g s = (Inr r, s')" and 2: "run_post y e c g s r s'"
    using spec_result[OF generateAIProfile_spec] by blast
  note E = run_post_error[OF 2]
  show ?thesis
    using 1 run_post_healthy[OF 2 assms] E run_post_limits[OF 2]
    by (intro exI[of _ r] exI[of _ s']) simp
qed

lemma lookup_ok_misses:
  assumes "store_ok e s"
  shows "lookup_misses y e k s = (\<not> truthy (cached_value y (kv s k)))"
  using lookup_ok[OF assms, of y k] by (auto simp: lookup_misses_def)

subsection \<open>The example\<close>

lemma example_stringify: "JSON_stringify (example_sys a b) example_profile = example_stored"
  by (simp add: example_sys_def)

lemma example_parse_stored: "JSON_parse (example_sys a b) example_stored = Some example_profile"
  by (simp add: example_sys_def example_stored_def example_answer_def)

lemma example_truthy: "truthy example_profile"
  by (simp add: example_profile_def)

lemma example_stored_nonempty: "example_stored \<noteq> []"
  by (simp add: example_stored_def)

lemma example_chosen:
  "chosen_profile (example_sys (Some ''k'') b) (example_env st t) = example_profile"
  by (simp add: chosen_profile_def grok_choice_def example_env_def example_answer_profile
      example_truthy example_sys_def[of "Some ''k''" b, THEN arg_cong[where f=GROK_API_KEY]])

lemma example_configured: "configured (example_sys (Some ''k'') b)"
  by (simp add: configured_def example_sys_def)

lemma store_up_ok:
  assumes "redis s = None \<or> client_open (redis s)" and "redisLastError s = 0"
    and "\<not> redisConnecting s"
  shows "store_ok (store_up t) s"
  using assms by (auto simp: store_ok_def store_up_def)



lemma cached_example:
  "cached_value (example_sys a b) (Some (ttl, example_stored)) = example_profile"
  by (simp add: cached_value_def example_stored_nonempty example_parse_stored)

lemma down_run:
  assumes "\<not> client_open (redis s)" and "\<not> r_connect_ok (lookup e)" and "\<not> r_connect_ok (store e)"
  shows "\<not> client_open (redis (snd (generateAIProfile y e c g s)))
         \<and> kv (snd (generateAIProfile y e c g s)) = kv s"
proof -
  obtain r s' where 1: "generateAIProfile y e c g s = (Inr r, s')" and 2: "run_post y e c g s r s'"
    using spec_result[OF generateAIProfile_spec] by blast
  show ?thesis using 1 run_post_down[OF 2 assms] by simp
qed


section \<open>Reasoning about auction runs\<close>

lemma getAuctionCache_eq: "getAuctionCache y e k = getCachedProfile y e k"
  by (simp add: getAuctionCache_def getCachedProfile_def)

lemma setAuctionCache_spec:
  "io_spec (setAuctionCache y e k p) s
     (\<lambda>u s'. write_step (r_reply e) (Called_setAuctionCache k p) k AUCTION_CACHE_TTL
                (JSON_stringify y p) s s')
     (\<lambda>err s'. False)"
  unfolding setAuctionCache_def
  apply simp
  apply (rule spec_mono[OF getRedis_spec])
   apply (simp split: option.splits)
   apply (intro conjI impI allI)
    apply (erule write_step_none)
   apply (simp add: redis_setEx_def rejected_def split: redis_outcome.splits)
   apply (intro conjI impI allI)
    apply (erule write_step_sent; simp)
   apply (erule write_step_sent; simp add: on_error_def split: option.splits)
  apply simp
  done

lemma auction_answer_spec:
  "io_spec (auction_answer y p tag out) s
     (\<lambda>r s'. s' = fetched [p] s \<and> r = auction_result y tag out)
     (\<lambda>err s'. s' = fetched [p] s \<and> auction_result y tag out = JNull)"
proof (cases out)
  case (Fetch_rejects err)
  then show ?thesis by (simp add: auction_answer_def fetch_def auction_result_def fetched_def)
next
  case (Response st t j)
  show ?thesis
  proof (cases "response_ok out")
    case False
    then show ?thesis using Response
      by (simp add: auction_answer_def fetch_def auction_result_def fetched_def)
  next
    case ok: True
    show ?thesis
    proof (cases j)
      case (Inl err)
      then show ?thesis using Response ok
        by (simp add: auction_answer_def fetch_def auction_result_def fetched_def)
    next
      case (Inr data)
      then show ?thesis using Response ok
        by (cases "message_content data")
           (simp_all add: auction_answer_def fetch_def auction_result_def Let_def fetched_def)
    qed
  qed
qed

lemma fetched_nil [simp]: "fetched [] s = s"
  by (simp add: fetched_def)

lemma fetched_append: "fetched (ps @ qs) s = fetched qs (fetched ps s)"
  by (simp add: fetched_def)

lemma tryMiMo_auction_spec:
  "io_spec (tryMiMo_auction y (mimo e)) s
     (\<lambda>r s'. s' = fetched (if is_set (OPENROUTER_API_KEY y) then [MiMo] else []) s
              \<and> r = mimo_auction y e)
     (\<lambda>err s'. False)"
proof (cases "is_set (OPENROUTER_API_KEY y)")
  case False
  then show ?thesis by (simp add: tryMiMo_auction_def mimo_auction_def)
next
  case True
  show ?thesis
    using auction_answer_spec[of y MiMo "''mimo''" "mimo e" s]
  proof (cases rule: spec_cases)
    case (returns v s')
    then show ?thesis using True
      by (simp add: tryMiMo_auction_def mimo_auction_def io_spec_def io_catch_def)
  next
    case (throws err s')
    then show ?thesis using True
      by (simp add: tryMiMo_auction_def mimo_auction_def io_spec_def io_catch_def io_ret_def)
  qed
qed

lemma mimo_auction_post:
  assumes "s2 = fetched (if is_set (GROK_API_KEY y) then [Grok] else []) s1"
    and "\<not> truthy (grok_auction y e)"
  shows "io_spec
           (io_bind (tryMiMo_auction y (mimo e)) (\<lambda>mimoResult.
              if truthy mimoResult then
                io_bind (setAuctionCache y (store e) k mimoResult) (\<lambda>_. io_ret mimoResult)
              else
                io_ret (JObj [(''bids'', JArr []), (''valueFactors'', JArr []),
                              (''source'', JStr ''fallback'')])))
           s2 (providers_post y e k s1) (\<lambda>err s'. False)"
proof -
  obtain m s3 where T: "tryMiMo_auction y (mimo e) s2 = (Inr m, s3)"
    and F: "s3 = fetched (if is_set (OPENROUTER_API_KEY y) then [MiMo] else []) s2"
    and M: "m = mimo_auction y e"
    using spec_result[OF tryMiMo_auction_spec] by blast
  have T': "io_spec (tryMiMo_auction y (mimo e)) s2 Q E = Q m s3" for Q E
    by (simp add: io_spec_def T)
  have F13: "s3 = fetched (auction_fetches y e) s1"
    using assms F by (simp add: auction_fetches_def fetched_append)
  have ch: "chosen_auction y e = m" using assms(2) M by (simp add: chosen_auction_def)
  show ?thesis
  proof (cases "truthy m")
    case True
    obtain u s4 where W: "setAuctionCache y (store e) k m s3 = (Inr u, s4)"
      and WS: "write_step (r_reply (store e)) (Called_setAuctionCache k m) k AUCTION_CACHE_TTL
               (JSON_stringify y m) s3 s4"
      using spec_result[OF setAuctionCache_spec] by blast
    have W': "io_spec (setAuctionCache y (store e) k m) s3 Q E = Q u s4" for Q E
      by (simp add: io_spec_def W)
    have "providers_post y e k s1 m s4"
      using True ch W WS F13 by (auto simp: providers_post_def)
    then show ?thesis using True by (simp add: T' W')
  next
    case False
    then show ?thesis using F13 ch
      by (simp add: T' providers_post_def auction_fallback_def)
  qed
qed

lemma grok_auction_spec:
  "io_spec
     (io_bind
        (if is_set (GROK_API_KEY y) then
           io_catch
             (io_bind (auction_answer y Grok ''grok'' (grok e)) (\<lambda>result.
                if truthy result then
                  io_bind (setAuctionCache y (store e) k result) (\<lambda>_. io_ret result)
                else io_ret JNull))
             (\<lambda>err. io_ret JNull)
         else io_ret JNull)
        (\<lambda>fromGrok.
           if truthy fromGrok then io_ret fromGrok
           else
             io_bind (tryMiMo_auction y (mimo e)) (\<lambda>mimoResult.
               if truthy mimoResult then
                 io_bind (setAuctionCache y (store e) k mimoResult) (\<lambda>_. io_ret mimoResult)
               else
                 io_ret (JObj [(''bids'', JArr []), (''valueFactors'', JArr []),
                               (''source'', JStr ''fallback'')]))))
     s1 (providers_post y e k s1) (\<lambda>err s'. False)"
proof (cases "is_set (GROK_API_KEY y)")
  case False
  then have ng: "\<not> truthy (grok_auction y e)" by (simp add: grok_auction_def)
  have "s1 = fetched (if is_set (GROK_API_KEY y) then [Grok] else []) s1"
    using False by simp
  from mimo_auction_post[OF this ng, of k]
  show ?thesis using False by simp
next
  case True
  then have ga: "grok_auction y e = auction_result y ''grok'' (grok e)"
    by (simp add: grok_auction_def)
  let ?s2 = "fetched [Grok] s1"
  have F: "?s2 = fetched (if is_set (GROK_API_KEY y) then [Grok] else []) s1"
    using True by simp
  show ?thesis
    using auction_answer_spec[of y Grok "''grok''" "grok e" s1]
  proof (cases rule: spec_cases)
    case (returns v s')
    then have A': "io_spec (auction_answer y Grok ''grok'' (grok e)) s1 Q E = Q v s'" for Q E
      by (simp add: io_spec_def)
    have s': "s' = ?s2" and v: "v = grok_auction y e" using returns ga by simp_all
    show ?thesis
    proof (cases "truthy v")
      case t: True
      have ch: "chosen_auction y e = v" using t v by (simp add: chosen_auction_def)
      have fs: "auction_fetches y e = [Grok]"
        using True t v by (simp add: auction_fetches_def)
      obtain u s3 where W: "setAuctionCache y (store e) k v ?s2 = (Inr u, s3)"
        and WS: "write_step (r_reply (store e)) (Called_setAuctionCache k v) k AUCTION_CACHE_TTL
               (JSON_stringify y v) ?s2 s3"
        using spec_result[OF setAuctionCache_spec] by blast
      have W': "io_spec (setAuctionCache y (store e) k v) ?s2 Q E = Q u s3" for Q E
        by (simp add: io_spec_def W)
      have "providers_post y e k s1 v s3"
        using t ch W WS fs by (auto simp: providers_post_def)
      then show ?thesis using True t by (simp add: A' s' W')
    next
      case f: False
      then have ng: "\<not> truthy (grok_auction y e)" using v by simp
      from mimo_auction_post[OF F ng, of k]
      show ?thesis using True f by (simp add: A' s')
    qed
  next
    case (throws err s')
    then have A': "io_spec (auction_answer y Grok ''grok'' (grok e)) s1 Q E = E err s'" for Q E
      by (simp add: io_spec_def)
    have s': "s' = ?s2" and ng: "\<not> truthy (grok_auction y e)" using throws ga by simp_all
    from mimo_auction_post[OF F ng, of k]
    show ?thesis using True by (simp add: A' s')
  qed
qed

lemma generateAIAuction_spec:
  "io_spec (generateAIAuction y e ps c cc) s (auction_post y e (auction_key ps cc) s)
     (\<lambda>err s'. False)"
proof -
  let ?k = "auction_key ps cc"
  obtain cached s1 where L: "getAuctionCache y (lookup e) ?k s = (Inr cached, s1)"
    and C: "conn_step is_lookup_event s s1"
    using spec_result[OF getCachedProfile_spec, of y "lookup e" ?k s]
    by (auto simp: getAuctionCache_eq)
  have L': "io_spec (getAuctionCache y (lookup e) ?k) s Q E = Q cached s1" for Q E
    by (simp add: io_spec_def L)
  show ?thesis
  proof (cases "truthy cached")
    case True
    then have "auction_post y e ?k s cached s1"
      using L C by (auto simp: auction_post_def)
    then show ?thesis using True
      unfolding generateAIAuction_def Let_def by (simp add: L')
  next
    case False
    have imp: "providers_post y e ?k s1 r s' \<Longrightarrow> auction_post y e ?k s r s'" for r s'
      using L C False unfolding auction_post_def
      by (intro exI[of _ cached] exI[of _ s1]) simp
    have "io_spec (generateAIAuction y e ps c cc) s (providers_post y e ?k s1) (\<lambda>err s'. False)"
      unfolding generateAIAuction_def Let_def
      using False grok_auction_spec[of y e ?k s1] by (simp add: L')
    then show ?thesis by (rule spec_mono) (auto intro: imp)
  qed
qed

lemma auction_parse:
  "parseAuctionResponse auction_sys (JStr auction_answer_text) =
     JObj [(''bids'', JArr [JObj [(''bidder'', JStr ''Google Ads''), (''amount'', JNum 2)]]),
           (''valueFactors'', JArr []), (''source'', JStr ''grok'')]"
  by (simp add: parseAuctionResponse_def parseAuctionResponse_try_def auction_answer_text_def
      trim_def js_spaces_def space_at_def startsWith_def auction_sys_def auction_parsed_def Let_def)

lemma key1: "auction_key summary1 ''DE'' = ''yourinfo:auction:RGV2ZWxvcGVyIHVzaW5nIGEgTWFjQm9v:DE''"
  by (simp add: auction_key_def summary1_def b64_digit_def b64_alphabet_def)

lemma auction_answer_text_nonempty: "auction_answer_text \<noteq> []"
  by (simp add: auction_answer_text_def)

lemma auction_result_example: "auction_result auction_sys tag bidding = set_prop example_auction ''source'' (JStr tag)"
  by (simp add: auction_result_def bidding_def response_ok_def message_content_def auction_parse
      example_auction_def auction_answer_text_nonempty)

lemma lookup_not_rate_check: "is_lookup_event ev \<Longrightarrow> \<not> is_rate_check ev"
  by (cases ev) simp_all

lemma store_event_auction_write: "is_store_event ev \<Longrightarrow> is_auction_write ev"
  by (cases ev) simp_all

lemma store_event_not_rate_check: "is_store_event ev \<Longrightarrow> \<not> is_rate_check ev"
  by (cases ev) simp_all

lemma store_event_not_fetch: "is_store_event ev \<Longrightarrow> \<not> is_fetch ev"
  by (cases ev) simp_all

text \<open>The calls of an auction run, in order, and what it leaves of the rate limiter's table.\<close>

lemma auction_post_flow:
  assumes "auction_post y e k s r s'"
  shows "\<exists>cached evs1 evs3.
           fst (getAuctionCache y (lookup e) k s) = Inr cached
           \<and> events_since s s' =
               evs1 @ (if truthy cached then [] else map Fetch (auction_fetches y e) @ evs3)
           \<and> list_all is_lookup_event evs1
           \<and> list_all is_auction_write evs3
           \<and> list_all (\<lambda>ev. \<not> is_fetch ev) evs3
           \<and> (evs3 \<noteq> []) = (\<not> truthy cached \<and> truthy (chosen_auction y e))
           \<and> (evs3 = [] \<or> hd evs3 = Called_setAuctionCache k r)
           \<and> r = (if truthy cached then cached
                   else if truthy (chosen_auction y e) then chosen_auction y e
                   else auction_fallback)
           \<and> list_all (\<lambda>ev. \<not> is_rate_check ev) (events_since s s')
           \<and> userRateLimits s' = userRateLimits s"
proof -
  from assms obtain cached s1 where
    L: "getAuctionCache y (lookup e) k s = (Inr cached, s1)"
    and C: "conn_step is_lookup_event s s1"
    and R: "if truthy cached then r = cached \<and> s' = s1 else providers_post y e k s1 r s'"
    unfolding auction_post_def by blast
  from C obtain evs1 where E1: "trace s1 = trace s @ evs1" "list_all is_lookup_event evs1"
    and U1: "userRateLimits s1 = userRateLimits s"
    unfolding conn_step_def by blast
  have N1: "list_all (\<lambda>ev. \<not> is_rate_check ev) evs1"
    using E1(2) lookup_not_rate_check by (simp add: list_all_iff)
  let ?fs = "map Fetch (auction_fetches y e)"
  have NF: "list_all (\<lambda>ev. \<not> is_rate_check ev) ?fs"
    by (simp add: list_all_iff)
  show ?thesis
  proof (cases "truthy cached")
    case True
    have "events_since s s' = evs1" using R True E1 by (simp add: events_since_append)
    then show ?thesis using True R L E1 N1 U1
      by (intro exI[of _ cached] exI[of _ evs1] exI[of _ "[]"]) simp
  next
    case miss: False
    then have P: "providers_post y e k s1 r s'" using R by simp
    let ?s2 = "fetched (auction_fetches y e) s1"
    show ?thesis
    proof (cases "truthy (chosen_auction y e)")
      case False
      then have r: "r = auction_fallback" and s': "s' = ?s2"
        using P by (simp_all add: providers_post_def)
      have "trace s' = trace s @ (evs1 @ ?fs)" using s' E1 by (simp add: fetched_def)
      then have "events_since s s' = evs1 @ ?fs" by (rule events_since_append)
      moreover have "userRateLimits s' = userRateLimits s" using s' U1 by (simp add: fetched_def)
      ultimately show ?thesis using miss False r L E1 N1 NF
        by (intro exI[of _ cached] exI[of _ evs1] exI[of _ "[]"]) simp
    next
      case True
      then have r: "r = chosen_auction y e"
        and WS: "write_step (r_reply (store e)) (Called_setAuctionCache k r) k AUCTION_CACHE_TTL
                   (JSON_stringify y r) ?s2 s'"
        using P by (auto simp: providers_post_def)
      from WS obtain evs where E3: "trace s' = trace ?s2 @ Called_setAuctionCache k r # evs"
        and S3: "list_all is_store_event evs" and U3: "userRateLimits s' = userRateLimits ?s2"
        unfolding write_step_def by blast
      let ?evs3 = "Called_setAuctionCache k r # evs"
      have A3: "list_all is_auction_write ?evs3"
        using S3 store_event_auction_write by (simp add: list_all_iff)
      have N3: "list_all (\<lambda>ev. \<not> is_rate_check ev) ?evs3"
        using S3 store_event_not_rate_check by (simp add: list_all_iff)
      have F3: "list_all (\<lambda>ev. \<not> is_fetch ev) ?evs3"
        using S3 store_event_not_fetch by (simp add: list_all_iff)
      have "trace s' = trace s @ (evs1 @ ?fs @ ?evs3)" using E3 E1 by (simp add: fetched_def)
      then have "events_since s s' = evs1 @ ?fs @ ?evs3" by (rule events_since_append)
      moreover have "userRateLimits s' = userRateLimits s" using U3 U1 by (simp add: fetched_def)
      ultimately show ?thesis using miss True r L E1 N1 NF A3 N3 F3
        by (intro exI[of _ cached] exI[of _ evs1] exI[of _ ?evs3]) simp
    qed
  qed
qed

lemmas auction_run_defs =
  getAuctionCache_def setAuctionCache_def auction_answer_def
  tryMiMo_auction_def io_defs redis_defs auction_env_def store_up_def store_down_def fetch_def
  REDIS_URL_def AUCTION_CACHE_TTL_def bidding_def response_ok_def message_content_def
  auction_parse auction_answer_text_nonempty
  auction_sys_def[THEN arg_cong[where f=GROK_API_KEY]]
  auction_sys_def[THEN arg_cong[where f=env_REDIS_URL]]
  auction_sys_def[THEN arg_cong[where f=JSON_stringify]]
  auction_sys_def[THEN arg_cong[where f=JSON_parse]]

lemma bid1_run:
  "bid1 = (Inr example_auction,
           init_state\<lparr>redisLastError := 1000,
             trace := [Redis_connect CacheConn ''redis://localhost:6379'', Fetch Grok,
                Called_setAuctionCache ''yourinfo:auction:RGV2ZWxvcGVyIHVzaW5nIGEgTWFjQm9v:DE''
                  example_auction]\<rparr>)"
  unfolding bid1_def generateAIAuction_def key1 Let_def
  by (simp add: auction_run_defs init_state_def example_auction_def)

lemma bid2_run:
  "bid2 = (Inr example_auction,
           init_state\<lparr>redisLastError := 1000,
             trace := [Redis_connect CacheConn ''redis://localhost:6379'', Fetch Grok,
                Called_setAuctionCache ''yourinfo:auction:RGV2ZWxvcGVyIHVzaW5nIGEgTWFjQm9v:DE''
                  example_auction,
                Fetch Grok,
                Called_setAuctionCache ''yourinfo:auction:RGV2ZWxvcGVyIHVzaW5nIGEgTWFjQm9v:DE''
                  example_auction]\<rparr>)"
  unfolding bid2_def bid1_run generateAIAuction_def key1 Let_def
  by (simp add: auction_run_defs init_state_def example_auction_def)

lemma bid3_run:
  "bid3 = (Inr example_auction,
           init_state\<lparr>redisLastError := 1000,
             trace := [Redis_connect CacheConn ''redis://localhost:6379'', Fetch Grok,
                Called_setAuctionCache ''yourinfo:auction:RGV2ZWxvcGVyIHVzaW5nIGEgTWFjQm9v:DE''
                  example_auction,
                Fetch Grok,
                Called_setAuctionCache ''yourinfo:auction:RGV2ZWxvcGVyIHVzaW5nIGEgTWFjQm9v:DE''
                  example_auction,
                Fetch Grok,
                Called_setAuctionCache ''yourinfo:auction:RGV2ZWxvcGVyIHVzaW5nIGEgTWFjQm9v:DE''
                  example_auction]\<rparr>)"
  unfolding bid3_def bid2_run generateAIAuction_def key1 Let_def
  by (simp add: auction_run_defs init_state_def example_auction_def)

subsection \<open>The key of an auction\<close>

lemma take4: "take (4 + m) (a # b # c # d # xs) = a # b # c # d # take m xs"
  by (simp add: take_Cons')

lemma take3: "take (3 + m) (a # b # c # xs) = a # b # c # take m xs"
  by (simp add: take_Cons')

lemma base64_take: "take (4 * n) (base64 s) = take (4 * n) (base64 (take (3 * n) s))"
proof (induction n arbitrary: s)
  case 0
  then show ?case by simp
next
  case (Suc n)
  show ?case
  proof (cases s)
    case Nil
    then show ?thesis by simp
  next
    case (Cons a s1)
    show ?thesis
    proof (cases s1)
      case Nil
      then show ?thesis using Cons by simp
    next
      case (Cons b s2)
      note c2 = this
      show ?thesis
      proof (cases s2)
        case Nil
        then show ?thesis using c2 \<open>s = a # s1\<close> by simp
      next
        case (Cons c rest)
        have "take (4 * Suc n) (base64 s) =
              take 4 (base64 [a, b, c]) @ take (4 * n) (base64 rest)"
          using Cons c2 \<open>s = a # s1\<close> by (simp add: Let_def take4)
        moreover have "take (4 * Suc n) (base64 (take (3 * Suc n) s)) =
              take 4 (base64 [a, b, c]) @ take (4 * n) (base64 (take (3 * n) rest))"
          using Cons c2 \<open>s = a # s1\<close> by (simp add: Let_def take4 take3)
        ultimately show ?thesis using Suc.IH[of rest] by simp
      qed
    qed
  qed
qed

lemma auction_key_prefix:
  assumes "take 24 s1 = take 24 s2"
  shows "auction_key s1 cc = auction_key s2 cc"
proof -
  have "take 32 (base64 s1) = take 32 (base64 (take 24 s1))"
    using base64_take[of 8 s1] by simp
  moreover have "take 32 (base64 s2) = take 32 (base64 (take 24 s2))"
    using base64_take[of 8 s2] by simp
  ultimately show ?thesis using assms by (simp add: auction_key_def)
qed

subsection \<open>An auction run in front of a store that answers\<close>

lemma setAuctionCache_ok:
  assumes "client_open (redis s)" and "\<not> in_backoff (redisLastError s) (r_now e)"
    and "r_reply e = Replies"
  shows "setAuctionCache y e k p s =
           (Inr (), s\<lparr>trace := trace s @ [Called_setAuctionCache k p,
                                             Redis_setEx k AUCTION_CACHE_TTL (JSON_stringify y p)],
                      kv := (kv s)(k \<mapsto> (AUCTION_CACHE_TTL, JSON_stringify y p))\<rparr>)"
  using assms
  by (auto simp: setAuctionCache_def io_defs getRedis_def redis_setEx_def client_open_def
           split: option.splits)

lemma auction_post_hit:
  assumes "auction_post y e k s r s'" and "store_ok (lookup e) s"
    and "truthy (cached_value y (kv s k))"
  shows "r = cached_value y (kv s k) \<and> conn_step is_lookup_event s s'"
proof -
  from assms(1) obtain cached s1 where
    L: "getAuctionCache y (lookup e) k s = (Inr cached, s1)"
    and C: "conn_step is_lookup_event s s1"
    and R: "if truthy cached then r = cached \<and> s' = s1 else providers_post y e k s1 r s'"
    unfolding auction_post_def by blast
  from lookup_ok[OF assms(2), of y k] L
  have "cached = cached_value y (kv s k)" by (auto simp: getAuctionCache_eq)
  then show ?thesis using R C assms(3) by simp
qed

lemma auction_post_stored:
  assumes "auction_post y e k s r s'" and "store_ok (lookup e) s"
    and "r_reply (store e) = Replies" and "\<not> in_backoff (redisLastError s) (r_now (store e))"
    and "\<not> truthy (cached_value y (kv s k))" and "truthy (chosen_auction y e)"
  shows "r = chosen_auction y e
         \<and> kv s' = (kv s)(k \<mapsto> (AUCTION_CACHE_TTL, JSON_stringify y r))
         \<and> client_open (redis s')
         \<and> (redisLastError s' = redisLastError s \<or> redisLastError s' = 0)"
proof -
  from assms(1) obtain cached s1 where
    L: "getAuctionCache y (lookup e) k s = (Inr cached, s1)"
    and C: "conn_step is_lookup_event s s1"
    and R: "if truthy cached then r = cached \<and> s' = s1 else providers_post y e k s1 r s'"
    unfolding auction_post_def by blast
  from lookup_ok[OF assms(2), of y k] L
  have cv: "cached = cached_value y (kv s k)"
    and O1: "client_open (redis s1)"
    and L1: "redisLastError s1 = redisLastError s \<or> redisLastError s1 = 0"
    by (auto simp: getAuctionCache_eq)
  have K1: "kv s1 = kv s" using C by (simp add: conn_step_def)
  let ?s2 = "fetched (auction_fetches y e) s1"
  have r: "r = chosen_auction y e"
    and W: "setAuctionCache y (store e) k r ?s2 = (Inr (), s')"
    using R cv assms(5,6) by (auto simp: providers_post_def)
  have 2: "client_open (redis ?s2)" "\<not> in_backoff (redisLastError ?s2) (r_now (store e))"
    "kv ?s2 = kv s" "redisLastError ?s2 = redisLastError s1"
    using O1 L1 K1 assms(4) by (auto simp: fetched_def)
  from setAuctionCache_ok[OF 2(1) 2(2) assms(3), of y k r] W
  have "s' = ?s2\<lparr>trace := trace ?s2 @ [Called_setAuctionCache k r,
                                             Redis_setEx k AUCTION_CACHE_TTL (JSON_stringify y r)],
                   kv := (kv ?s2)(k \<mapsto> (AUCTION_CACHE_TTL, JSON_stringify y r))\<rparr>"
    by simp
  then show ?thesis using 2 r L1 by auto
qed

lemma sold1_run:
  "sold1 = (Inr example_auction,
      init_state\<lparr>redis := Some (Client True),
        kv := [''yourinfo:auction:RGV2ZWxvcGVyIHVzaW5nIGEgTWFjQm9v:DE'' \<mapsto> (3600, auction_stored)],
        trace := [Redis_connect CacheConn ''redis://localhost:6379'',
           Redis_get ''yourinfo:auction:RGV2ZWxvcGVyIHVzaW5nIGEgTWFjQm9v:DE'',
           Fetch Grok,
           Called_setAuctionCache ''yourinfo:auction:RGV2ZWxvcGVyIHVzaW5nIGEgTWFjQm9v:DE''
             example_auction,
           Redis_setEx ''yourinfo:auction:RGV2ZWxvcGVyIHVzaW5nIGEgTWFjQm9v:DE'' 3600
             auction_stored]\<rparr>)"
  unfolding sold1_def generateAIAuction_def key1 Let_def
  by (simp add: auction_run_defs init_state_def example_auction_def)

lemma example_auction_truthy: "truthy example_auction"
  by (simp add: example_auction_def)

lemma example_chosen_auction: "chosen_auction auction_sys (auction_env st t) = example_auction"
  by (simp add: chosen_auction_def grok_auction_def auction_env_def auction_result_example
      auction_sys_def[THEN arg_cong[where f=GROK_API_KEY]])
     (simp add: example_auction_def)

lemma auction_stored_nonempty: "auction_stored \<noteq> []"
  by (simp add: auction_stored_def)

lemma cached_auction: "cached_value auction_sys (Some (ttl, auction_stored)) = example_auction"
  by (simp add: cached_value_def auction_stored_nonempty
      auction_sys_def[THEN arg_cong[where f=JSON_parse]])
     (simp add: auction_stored_def auction_answer_text_def)

lemma auction_stringify: "JSON_stringify auction_sys example_auction = auction_stored"
  by (simp add: auction_sys_def)


section \<open>Connection attempts\<close>

lemma getRedis_attempt:
  assumes "\<not> in_backoff (redisLastError s) (r_now e)" and "\<not> client_open (redis s)"
    and "\<not> redisConnecting s"
  shows "fst (getRedis y e s) = Inr (if r_connect_ok e then Some (Client True) else None)
         \<and> trace (snd (getRedis y e s)) = trace s @ [Redis_connect CacheConn (REDIS_URL y)]"
  using assms by (simp add: getRedis_def io_defs redis_connect_def)

lemma getTrackingRedis_attempt:
  assumes "\<not> in_backoff (trackingRedisLastError s) (r_now e)"
    and "\<not> client_open (trackingRedis s)" and "\<not> trackingRedisConnecting s"
  shows "fst (getTrackingRedis y e s) = Inr (if r_connect_ok e then Some (Client True) else None)
         \<and> trace (snd (getTrackingRedis y e s)) =
             trace s @ [Redis_connect TrackingConn (REDIS_URL y)]"
  using assms by (simp add: getTrackingRedis_def io_defs redis_connect_def)

lemma connect_attempts_append:
  "trace s' = trace s @ evs \<Longrightarrow>
   connect_attempts s' = connect_attempts s + length (filter is_connect evs)"
  by (simp add: connect_attempts_def)

lemma down_outcome:
  assumes "generateAIProfile y e c g s = (Inr r, s')"
    and "\<not> client_open (redis s)" and "\<not> r_connect_ok (lookup e)" and "\<not> r_connect_ok (store e)"
  shows "kv s' = kv s
         \<and> (profile r, source r) =
             outcome y e c g JNull (fst (checkRateLimit (rate_now e) (profile_user c) s))"
proof -
  obtain r0 s0 where 1: "generateAIProfile y e c g s = (Inr r0, s0)"
    and 2: "run_post y e c g s r0 s0"
    using spec_result[OF generateAIProfile_spec] by blast
  have eq: "r0 = r" "s0 = s'" using 1 assms(1) by simp_all
  from run_post_outcome[OF 2] lookup_down[OF assms(2) assms(3), of y "profile_key c"]
  have "(profile r0, source r0) =
          outcome y e c g JNull (fst (checkRateLimit (rate_now e) (profile_user c) s))"
    by auto
  then show ?thesis using run_post_down[OF 2 assms(2) assms(3) assms(4)] eq by simp
qed


section \<open>Requests without an identity\<close>

lemma unknown_key:
  assumes "\<not> is_set (fingerprintId c)" and "\<not> is_set (crossBrowserId c)"
  shows "profile_key c = ''yourinfo:profile:unknown:unknown''"
    and "profile_user c = ''unknown:unknown''"
  using assms
  by (cases "fingerprintId c"; cases "crossBrowserId c";
      simp add: profile_key_def profile_user_def getCacheKey_def)+

text \<open>A run whose look-up finds an entry returns it.\<close>

lemma cache_hit_run:
  assumes "store_ok (lookup e) s" and "truthy (cached_value y (kv s (profile_key c)))"
  shows "fst (generateAIProfile y e c g s) =
           Inr \<lparr>profile = cached_value y (kv s (profile_key c)), source = Cache, error = None\<rparr>"
proof -
  obtain r s' where 1: "generateAIProfile y e c g s = (Inr r, s')" and 2: "run_post y e c g s r s'"
    using spec_result[OF generateAIProfile_spec] by blast
  from 2 obtain cached s1 where
    L: "getCachedProfile y (lookup e) (profile_key c) s = (Inr cached, s1)"
    and R: "truthy cached \<longrightarrow> r = \<lparr>profile = cached, source = Cache, error = None\<rparr>"
    unfolding run_post_def by auto
  from lookup_ok[OF assms(1), of y "profile_key c"] L
  have "cached = cached_value y (kv s (profile_key c))" by auto
  then show ?thesis using R assms(2) 1 by simp
qed

lemma healthy_first:
  assumes "store_ok (lookup e) s" and "r_reply (store e) = Replies"
    and "\<not> in_backoff (redisLastError s) (r_now (store e))"
    and "kv s (profile_key c) = None" and "configured y"
    and "userRateLimits s (profile_user c) = None" and "truthy (chosen_profile y e)"
  shows "\<exists>s'. generateAIProfile y e c g s =
                 (Inr \<lparr>profile = chosen_profile y e, source = Ai, error = None\<rparr>, s')
           \<and> kv s' = (kv s)(profile_key c \<mapsto> (CACHE_TTL, JSON_stringify y (chosen_profile y e)))
           \<and> userRateLimits s' =
               (userRateLimits s)(profile_user c \<mapsto>
                  \<lparr>count = 1, resetTime = rate_now e + RATE_LIMIT_WINDOW\<rparr>)
           \<and> client_open (redis s')
           \<and> (redisLastError s' = redisLastError s \<or> redisLastError s' = 0)"
proof -
  have cv: "cached_value y (kv s (profile_key c)) = JNull"
    using assms(4) by (simp add: cached_value_def)
  have miss: "lookup_misses y (lookup e) (profile_key c) s"
    using lookup_ok_misses[OF assms(1), of y "profile_key c"] cv by simp
  have op: "userRateLimits s (profile_user c) = None
            \<or> (\<exists>w. userRateLimits s (profile_user c) = Some w \<and> rate_now e > resetTime w)"
    using assms(6) by simp
  note cr = checkRateLimit_open[OF op]
  from healthy_run[OF assms(1) assms(2) assms(3), of y c g]
  obtain r s' where run: "generateAIProfile y e c g s = (Inr r, s')"
    and o: "(profile r, source r) =
               outcome y e c g (cached_value y (kv s (profile_key c)))
                 (fst (checkRateLimit (rate_now e) (profile_user c) s))"
    and er: "source r = Fallback \<or> error r = None"
    and k: "kv s' = (if source r = Ai
                       then (kv s)(profile_key c \<mapsto> (CACHE_TTL, JSON_stringify y (profile r)))
                       else kv s)"
    and u: "userRateLimits s' =
               (if lookup_misses y (lookup e) (profile_key c) s \<and> configured y
                then userRateLimits (snd (checkRateLimit (rate_now e) (profile_user c) s))
                else userRateLimits s)"
    and c: "client_open (redis s')"
    and l: "redisLastError s' = redisLastError s \<or> redisLastError s' = 0"
    by blast
  have ps: "profile r = chosen_profile y e" "source r = Ai"
    using o cv cr assms(5) assms(7) by (simp_all add: outcome_def)
  then have r: "r = \<lparr>profile = chosen_profile y e, source = Ai, error = None\<rparr>"
    using er by (cases r) auto
  show ?thesis
    using run r k u c l ps miss assms(5) cr by (intro exI[of _ s']) simp
qed

lemma key_a: "profile_key visitor_a = ''yourinfo:profile:unknown:a''"
  and user_a: "profile_user visitor_a = ''unknown:a''"
  and key_b: "profile_key visitor_b = ''yourinfo:profile:unknown:b''"
  and user_b: "profile_user visitor_b = ''unknown:b''"
  by (simp_all add: visitor_a_def visitor_b_def anonymous_def profile_key_def profile_user_def
      getCacheKey_def)

lemma phone_unknown:
  "\<not> is_set (fingerprintId anonymous_phone)" "\<not> is_set (crossBrowserId anonymous_phone)"
  "\<not> is_set (fingerprintId anonymous)" "\<not> is_set (crossBrowserId anonymous)"
  by (simp_all add: anonymous_phone_def anonymous_def)

text \<open>With one identity absent, \<^verbatim>\<open>'unknown'\<close> stands for that one alone.\<close>

lemma no_fingerprint_key:
  assumes "\<not> is_set (fingerprintId c)"
  shows "profile_key c = ''yourinfo:profile:unknown:'' @ str_or (crossBrowserId c) ''unknown''"
    and "profile_user c = ''unknown:'' @ str_or (crossBrowserId c) ''unknown''"
  using assms
  by (cases "fingerprintId c"; simp add: profile_key_def profile_user_def getCacheKey_def)+

lemma no_cross_key:
  assumes "\<not> is_set (crossBrowserId c)"
  shows "profile_key c = ''yourinfo:profile:'' @ str_or (fingerprintId c) ''unknown'' @ '':unknown''"
    and "profile_user c = str_or (fingerprintId c) ''unknown'' @ '':unknown''"
  using assms
  by (cases "crossBrowserId c"; simp add: profile_key_def profile_user_def getCacheKey_def)+


section \<open>Calls that reach the tracking store\<close>

lemma getTrackingRedis_ok:
  assumes "tracking_ok e s"
  shows "\<exists>h s1. getTrackingRedis y e s = (Inr (Some h), s1)
           \<and> client_open (trackingRedis s1)
           \<and> (trackingRedisLastError s1 = trackingRedisLastError s \<or> trackingRedisLastError s1 = 0)
           \<and> sets s1 = sets s"
  using assms
  by (auto simp: tracking_ok_def getTrackingRedis_def io_defs redis_connect_def client_open_def
           split: option.splits)

lemma track_ok:
  assumes "tracking_ok (env 1) s"
  shows "\<exists>s'. trackUniqueVisitor y env fpId cbId s =
                 (Inr (fpId @ '':'' @ cbId |\<notin>| sets s UNIQUE_VISITORS_KEY), s')
           \<and> sets s' = (sets s)(UNIQUE_VISITORS_KEY :=
                           finsert (fpId @ '':'' @ cbId) (sets s UNIQUE_VISITORS_KEY))
           \<and> client_open (trackingRedis s')
           \<and> (trackingRedisLastError s' = trackingRedisLastError s \<or> trackingRedisLastError s' = 0)"
proof -
  obtain h s1 where G: "getTrackingRedis y (env 1) s = (Inr (Some h), s1)"
    and O: "client_open (trackingRedis s1)"
    and L: "trackingRedisLastError s1 = trackingRedisLastError s \<or> trackingRedisLastError s1 = 0"
    and S: "sets s1 = sets s"
    using getTrackingRedis_ok[OF assms] by blast
  have R: "r_reply (env 1) = Replies" using assms by (simp add: tracking_ok_def)
  let ?key = "fpId @ '':'' @ cbId"
  let ?s2 = "s1\<lparr>trace := trace s1 @ [Redis_sAdd UNIQUE_VISITORS_KEY ?key],
               sets := (sets s1)(UNIQUE_VISITORS_KEY := finsert ?key (sets s1 UNIQUE_VISITORS_KEY))\<rparr>"
  have A: "track_attempt y (env 1) ?key 1 s = (Inr (Some (?key |\<notin>| sets s UNIQUE_VISITORS_KEY)), ?s2)"
    using G R by (simp add: track_attempt_def io_defs redis_sAdd_def S)
  have "trackUniqueVisitor y env fpId cbId s = (Inr (?key |\<notin>| sets s UNIQUE_VISITORS_KEY), ?s2)"
    unfolding trackUniqueVisitor_def using A by (subst track_loop.simps) simp
  then show ?thesis using O L S by (intro exI[of _ ?s2]) simp
qed

lemma count_ok:
  assumes "tracking_ok (env 1) s"
  shows "\<exists>s'. getTotalUniqueVisitors y env s = (Inr (fcard (sets s UNIQUE_VISITORS_KEY)), s')
           \<and> sets s' = sets s
           \<and> client_open (trackingRedis s')
           \<and> (trackingRedisLastError s' = trackingRedisLastError s \<or> trackingRedisLastError s' = 0)"
proof -
  obtain h s1 where G: "getTrackingRedis y (env 1) s = (Inr (Some h), s1)"
    and O: "client_open (trackingRedis s1)"
    and L: "trackingRedisLastError s1 = trackingRedisLastError s \<or> trackingRedisLastError s1 = 0"
    and S: "sets s1 = sets s"
    using getTrackingRedis_ok[OF assms] by blast
  have R: "r_reply (env 1) = Replies" using assms by (simp add: tracking_ok_def)
  let ?s2 = "s1\<lparr>trace := trace s1 @ [Redis_sCard UNIQUE_VISITORS_KEY]\<rparr>"
  have A: "count_attempt y (env 1) 1 s = (Inr (Some (fcard (sets s UNIQUE_VISITORS_KEY))), ?s2)"
    using G R by (simp add: count_attempt_def io_defs redis_sCard_def S)
  have "getTotalUniqueVisitors y env s = (Inr (fcard (sets s UNIQUE_VISITORS_KEY)), ?s2)"
    unfolding getTotalUniqueVisitors_def using A by (subst count_loop.simps) simp
  then show ?thesis using O L S by (intro exI[of _ ?s2]) simp
qed

lemma tracking_up_ok:
  assumes "tracking_up L env"
    and "client_open (trackingRedis s) \<or> \<not> trackingRedisConnecting s"
    and "trackingRedisLastError s = L \<or> trackingRedisLastError s = 0"
  shows "tracking_ok (env 1) s"
  using assms by (auto simp: tracking_up_def tracking_ok_def)

text \<open>Rounds of one visitor: only the first can be new, and the total stays where it put it.\<close>

lemma visits_spec:
  assumes "\<forall>p \<in> set envs. tracking_up L (fst p) \<and> tracking_up L (snd p)"
    and "client_open (trackingRedis s) \<or> \<not> trackingRedisConnecting s"
    and "trackingRedisLastError s = L \<or> trackingRedisLastError s = 0"
  shows "fst (visits y fpId cbId envs s) =
           (case envs of
              [] \<Rightarrow> []
            | p # rest \<Rightarrow>
                (Inr (fpId @ '':'' @ cbId |\<notin>| sets s UNIQUE_VISITORS_KEY),
                 Inr (fcard (finsert (fpId @ '':'' @ cbId) (sets s UNIQUE_VISITORS_KEY))))
                # replicate (length rest)
                    (Inr False,
                     Inr (fcard (finsert (fpId @ '':'' @ cbId) (sets s UNIQUE_VISITORS_KEY)))))"
  using assms
proof (induction envs arbitrary: s)
  case Nil
  then show ?case by simp
next
  case (Cons p envs)
  let ?key = "fpId @ '':'' @ cbId"
  let ?S = "sets s UNIQUE_VISITORS_KEY"
  obtain envT envC where p: "p = (envT, envC)" by (cases p)
  have upT: "tracking_up L envT" and upC: "tracking_up L envC"
    using Cons.prems(1) p by simp_all
  from track_ok[where env=envT and s=s and y=y and fpId=fpId and cbId=cbId,
      OF tracking_up_ok[OF upT Cons.prems(2) Cons.prems(3)]]
  obtain s1 where T: "trackUniqueVisitor y envT fpId cbId s = (Inr (?key |\<notin>| ?S), s1)"
    and S1: "sets s1 = (sets s)(UNIQUE_VISITORS_KEY := finsert ?key ?S)"
    and O1: "client_open (trackingRedis s1)"
    and L1: "trackingRedisLastError s1 = trackingRedisLastError s \<or> trackingRedisLastError s1 = 0"
    by blast
  have L1': "trackingRedisLastError s1 = L \<or> trackingRedisLastError s1 = 0"
    using L1 Cons.prems(3) by auto
  have O1': "client_open (trackingRedis s1) \<or> \<not> trackingRedisConnecting s1" using O1 by simp
  from count_ok[where env=envC and s=s1 and y=y, OF tracking_up_ok[OF upC O1' L1']]
  obtain s2 where C: "getTotalUniqueVisitors y envC s1 = (Inr (fcard (sets s1 UNIQUE_VISITORS_KEY)), s2)"
    and S2: "sets s2 = sets s1"
    and O2: "client_open (trackingRedis s2)"
    and L2: "trackingRedisLastError s2 = trackingRedisLastError s1 \<or> trackingRedisLastError s2 = 0"
    by blast
  have L2': "trackingRedisLastError s2 = L \<or> trackingRedisLastError s2 = 0"
    using L2 L1' by auto
  have all: "\<forall>p \<in> set envs. tracking_up L (fst p) \<and> tracking_up L (snd p)"
    using Cons.prems(1) by simp
  have O2': "client_open (trackingRedis s2) \<or> \<not> trackingRedisConnecting s2" using O2 by simp
  note IH = Cons.IH[OF all O2' L2']
  have S2': "sets s2 UNIQUE_VISITORS_KEY = finsert ?key ?S" using S2 S1 by simp
  have rest: "fst (visits y fpId cbId envs s2) =
                replicate (length envs) (Inr False, Inr (fcard (finsert ?key ?S)))"
    using IH by (cases envs) (simp_all add: S2')
  have "fst (visits y fpId cbId (p # envs) s) =
          (Inr (?key |\<notin>| ?S), Inr (fcard (finsert ?key ?S)))
          # fst (visits y fpId cbId envs s2)"
    using T C S1 by (simp add: p split: prod.splits)
  then show ?case using rest by simp
qed


subsection \<open>Runs served from the cache\<close>




subsection \<open>Writes to a store within reach\<close>






section \<open>Write-through for provider results only\<close>



section \<open>The rate-limit boundary\<close>





section \<open>Auction requests pass no rate gate\<close>

text \<open>
  C2, as amended. Every run of \<^verbatim>\<open>generateAIAuction\<close> returns, and its calls are, in this
  order: the cache look-up (a connection attempt, a \<^verbatim>\<open>get\<close>); on a miss the provider calls
  (Grok when its key is set, then MiMo when Grok gave no auction and MiMo's key is set);
  and, exactly when a provider gave an auction, the write-through that starts with the
  call of \<^verbatim>\<open>setAuctionCache\<close> under the request's key. The result is the cached auction, else
  the providers' auction, else the empty auction tagged \<^verbatim>\<open>'fallback'\<close>. \<^verbatim>\<open>checkRateLimit\<close> is not
  called at any point of the run and the rate limiter's table is left as it was: unlike the
  profile path, the auction path has no rate-limit check between the look-up and the
  providers.
\<close>

theorem auction_not_rate_limited:
  "\<exists>r s' cached evs1 evs3.
     generateAIAuction y e ps c cc s = (Inr r, s')
     \<and> fst (getAuctionCache y (lookup e) (auction_key ps cc) s) = Inr cached
     \<and> events_since s s' =
         evs1 @ (if truthy cached then [] else map Fetch (auction_fetches y e) @ evs3)
     \<and> list_all is_lookup_event evs1
     \<and> list_all is_auction_write evs3
     \<and> (evs3 \<noteq> []) = (\<not> truthy cached \<and> truthy (chosen_auction y e))
     \<and> (evs3 = [] \<or> hd evs3 = Called_setAuctionCache (auction_key ps cc) r)
     \<and> r = (if truthy cached then cached
             else if truthy (chosen_auction y e) then chosen_auction y e
             else auction_fallback)
     \<and> list_all (\<lambda>ev. \<not> is_rate_check ev) (events_since s s')
     \<and> userRateLimits s' = userRateLimits s"
proof -
  obtain r s' where 1: "generateAIAuction y e ps c cc s = (Inr r, s')"
    and 2: "auction_post y e (auction_key ps cc) s r s'"
    using spec_result[OF generateAIAuction_spec] by blast
  from auction_post_flow[OF 2] 1 show ?thesis by blast
qed


theorem auction_not_rate_limited_witness:
  "\<exists>evs1 evs3.
     events_since init_state (snd sold1) = evs1 @ [Fetch Grok] @ evs3
     \<and> list_all is_lookup_event evs1
     \<and> list_all is_auction_write evs3
     \<and> hd evs3 = Called_setAuctionCache (auction_key summary1 ''DE'') example_auction
     \<and> fst sold1 = Inr example_auction
     \<and> list_all (\<lambda>ev. \<not> is_rate_check ev) (events_since init_state (snd sold1))
     \<and> userRateLimits (snd sold1) = userRateLimits init_state"
proof -
  let ?e = "auction_env store_up 1000"
  have ok: "store_ok (lookup ?e) init_state"
    by (simp add: auction_env_def store_up_ok init_state_def)
  have miss: "fst (getAuctionCache auction_sys (lookup ?e) (auction_key summary1 ''DE'') init_state)
                = Inr JNull"
    using lookup_ok[OF ok, of auction_sys "auction_key summary1 ''DE''"]
    by (auto simp: getAuctionCache_eq cached_value_def init_state_def)
  have fs: "auction_fetches auction_sys ?e = [Grok]"
    by (simp add: auction_fetches_def grok_auction_def auction_env_def auction_result_example
        auction_sys_def[THEN arg_cong[where f=GROK_API_KEY]])
       (simp add: example_auction_def)
  from auction_not_rate_limited[of auction_sys ?e summary1 "''Germany''" "''DE''" init_state]
  obtain r s' cached evs1 evs3 where
    run: "generateAIAuction auction_sys ?e summary1 ''Germany'' ''DE'' init_state = (Inr r, s')"
    and c: "fst (getAuctionCache auction_sys (lookup ?e) (auction_key summary1 ''DE'') init_state)
              = Inr cached"
    and ev: "events_since init_state s' =
         evs1 @ (if truthy cached then [] else map Fetch (auction_fetches auction_sys ?e) @ evs3)"
    and l1: "list_all is_lookup_event evs1"
    and l3: "list_all is_auction_write evs3"
    and n3: "(evs3 \<noteq> []) = (\<not> truthy cached \<and> truthy (chosen_auction auction_sys ?e))"
    and h3: "evs3 = [] \<or> hd evs3 = Called_setAuctionCache (auction_key summary1 ''DE'') r"
    and r: "r = (if truthy cached then cached
             else if truthy (chosen_auction auction_sys ?e) then chosen_auction auction_sys ?e
             else auction_fallback)"
    and nr: "list_all (\<lambda>ev. \<not> is_rate_check ev) (events_since init_state s')"
    and u: "userRateLimits s' = userRateLimits init_state"
    by blast
  have cn: "cached = JNull" using c miss by simp
  have s1: "fst sold1 = Inr r" "snd sold1 = s'" using run by (simp_all add: sold1_def)
  have r': "r = example_auction"
    using r cn by (simp add: example_chosen_auction example_auction_truthy)
  have ne: "evs3 \<noteq> []" using n3 cn by (simp add: example_chosen_auction example_auction_truthy)
  have "events_since init_state (snd sold1) = evs1 @ [Fetch Grok] @ evs3
     \<and> list_all is_lookup_event evs1
     \<and> list_all is_auction_write evs3
     \<and> hd evs3 = Called_setAuctionCache (auction_key summary1 ''DE'') example_auction
     \<and> fst sold1 = Inr example_auction
     \<and> list_all (\<lambda>ev. \<not> is_rate_check ev) (events_since init_state (snd sold1))
     \<and> userRateLimits (snd sold1) = userRateLimits init_state"
    using ev l1 l3 h3 ne nr u cn fs s1 r' by simp
  then show ?thesis by blast
qed


text \<open>
  The claim that the rate limiter is checked on a miss, as on the profile path, does not
  hold: three auction requests within three seconds, each missing the cache because the
  store is out of reach, each call Grok; the third is served by Grok like the first two,
  the trace holds no call of \<^verbatim>\<open>checkRateLimit\<close>, and the limiter's table stays empty.
\<close>

theorem auction_not_rate_limited_counterexample:
  "fst bid3 = Inr example_auction
   \<and> events_since (snd bid2) (snd bid3) =
       [Fetch Grok,
        Called_setAuctionCache ''yourinfo:auction:RGV2ZWxvcGVyIHVzaW5nIGEgTWFjQm9v:DE''
          example_auction]
   \<and> trace (snd bid3) =
       [Redis_connect CacheConn ''redis://localhost:6379'', Fetch Grok,
        Called_setAuctionCache ''yourinfo:auction:RGV2ZWxvcGVyIHVzaW5nIGEgTWFjQm9v:DE''
          example_auction,
        Fetch Grok,
        Called_setAuctionCache ''yourinfo:auction:RGV2ZWxvcGVyIHVzaW5nIGEgTWFjQm9v:DE''
          example_auction,
        Fetch Grok,
        Called_setAuctionCache ''yourinfo:auction:RGV2ZWxvcGVyIHVzaW5nIGEgTWFjQm9v:DE''
          example_auction]
   \<and> userRateLimits (snd bid3) = Map.empty"
  by (simp add: bid3_run bid2_run events_since_def init_state_def)


section \<open>Auction keys collide on a shared prefix\<close>

text \<open>
  C10. The auction cache key is \<^verbatim>\<open>yourinfo:auction:\<close>, the first 32 base64 characters of the
  summary, which encode its first 24 bytes and nothing else, a colon and the country code.
  So two summaries that agree on their first 24 bytes get the same key under the same
  country code; and when the request for the first misses the cache, is answered by a
  provider and written through to a store that answers, the request for the second is
  served the first request's cached auction (as the store reads it back), with no provider
  called.
\<close>

theorem auction_key_collision:
  assumes "take 24 ps1 = take 24 ps2"
    and "store_ok (lookup e1) s"
    and "r_reply (store e1) = Replies"
    and "\<not> in_backoff (redisLastError s) (r_now (store e1))"
    and "\<not> truthy (cached_value y (kv s (auction_key ps1 cc)))"
    and "truthy (chosen_auction y e1)"
    and "generateAIAuction y e1 ps1 c1 cc s = (res1, s1)"
    and "r_reply (lookup e2) = Replies"
    and "\<not> in_backoff (redisLastError s) (r_now (lookup e2))"
    and "truthy (cached_value y (Some (AUCTION_CACHE_TTL, JSON_stringify y (chosen_auction y e1))))"
  shows "auction_key ps1 cc = ''yourinfo:auction:'' @ take 32 (base64 (take 24 ps1)) @ '':'' @ cc
         \<and> auction_key ps2 cc = auction_key ps1 cc
         \<and> res1 = Inr (chosen_auction y e1)
         \<and> kv s1 (auction_key ps2 cc) =
             Some (AUCTION_CACHE_TTL, JSON_stringify y (chosen_auction y e1))
         \<and> (\<exists>s2. generateAIAuction y e2 ps2 c2 cc s1 =
                    (Inr (cached_value y
                            (Some (AUCTION_CACHE_TTL, JSON_stringify y (chosen_auction y e1)))), s2)
                \<and> list_all (\<lambda>ev. \<not> is_fetch ev) (events_since s1 s2))"
proof -
  let ?k = "auction_key ps1 cc"
  have k0: "?k = ''yourinfo:auction:'' @ take 32 (base64 (take 24 ps1)) @ '':'' @ cc"
    using base64_take[of 8 ps1] by (simp add: auction_key_def)
  have k: "auction_key ps2 cc = ?k"
    using auction_key_prefix[OF assms(1), of cc] by simp
  obtain r s1' where 1: "generateAIAuction y e1 ps1 c1 cc s = (Inr r, s1')"
    and 2: "auction_post y e1 ?k s r s1'"
    using spec_result[OF generateAIAuction_spec] by blast
  have eq: "res1 = Inr r" "s1' = s1" using 1 assms(7) by simp_all
  note st = auction_post_stored[OF 2 assms(2) assms(3) assms(4) assms(5) assms(6)]
  have r: "r = chosen_auction y e1" using st by simp
  have K: "kv s1 ?k = Some (AUCTION_CACHE_TTL, JSON_stringify y (chosen_auction y e1))"
    using st eq r by simp
  have ok2: "store_ok (lookup e2) s1"
    using st eq assms(8) assms(9) by (auto simp: store_ok_def)
  obtain r2 s2 where 3: "generateAIAuction y e2 ps2 c2 cc s1 = (Inr r2, s2)"
    and 4: "auction_post y e2 (auction_key ps2 cc) s1 r2 s2"
    using spec_result[OF generateAIAuction_spec] by blast
  have T: "truthy (cached_value y (kv s1 ?k))" using K assms(10) by simp
  from auction_post_hit[OF 4[unfolded k] ok2 T]
  have r2: "r2 = cached_value y (kv s1 ?k)" and C: "conn_step is_lookup_event s1 s2"
    by simp_all
  from C obtain evs where E: "trace s2 = trace s1 @ evs" "list_all is_lookup_event evs"
    unfolding conn_step_def by blast
  have "events_since s1 s2 = evs" using E(1) by (rule events_since_append)
  then have NF: "list_all (\<lambda>ev. \<not> is_fetch ev) (events_since s1 s2)"
    using E(2) lookup_not_fetch by (simp add: list_all_iff)
  show ?thesis using k0 k eq r K 3 r2 NF by simp
qed


theorem auction_key_collision_witness:
  "summary1 \<noteq> summary2
   \<and> auction_key summary1 ''DE'' = ''yourinfo:auction:RGV2ZWxvcGVyIHVzaW5nIGEgTWFjQm9v:DE''
   \<and> auction_key summary2 ''DE'' = auction_key summary1 ''DE''
   \<and> fst sold1 = Inr example_auction
   \<and> (\<exists>s2. generateAIAuction auction_sys (auction_env store_up 2000) summary2 ''Germany'' ''DE''
               (snd sold1) = (Inr example_auction, s2)
          \<and> list_all (\<lambda>ev. \<not> is_fetch ev) (events_since (snd sold1) s2))"
proof -
  let ?e1 = "auction_env store_up 1000" and ?e2 = "auction_env store_up 2000"
  have p: "take 24 summary1 = take 24 summary2"
    by (simp add: summary1_def summary2_def)
  have ok: "store_ok (lookup ?e1) init_state"
    by (simp add: auction_env_def store_up_ok init_state_def)
  have rp: "r_reply (store ?e1) = Replies" "r_reply (lookup ?e2) = Replies"
    by (simp_all add: auction_env_def store_up_def)
  have b: "\<not> in_backoff (redisLastError init_state) t" for t
    by (simp add: init_state_def)
  have miss: "\<not> truthy (cached_value auction_sys (kv init_state (auction_key summary1 ''DE'')))"
    by (simp add: cached_value_def init_state_def)
  have ch: "truthy (chosen_auction auction_sys ?e1)"
    by (simp add: example_chosen_auction example_auction_truthy)
  have run: "generateAIAuction auction_sys ?e1 summary1 ''Germany'' ''DE'' init_state
               = (fst sold1, snd sold1)"
    by (simp add: sold1_def)
  have rb: "truthy (cached_value auction_sys
                (Some (AUCTION_CACHE_TTL, JSON_stringify auction_sys (chosen_auction auction_sys ?e1))))"
    by (simp add: example_chosen_auction auction_stringify cached_auction example_auction_truthy)
  from auction_key_collision[OF p ok rp(1) b miss ch run rp(2) b rb, of "''Germany''"]
  have "auction_key summary2 ''DE'' = auction_key summary1 ''DE''
      \<and> fst sold1 = Inr example_auction
      \<and> (\<exists>s2. generateAIAuction auction_sys ?e2 summary2 ''Germany'' ''DE'' (snd sold1)
                  = (Inr example_auction, s2)
             \<and> list_all (\<lambda>ev. \<not> is_fetch ev) (events_since (snd sold1) s2))"
    by (simp add: example_chosen_auction auction_stringify cached_auction)
  moreover have "summary1 \<noteq> summary2" by (simp add: summary1_def summary2_def)
  ultimately show ?thesis using key1 by simp
qed


section \<open>The store's address when none is configured\<close>

text \<open>
  C3, as amended. When \<^verbatim>\<open>REDIS_URL\<close> is not set (or is empty), the address of the store is
  \<^verbatim>\<open>redis://localhost:6379\<close>. Both \<^verbatim>\<open>getRedis\<close> and \<^verbatim>\<open>getTrackingRedis\<close>, when no client is open,
  no connection is being made and the connection is not in its backoff, make one connection
  attempt to that address, and return the client exactly when the attempt succeeds: caching
  and tracking are on whenever a store answers at the default address. The profile
  pipeline returns a profile in every case; when no store can be reached and no client is
  open, the store's entries are unchanged and the result is the providers' profile tagged
  \<^verbatim>\<open>'ai'\<close> (a provider configured, the caller within the rate limit, a valid profile
  produced) or else the rule-based profile tagged \<^verbatim>\<open>'fallback'\<close>.
\<close>

theorem store_url_default:
  assumes "\<not> is_set (env_REDIS_URL y)"
  shows "REDIS_URL y = ''redis://localhost:6379''
    \<and> (\<not> in_backoff (redisLastError s) (r_now e) \<and> \<not> client_open (redis s)
         \<and> \<not> redisConnecting s \<longrightarrow>
         fst (getRedis y e s) = Inr (if r_connect_ok e then Some (Client True) else None)
         \<and> events_since s (snd (getRedis y e s)) =
             [Redis_connect CacheConn ''redis://localhost:6379'']
         \<and> connect_attempts (snd (getRedis y e s)) = connect_attempts s + 1)
    \<and> (\<not> in_backoff (trackingRedisLastError s) (r_now e) \<and> \<not> client_open (trackingRedis s)
         \<and> \<not> trackingRedisConnecting s \<longrightarrow>
         fst (getTrackingRedis y e s) = Inr (if r_connect_ok e then Some (Client True) else None)
         \<and> events_since s (snd (getTrackingRedis y e s)) =
             [Redis_connect TrackingConn ''redis://localhost:6379'']
         \<and> connect_attempts (snd (getTrackingRedis y e s)) = connect_attempts s + 1)
    \<and> (\<exists>r s'. generateAIProfile y e' c g s = (Inr r, s') \<and> profile r \<noteq> JNull
          \<and> (\<not> client_open (redis s) \<and> \<not> r_connect_ok (lookup e') \<and> \<not> r_connect_ok (store e')
               \<longrightarrow> kv s' = kv s
                 \<and> (profile r, source r) =
                     outcome y e' c g JNull
                       (fst (checkRateLimit (rate_now e') (profile_user c) s))))"
proof -
  have url: "REDIS_URL y = ''redis://localhost:6379''"
    using assms by (cases "env_REDIS_URL y") (simp_all add: REDIS_URL_def)
  have A: "fst (getRedis y e s) = Inr (if r_connect_ok e then Some (Client True) else None)
         \<and> events_since s (snd (getRedis y e s)) =
             [Redis_connect CacheConn ''redis://localhost:6379'']
         \<and> connect_attempts (snd (getRedis y e s)) = connect_attempts s + 1"
    if "\<not> in_backoff (redisLastError s) (r_now e)" "\<not> client_open (redis s)"
      "\<not> redisConnecting s"
  proof -
    note a = getRedis_attempt[OF that, of y, unfolded url]
    have "events_since s (snd (getRedis y e s)) = [Redis_connect CacheConn ''redis://localhost:6379'']"
      using a by (intro events_since_append) simp
    moreover have "connect_attempts (snd (getRedis y e s)) = connect_attempts s + 1"
      using connect_attempts_append[of "snd (getRedis y e s)" s] a by simp
    ultimately show ?thesis using a by simp
  qed
  have B: "fst (getTrackingRedis y e s) = Inr (if r_connect_ok e then Some (Client True) else None)
         \<and> events_since s (snd (getTrackingRedis y e s)) =
             [Redis_connect TrackingConn ''redis://localhost:6379'']
         \<and> connect_attempts (snd (getTrackingRedis y e s)) = connect_attempts s + 1"
    if "\<not> in_backoff (trackingRedisLastError s) (r_now e)" "\<not> client_open (trackingRedis s)"
      "\<not> trackingRedisConnecting s"
  proof -
    note a = getTrackingRedis_attempt[OF that, of y, unfolded url]
    have "events_since s (snd (getTrackingRedis y e s)) =
            [Redis_connect TrackingConn ''redis://localhost:6379'']"
      using a by (intro events_since_append) simp
    moreover have "connect_attempts (snd (getTrackingRedis y e s)) = connect_attempts s + 1"
      using connect_attempts_append[of "snd (getTrackingRedis y e s)" s] a by simp
    ultimately show ?thesis using a by simp
  qed
  obtain r s' where 1: "generateAIProfile y e' c g s = (Inr r, s')"
    and 2: "run_post y e' c g s r s'"
    using spec_result[OF generateAIProfile_spec] by blast
  have nn: "profile r \<noteq> JNull"
    using 2 unfolding run_post_def
    by (auto simp: fallback_not_null split: if_splits dest: truthy_not_null prov_post_not_null)
  have C: "kv s' = kv s
         \<and> (profile r, source r) =
             outcome y e' c g JNull (fst (checkRateLimit (rate_now e') (profile_user c) s))"
    if "\<not> client_open (redis s)" "\<not> r_connect_ok (lookup e')" "\<not> r_connect_ok (store e')"
    using down_outcome[OF 1 that] .
  show ?thesis using url A B 1 nn C by blast
qed


theorem store_url_default_witness:
  "REDIS_URL (example_sys None None) = ''redis://localhost:6379''
   \<and> fst (getRedis (example_sys None None) (store_down 1000) init_state) = Inr None
   \<and> events_since init_state (snd (getRedis (example_sys None None) (store_down 1000) init_state))
       = [Redis_connect CacheConn ''redis://localhost:6379'']
   \<and> fst (getTrackingRedis (example_sys None None) (store_down 1000) init_state) = Inr None
   \<and> events_since init_state
        (snd (getTrackingRedis (example_sys None None) (store_down 1000) init_state))
       = [Redis_connect TrackingConn ''redis://localhost:6379'']
   \<and> (\<exists>r s'. generateAIProfile (example_sys None None) (example_env store_down 1000) anonymous
                None init_state = (Inr r, s')
          \<and> kv s' = kv init_state
          \<and> (profile r, source r) = (generateFallbackProfile anonymous None, Fallback))"
proof -
  let ?y = "example_sys None None"
  have a: "\<not> is_set (env_REDIS_URL ?y)" by (simp add: example_sys_def)
  have i: "\<not> in_backoff (redisLastError init_state) t" "\<not> client_open (redis init_state)"
    "\<not> redisConnecting init_state"
    "\<not> in_backoff (trackingRedisLastError init_state) t"
    "\<not> client_open (trackingRedis init_state)" "\<not> trackingRedisConnecting init_state" for t
    by (simp_all add: init_state_def client_open_def)
  have d: "\<not> r_connect_ok (store_down 1000)"
    "\<not> r_connect_ok (lookup (example_env store_down 1000))"
    "\<not> r_connect_ok (store (example_env store_down 1000))"
    by (simp_all add: store_down_def example_env_def)
  have o: "outcome ?y e c g JNull b = (generateFallbackProfile c g, Fallback)" for e c g b
    by (simp add: outcome_def configured_def example_sys_def)
  from store_url_default[OF a, of init_state "store_down 1000" "example_env store_down 1000"
      anonymous None]
  show ?thesis using i d by (simp add: o) blast
qed


text \<open>
  The claim that no connection is attempted when \<^verbatim>\<open>REDIS_URL\<close> is absent does not hold: in a
  freshly started process with \<^verbatim>\<open>REDIS_URL\<close> not set, \<^verbatim>\<open>getRedis\<close> and \<^verbatim>\<open>getTrackingRedis\<close> each
  attempt a connection to \<^verbatim>\<open>redis://localhost:6379\<close> and, a store answering there, return an
  open client.
\<close>

theorem store_url_default_counterexample:
  "env_REDIS_URL (example_sys None None) = None
   \<and> getRedis (example_sys None None) (store_up 1000) init_state =
       (Inr (Some (Client True)),
        init_state\<lparr>redis := Some (Client True),
                    trace := [Redis_connect CacheConn ''redis://localhost:6379'']\<rparr>)
   \<and> getTrackingRedis (example_sys None None) (store_up 1000) init_state =
       (Inr (Some (Client True)),
        init_state\<lparr>trackingRedis := Some (Client True),
                    trace := [Redis_connect TrackingConn ''redis://localhost:6379'']\<rparr>)
   \<and> connect_attempts init_state = 0
   \<and> connect_attempts (snd (getRedis (example_sys None None) (store_up 1000) init_state)) = 1"
  by (simp add: getRedis_def getTrackingRedis_def io_defs redis_connect_def REDIS_URL_def
      init_state_def store_up_def connect_attempts_def in_backoff_def client_open_def
      example_sys_def[THEN arg_cong[where f=env_REDIS_URL]])


section \<open>Visitors without an identity share one key and one bucket\<close>

text \<open>
  C9, as amended. For a request in which both \<^verbatim>\<open>fingerprintId\<close> and \<^verbatim>\<open>crossBrowserId\<close> are absent
  (or empty), \<^verbatim>\<open>generateAIProfile\<close> uses \<^verbatim>\<open>'unknown'\<close> for both: the cache key is
  \<^verbatim>\<open>yourinfo:profile:unknown:unknown\<close> and the rate-limit bucket is \<^verbatim>\<open>unknown:unknown\<close>, the same for
  every such request. Hence two visitors without an identity read and write the same cached
  profile (when the first one's request is answered by a provider and written through to a
  store that answers, the second one's request is served that profile, as the store reads
  it back, tagged \<^verbatim>\<open>'cache'\<close>), and they consume one rate-limit budget (when their requests
  miss the cache with a provider configured, a request of each within one window fills the
  window, and the next request of the first within it is rate limited). When one field is
  absent, \<^verbatim>\<open>'unknown'\<close> stands for that field alone and the other field stays in the key and in
  the bucket: without a \<^verbatim>\<open>fingerprintId\<close> the key is \<^verbatim>\<open>yourinfo:profile:unknown:\<close> and the bucket
  \<^verbatim>\<open>unknown:\<close>, each followed by the \<^verbatim>\<open>crossBrowserId\<close> (or \<^verbatim>\<open>'unknown'\<close>), and two such requests
  share a key, and a bucket, exactly when they agree on the \<^verbatim>\<open>crossBrowserId\<close>, an absent one
  counting as \<^verbatim>\<open>'unknown'\<close>; likewise, with the two fields exchanged, for two requests
  without a \<^verbatim>\<open>crossBrowserId\<close>.
\<close>

theorem unknown_identity_shared:
  assumes "\<not> is_set (fingerprintId c1)" and "\<not> is_set (crossBrowserId c1)"
    and "\<not> is_set (fingerprintId c2)" and "\<not> is_set (crossBrowserId c2)"
  shows "profile_key c1 = ''yourinfo:profile:unknown:unknown''
    \<and> profile_key c2 = profile_key c1
    \<and> profile_user c1 = ''unknown:unknown''
    \<and> profile_user c2 = profile_user c1
    \<and> (store_ok (lookup e1) s \<and> r_reply (store e1) = Replies
         \<and> \<not> in_backoff (redisLastError s) (r_now (store e1))
         \<and> generateAIProfile y e1 c1 g1 s = (Inr r1, s1) \<and> source r1 = Ai
         \<and> r_reply (lookup e2) = Replies \<and> \<not> in_backoff (redisLastError s) (r_now (lookup e2))
         \<and> truthy (cached_value y (Some (CACHE_TTL, JSON_stringify y (profile r1))))
        \<longrightarrow>
          kv s1 (profile_key c2) = Some (CACHE_TTL, JSON_stringify y (profile r1))
          \<and> fst (generateAIProfile y e2 c2 g2 s1) =
              Inr \<lparr>profile = cached_value y (Some (CACHE_TTL, JSON_stringify y (profile r1))),
                   source = Cache, error = None\<rparr>)
    \<and> (configured y
         \<and> (userRateLimits t ''unknown:unknown'' = None
              \<or> (\<exists>w. userRateLimits t ''unknown:unknown'' = Some w \<and> rate_now d1 > resetTime w))
         \<and> generateAIProfile y d1 c1 h1 t = (res1, t1)
         \<and> lookup_misses y (lookup d1) (profile_key c1) t
         \<and> generateAIProfile y d2 c2 h2 t1 = (res2, t2)
         \<and> lookup_misses y (lookup d2) (profile_key c2) t1
         \<and> generateAIProfile y d3 c1 h3 t2 = (res3, t3)
         \<and> lookup_misses y (lookup d3) (profile_key c1) t2
         \<and> rate_now d2 \<le> rate_now d1 + RATE_LIMIT_WINDOW
         \<and> rate_now d3 \<le> rate_now d1 + RATE_LIMIT_WINDOW
        \<longrightarrow>
          userRateLimits t2 ''unknown:unknown'' =
            Some \<lparr>count = 2, resetTime = rate_now d1 + RATE_LIMIT_WINDOW\<rparr>
          \<and> res3 = Inr \<lparr>profile = generateFallbackProfile c1 h3, source = Fallback,
                          error = Some ''Rate limited''\<rparr>)
    \<and> (\<not> is_set (fingerprintId c3) \<and> \<not> is_set (fingerprintId c4) \<longrightarrow>
          profile_key c3 = ''yourinfo:profile:unknown:'' @ str_or (crossBrowserId c3) ''unknown''
          \<and> profile_user c3 = ''unknown:'' @ str_or (crossBrowserId c3) ''unknown''
          \<and> (profile_key c3 = profile_key c4) =
              (str_or (crossBrowserId c3) ''unknown'' = str_or (crossBrowserId c4) ''unknown'')
          \<and> (profile_user c3 = profile_user c4) =
              (str_or (crossBrowserId c3) ''unknown'' = str_or (crossBrowserId c4) ''unknown''))
    \<and> (\<not> is_set (crossBrowserId c5) \<and> \<not> is_set (crossBrowserId c6) \<longrightarrow>
          profile_key c5 = ''yourinfo:profile:'' @ str_or (fingerprintId c5) ''unknown'' @ '':unknown''
          \<and> profile_user c5 = str_or (fingerprintId c5) ''unknown'' @ '':unknown''
          \<and> (profile_key c5 = profile_key c6) =
              (str_or (fingerprintId c5) ''unknown'' = str_or (fingerprintId c6) ''unknown'')
          \<and> (profile_user c5 = profile_user c6) =
              (str_or (fingerprintId c5) ''unknown'' = str_or (fingerprintId c6) ''unknown''))"
proof -
  let ?k = "''yourinfo:profile:unknown:unknown''" and ?u = "''unknown:unknown''"
  let ?W = "RATE_LIMIT_WINDOW"
  note k1 = unknown_key[OF assms(1) assms(2)]
  note k2 = unknown_key[OF assms(3) assms(4)]
  have B: "kv s1 (profile_key c2) = Some (CACHE_TTL, JSON_stringify y (profile r1))
          \<and> fst (generateAIProfile y e2 c2 g2 s1) =
              Inr \<lparr>profile = cached_value y (Some (CACHE_TTL, JSON_stringify y (profile r1))),
                   source = Cache, error = None\<rparr>"
    if h: "store_ok (lookup e1) s" "r_reply (store e1) = Replies"
      "\<not> in_backoff (redisLastError s) (r_now (store e1))"
      "generateAIProfile y e1 c1 g1 s = (Inr r1, s1)" "source r1 = Ai"
      "r_reply (lookup e2) = Replies" "\<not> in_backoff (redisLastError s) (r_now (lookup e2))"
      "truthy (cached_value y (Some (CACHE_TTL, JSON_stringify y (profile r1))))"
  proof -
    from healthy_run[OF h(1) h(2) h(3), of y c1 g1] h(4) h(5)
    have K: "kv s1 = (kv s)(?k \<mapsto> (CACHE_TTL, JSON_stringify y (profile r1)))"
      and O: "client_open (redis s1)"
      and L: "redisLastError s1 = redisLastError s \<or> redisLastError s1 = 0"
      by (auto simp: k1)
    have ok2: "store_ok (lookup e2) s1"
      using O L h(6) h(7) by (auto simp: store_ok_def)
    have K2: "kv s1 (profile_key c2) = Some (CACHE_TTL, JSON_stringify y (profile r1))"
      using K by (simp add: k2)
    from cache_hit_run[OF ok2, of y c2 g2] K2 h(8)
    show ?thesis by simp
  qed
  have C: "userRateLimits t2 ?u = Some \<lparr>count = 2, resetTime = rate_now d1 + ?W\<rparr>
          \<and> res3 = Inr \<lparr>profile = generateFallbackProfile c1 h3, source = Fallback,
                          error = Some ''Rate limited''\<rparr>"
    if h: "configured y"
      "userRateLimits t ?u = None \<or> (\<exists>w. userRateLimits t ?u = Some w \<and> rate_now d1 > resetTime w)"
      "generateAIProfile y d1 c1 h1 t = (res1, t1)"
      "lookup_misses y (lookup d1) (profile_key c1) t"
      "generateAIProfile y d2 c2 h2 t1 = (res2, t2)"
      "lookup_misses y (lookup d2) (profile_key c2) t1"
      "generateAIProfile y d3 c1 h3 t2 = (res3, t3)"
      "lookup_misses y (lookup d3) (profile_key c1) t2"
      "rate_now d2 \<le> rate_now d1 + ?W" "rate_now d3 \<le> rate_now d1 + ?W"
  proof -
    note g1 = gated_run[OF h(3) h(4) h(1), unfolded k1]
    note g2 = gated_run[OF h(5) h(6) h(1), unfolded k2]
    note g3 = gated_run[OF h(7) h(8) h(1), unfolded k1]
    have U1: "userRateLimits t1 = (userRateLimits t)(?u \<mapsto> \<lparr>count = 1, resetTime = rate_now d1 + ?W\<rparr>)"
      using g1 checkRateLimit_open[OF h(2)] by auto
    have c2: "fst (checkRateLimit (rate_now d2) ?u t1)
         \<and> userRateLimits (snd (checkRateLimit (rate_now d2) ?u t1)) =
             (userRateLimits t1)(?u \<mapsto> \<lparr>count = 2, resetTime = rate_now d1 + ?W\<rparr>)"
      using checkRateLimit_within[of t1 ?u "\<lparr>count = 1, resetTime = rate_now d1 + ?W\<rparr>" "rate_now d2"]
        U1 h(9) by (simp add: RATE_LIMIT_MAX_def numeral_2_eq_2)
    have U2: "userRateLimits t2 ?u = Some \<lparr>count = 2, resetTime = rate_now d1 + ?W\<rparr>"
      using g2 c2 by auto
    have c3: "\<not> fst (checkRateLimit (rate_now d3) ?u t2)"
      using checkRateLimit_denied[OF U2] h(10) by (simp add: RATE_LIMIT_MAX_def)
    have "res3 = Inr \<lparr>profile = generateFallbackProfile c1 h3, source = Fallback,
                          error = Some ''Rate limited''\<rparr>"
      using g3 c3 by auto
    then show ?thesis using U2 by simp
  qed
  have K: "profile_key c1 = ?k" "profile_key c2 = profile_key c1"
    "profile_user c1 = ?u" "profile_user c2 = profile_user c1"
    using k1 k2 by simp_all
  have B': "store_ok (lookup e1) s \<and> r_reply (store e1) = Replies
         \<and> \<not> in_backoff (redisLastError s) (r_now (store e1))
         \<and> generateAIProfile y e1 c1 g1 s = (Inr r1, s1) \<and> source r1 = Ai
         \<and> r_reply (lookup e2) = Replies \<and> \<not> in_backoff (redisLastError s) (r_now (lookup e2))
         \<and> truthy (cached_value y (Some (CACHE_TTL, JSON_stringify y (profile r1))))
        \<longrightarrow>
          kv s1 (profile_key c2) = Some (CACHE_TTL, JSON_stringify y (profile r1))
          \<and> fst (generateAIProfile y e2 c2 g2 s1) =
              Inr \<lparr>profile = cached_value y (Some (CACHE_TTL, JSON_stringify y (profile r1))),
                   source = Cache, error = None\<rparr>"
    by (intro impI; elim conjE; rule B; assumption)
  have C': "configured y
         \<and> (userRateLimits t ''unknown:unknown'' = None
              \<or> (\<exists>w. userRateLimits t ''unknown:unknown'' = Some w \<and> rate_now d1 > resetTime w))
         \<and> generateAIProfile y d1 c1 h1 t = (res1, t1)
         \<and> lookup_misses y (lookup d1) (profile_key c1) t
         \<and> generateAIProfile y d2 c2 h2 t1 = (res2, t2)
         \<and> lookup_misses y (lookup d2) (profile_key c2) t1
         \<and> generateAIProfile y d3 c1 h3 t2 = (res3, t3)
         \<and> lookup_misses y (lookup d3) (profile_key c1) t2
         \<and> rate_now d2 \<le> rate_now d1 + RATE_LIMIT_WINDOW
         \<and> rate_now d3 \<le> rate_now d1 + RATE_LIMIT_WINDOW
        \<longrightarrow>
          userRateLimits t2 ''unknown:unknown'' =
            Some \<lparr>count = 2, resetTime = rate_now d1 + RATE_LIMIT_WINDOW\<rparr>
          \<and> res3 = Inr \<lparr>profile = generateFallbackProfile c1 h3, source = Fallback,
                          error = Some ''Rate limited''\<rparr>"
    by (intro impI; elim conjE; rule C; assumption)
  have D: "\<not> is_set (fingerprintId c3) \<and> \<not> is_set (fingerprintId c4) \<longrightarrow>
          profile_key c3 = ''yourinfo:profile:unknown:'' @ str_or (crossBrowserId c3) ''unknown''
          \<and> profile_user c3 = ''unknown:'' @ str_or (crossBrowserId c3) ''unknown''
          \<and> (profile_key c3 = profile_key c4) =
              (str_or (crossBrowserId c3) ''unknown'' = str_or (crossBrowserId c4) ''unknown'')
          \<and> (profile_user c3 = profile_user c4) =
              (str_or (crossBrowserId c3) ''unknown'' = str_or (crossBrowserId c4) ''unknown'')"
    using no_fingerprint_key[of c3] no_fingerprint_key[of c4] by simp
  have E: "\<not> is_set (crossBrowserId c5) \<and> \<not> is_set (crossBrowserId c6) \<longrightarrow>
          profile_key c5 = ''yourinfo:profile:'' @ str_or (fingerprintId c5) ''unknown'' @ '':unknown''
          \<and> profile_user c5 = str_or (fingerprintId c5) ''unknown'' @ '':unknown''
          \<and> (profile_key c5 = profile_key c6) =
              (str_or (fingerprintId c5) ''unknown'' = str_or (fingerprintId c6) ''unknown'')
          \<and> (profile_user c5 = profile_user c6) =
              (str_or (fingerprintId c5) ''unknown'' = str_or (fingerprintId c6) ''unknown'')"
    using no_cross_key[of c5] no_cross_key[of c6] by simp
  show ?thesis by (intro conjI K B' C' D E)
qed



theorem unknown_identity_shared_witness:
  "anonymous \<noteq> anonymous_phone
   \<and> fst shared1 = Inr \<lparr>profile = example_profile, source = Ai, error = None\<rparr>
   \<and> kv (snd shared1) (profile_key anonymous_phone) = Some (CACHE_TTL, example_stored)
   \<and> fst (generateAIProfile both_keys (example_env store_up 2000) anonymous_phone None (snd shared1))
       = Inr \<lparr>profile = example_profile, source = Cache, error = None\<rparr>
   \<and> userRateLimits (snd crowd2) ''unknown:unknown'' = Some \<lparr>count = 2, resetTime = 61000\<rparr>
   \<and> fst crowd3 = Inr \<lparr>profile = generateFallbackProfile anonymous None, source = Fallback,
                         error = Some ''Rate limited''\<rparr>
   \<and> profile_key visitor_a = ''yourinfo:profile:unknown:a''
   \<and> profile_user visitor_a = ''unknown:a''
   \<and> profile_key visitor_a \<noteq> profile_key visitor_b
   \<and> profile_user visitor_a \<noteq> profile_user visitor_b
   \<and> profile_key visitor_f = ''yourinfo:profile:f:unknown''
   \<and> profile_user visitor_f = ''f:unknown''
   \<and> profile_key visitor_f \<noteq> profile_key anonymous
   \<and> profile_user visitor_f \<noteq> profile_user anonymous"
proof -
  let ?Y = "both_keys"
  have up: "r_reply (store (example_env store_up t)) = Replies"
           "lookup (example_env store_up t) = store_up t"
           "r_reply (lookup (example_env store_up t)) = Replies" for t
    by (simp_all add: example_env_def store_up_def)
  have ch: "chosen_profile ?Y (example_env st t) = example_profile" for st t
    by (simp add: both_keys_def example_chosen)
  have cfg: "configured ?Y" by (simp add: both_keys_def example_configured)
  have st: "JSON_stringify ?Y example_profile = example_stored"
    by (simp add: both_keys_def example_stringify)
  have cv: "cached_value ?Y (Some (ttl, example_stored)) = example_profile" for ttl
    by (simp add: both_keys_def cached_example)
  \<comment> \<open>the first visitor's profile is cached, the second visitor is served it\<close>
  have ok0: "store_ok (lookup (example_env store_up 1000)) init_state"
    unfolding up by (rule store_up_ok) (simp_all add: init_state_def)
  have b0: "\<not> in_backoff (redisLastError init_state) t" for t
    by (simp add: init_state_def)
  have i0: "kv init_state (profile_key anonymous) = None"
    "userRateLimits init_state (profile_user anonymous) = None"
    by (simp_all add: init_state_def)
  have t: "truthy (chosen_profile ?Y (example_env store_up 1000))"
    by (simp add: ch example_truthy)
  from healthy_first[OF ok0 up(1) b0 i0(1) cfg i0(2) t, of None]
  obtain s1 where run1: "generateAIProfile ?Y (example_env store_up 1000) anonymous None init_state
                           = (Inr \<lparr>profile = example_profile, source = Ai, error = None\<rparr>, s1)"
    by (auto simp: ch)
  let ?r1 = "\<lparr>profile = example_profile, source = Ai, error = None\<rparr>"
  have r1: "generateAIProfile ?Y (example_env store_up 1000) anonymous None init_state
              = (Inr ?r1, snd shared1)"
    and f1: "fst shared1 = Inr ?r1"
    using run1 by (simp_all add: shared1_def)
  have rb: "truthy (cached_value ?Y (Some (CACHE_TTL, JSON_stringify ?Y (profile ?r1))))"
    by (simp add: st cv example_truthy)
  \<comment> \<open>three requests that miss the cache, by the first visitor, the second and the first again\<close>
  let ?d = "\<lambda>t. example_env store_down t"
  have dn: "\<not> r_connect_ok (lookup (?d t))" "\<not> r_connect_ok (store (?d t))" "rate_now (?d t) = t" for t
    by (simp_all add: example_env_def store_down_def)
  have o0: "\<not> client_open (redis init_state)" by (simp add: init_state_def client_open_def)
  have o1: "\<not> client_open (redis (snd down1))"
    unfolding down1_def using down_run[OF o0 dn(1) dn(2)] by blast
  have o2: "\<not> client_open (redis (snd crowd2))"
    unfolding crowd2_def using down_run[OF o1 dn(1) dn(2)] by blast
  have fresh: "userRateLimits init_state ''unknown:unknown'' = None"
    by (simp add: init_state_def)
  have d1: "generateAIProfile ?Y (?d 1000) anonymous None init_state = (fst down1, snd down1)"
    by (simp add: down1_def)
  have d2: "generateAIProfile ?Y (?d 2000) anonymous_phone None (snd down1) = (fst crowd2, snd crowd2)"
    by (simp add: crowd2_def)
  have d3: "generateAIProfile ?Y (?d 3000) anonymous None (snd crowd2) = (fst crowd3, snd crowd3)"
    by (simp add: crowd3_def)
  have w: "rate_now (?d 2000) \<le> rate_now (?d 1000) + RATE_LIMIT_WINDOW"
    "rate_now (?d 3000) \<le> rate_now (?d 1000) + RATE_LIMIT_WINDOW"
    by (simp_all add: dn RATE_LIMIT_WINDOW_def)
  note T = unknown_identity_shared[OF phone_unknown(3) phone_unknown(4) phone_unknown(1)
      phone_unknown(2),
      of "example_env store_up 1000" init_state ?Y None ?r1 "snd shared1"
        "example_env store_up 2000" None
        init_state "?d 1000" None "fst down1" "snd down1" "?d 2000" None "fst crowd2" "snd crowd2"
        "?d 3000" None "fst crowd3" "snd crowd3" visitor_a visitor_b visitor_f anonymous]
  note T4 = T[THEN conjunct2, THEN conjunct2, THEN conjunct2, THEN conjunct2]
  note TB = T4[THEN conjunct1]
  note TC = T4[THEN conjunct2, THEN conjunct1]
  note TD = T4[THEN conjunct2, THEN conjunct2, THEN conjunct1]
  note TE = T4[THEN conjunct2, THEN conjunct2, THEN conjunct2]
  have B: "kv (snd shared1) (profile_key anonymous_phone) = Some (CACHE_TTL, example_stored)
     \<and> fst (generateAIProfile ?Y (example_env store_up 2000) anonymous_phone None (snd shared1))
         = Inr \<lparr>profile = example_profile, source = Cache, error = None\<rparr>"
    using TB ok0 up(1) b0 r1 up(3) rb by (simp add: st cv)
  have C: "userRateLimits (snd crowd2) ''unknown:unknown'' = Some \<lparr>count = 2, resetTime = 61000\<rparr>
     \<and> fst crowd3 = Inr \<lparr>profile = generateFallbackProfile anonymous None, source = Fallback,
                         error = Some ''Rate limited''\<rparr>"
    using TC cfg fresh d1 lookup_down_misses[OF o0 dn(1)] d2 lookup_down_misses[OF o1 dn(1)]
      d3 lookup_down_misses[OF o2 dn(1)] w
    by (simp add: dn RATE_LIMIT_WINDOW_def)
  have ne: "anonymous \<noteq> anonymous_phone"
  proof
    assume "anonymous = anonymous_phone"
    then have "platform anonymous = platform anonymous_phone" by simp
    then show False by (simp add: anonymous_phone_def anonymous_def)
  qed
  \<comment> \<open>one identity absent: the other one stays in the key and in the bucket\<close>
  have ids: "\<not> is_set (fingerprintId visitor_a)" "\<not> is_set (fingerprintId visitor_b)"
    "str_or (crossBrowserId visitor_a) ''unknown'' = ''a''"
    "str_or (crossBrowserId visitor_b) ''unknown'' = ''b''"
    "\<not> is_set (crossBrowserId visitor_f)" "\<not> is_set (crossBrowserId anonymous)"
    "str_or (fingerprintId visitor_f) ''unknown'' = ''f''"
    "str_or (fingerprintId anonymous) ''unknown'' = ''unknown''"
    by (simp_all add: visitor_a_def visitor_b_def visitor_f_def anonymous_def)
  note D0 = TD[THEN mp, OF conjI[OF ids(1) ids(2)]]
  have D1: "profile_key visitor_a = ''yourinfo:profile:unknown:a''
     \<and> profile_user visitor_a = ''unknown:a''"
    using D0[THEN conjunct1] D0[THEN conjunct2, THEN conjunct1] by (simp add: ids(3))
  have D2: "profile_key visitor_a \<noteq> profile_key visitor_b
     \<and> profile_user visitor_a \<noteq> profile_user visitor_b"
    using D0[THEN conjunct2, THEN conjunct2] by (simp add: ids(3) ids(4))
  note E0 = TE[THEN mp, OF conjI[OF ids(5) ids(6)]]
  have E1: "profile_key visitor_f = ''yourinfo:profile:f:unknown''
     \<and> profile_user visitor_f = ''f:unknown''"
    using E0[THEN conjunct1] E0[THEN conjunct2, THEN conjunct1] by (simp add: ids(7))
  have E2: "profile_key visitor_f \<noteq> profile_key anonymous
     \<and> profile_user visitor_f \<noteq> profile_user anonymous"
    using E0[THEN conjunct2, THEN conjunct2] by (simp add: ids(7) ids(8))
  show ?thesis
    by (intro conjI ne f1 B[THEN conjunct1] B[THEN conjunct2] C[THEN conjunct1] C[THEN conjunct2]
        D1[THEN conjunct1] D1[THEN conjunct2] D2[THEN conjunct1] D2[THEN conjunct2]
        E1[THEN conjunct1] E1[THEN conjunct2] E2[THEN conjunct1] E2[THEN conjunct2])
qed


text \<open>
  With only one of the two fields absent the claim does not hold: \<^verbatim>\<open>'unknown'\<close> replaces the
  missing field only, and the key and the bucket still contain the other one. Two visitors
  without a fingerprint and with the cross-browser identities \<^verbatim>\<open>a\<close> and \<^verbatim>\<open>b\<close> are each answered
  by a provider, are cached under two keys and counted in two buckets.
\<close>

theorem unknown_identity_shared_counterexample:
  "fingerprintId visitor_a = None \<and> fingerprintId visitor_b = None
   \<and> fst half1 = Inr \<lparr>profile = example_profile, source = Ai, error = None\<rparr>
   \<and> fst half2 = Inr \<lparr>profile = example_profile, source = Ai, error = None\<rparr>
   \<and> kv (snd half2) =
       [''yourinfo:profile:unknown:a'' \<mapsto> (CACHE_TTL, example_stored),
        ''yourinfo:profile:unknown:b'' \<mapsto> (CACHE_TTL, example_stored)]
   \<and> userRateLimits (snd half2) =
       [''unknown:a'' \<mapsto> \<lparr>count = 1, resetTime = 61000\<rparr>,
        ''unknown:b'' \<mapsto> \<lparr>count = 1, resetTime = 62000\<rparr>]"
proof -
  let ?Y = "both_keys"
  have up: "r_reply (store (example_env store_up t)) = Replies"
           "lookup (example_env store_up t) = store_up t"
           "rate_now (example_env store_up t) = t" for t
    by (simp_all add: example_env_def store_up_def)
  have ch: "chosen_profile ?Y (example_env store_up t) = example_profile" for t
    by (simp add: both_keys_def example_chosen)
  have cfg: "configured ?Y" by (simp add: both_keys_def example_configured)
  have st: "JSON_stringify ?Y example_profile = example_stored"
    by (simp add: both_keys_def example_stringify)
  have ok0: "store_ok (lookup (example_env store_up 1000)) init_state"
    unfolding up by (rule store_up_ok) (simp_all add: init_state_def)
  have b0: "\<not> in_backoff (redisLastError init_state) (r_now (store (example_env store_up 1000)))"
    by (simp add: init_state_def)
  have i0: "kv init_state (profile_key visitor_a) = None"
    "userRateLimits init_state (profile_user visitor_a) = None"
    by (simp_all add: init_state_def)
  have t: "truthy (chosen_profile ?Y (example_env store_up t))" for t
    by (simp add: ch example_truthy)
  from healthy_first[OF ok0 up(1) b0 i0(1) cfg i0(2) t, of None]
  obtain s1 where run1: "generateAIProfile ?Y (example_env store_up 1000) visitor_a None init_state
                           = (Inr \<lparr>profile = example_profile, source = Ai, error = None\<rparr>, s1)"
    and k1: "kv s1 = [''yourinfo:profile:unknown:a'' \<mapsto> (CACHE_TTL, example_stored)]"
    and u1: "userRateLimits s1 = [''unknown:a'' \<mapsto> \<lparr>count = 1, resetTime = 61000\<rparr>]"
    and c1: "client_open (redis s1)"
    and l1: "redisLastError s1 = 0"
    by (auto simp: ch st key_a user_a up init_state_def RATE_LIMIT_WINDOW_def)
  have s1: "snd half1 = s1" "fst half1 = Inr \<lparr>profile = example_profile, source = Ai, error = None\<rparr>"
    using run1 by (simp_all add: half1_def)
  have ok1: "store_ok (lookup (example_env store_up 2000)) s1"
    unfolding up using c1 l1 by (simp add: store_ok_def store_up_def)
  have b1: "\<not> in_backoff (redisLastError s1) (r_now (store (example_env store_up 2000)))"
    using l1 by simp
  have i1: "kv s1 (profile_key visitor_b) = None"
    "userRateLimits s1 (profile_user visitor_b) = None"
    using k1 u1 by (simp_all add: key_b user_b)
  from healthy_first[OF ok1 up(1) b1 i1(1) cfg i1(2) t, of None]
  obtain s2 where run2: "generateAIProfile ?Y (example_env store_up 2000) visitor_b None s1
                           = (Inr \<lparr>profile = example_profile, source = Ai, error = None\<rparr>, s2)"
    and k2: "kv s2 = [''yourinfo:profile:unknown:a'' \<mapsto> (CACHE_TTL, example_stored),
                      ''yourinfo:profile:unknown:b'' \<mapsto> (CACHE_TTL, example_stored)]"
    and u2: "userRateLimits s2 = [''unknown:a'' \<mapsto> \<lparr>count = 1, resetTime = 61000\<rparr>,
                                  ''unknown:b'' \<mapsto> \<lparr>count = 1, resetTime = 62000\<rparr>]"
    by (auto simp: ch st key_b user_b up k1 u1 RATE_LIMIT_WINDOW_def)
  have s2: "snd half2 = s2" "fst half2 = Inr \<lparr>profile = example_profile, source = Ai, error = None\<rparr>"
    using run2 by (simp_all add: half2_def s1)
  have "fingerprintId visitor_a = None \<and> fingerprintId visitor_b = None"
    by (simp add: visitor_a_def visitor_b_def anonymous_def)
  then show ?thesis
    using s1 s2 k2 u2 by simp
qed


section \<open>A visitor is counted once\<close>

text \<open>
  C8. Take any number of rounds, each a call of \<^verbatim>\<open>trackUniqueVisitor\<close> with one and the same
  visitor identity followed by a call of \<^verbatim>\<open>getTotalUniqueVisitors\<close>, after one call of
  \<^verbatim>\<open>getTotalUniqueVisitors\<close>, with the tracking store available at every call (the first
  attempt of the call gets a client and the command replies). Then \<^verbatim>\<open>trackUniqueVisitor\<close>
  returns \<^verbatim>\<open>true\<close> in the first round exactly when the visitor was not in the set before (the
  call made the first insert) and \<^verbatim>\<open>false\<close> in every later round; and the total is, after the
  first round, the total before plus one if that call returned \<^verbatim>\<open>true\<close> and plus nothing
  otherwise, and the same after every later round.
\<close>

theorem visitor_idempotence:
  assumes "tracking_up (trackingRedisLastError s) env0"
    and "\<forall>p \<in> set (r # rounds). tracking_up (trackingRedisLastError s) (fst p)
                                  \<and> tracking_up (trackingRedisLastError s) (snd p)"
    and "client_open (trackingRedis s) \<or> \<not> trackingRedisConnecting s"
  shows "visit_log y fpId cbId env0 (r # rounds) s =
           (Inr (fcard (sets s UNIQUE_VISITORS_KEY)),
            (Inr (fpId @ '':'' @ cbId |\<notin>| sets s UNIQUE_VISITORS_KEY),
             Inr (fcard (sets s UNIQUE_VISITORS_KEY)
                  + (if fpId @ '':'' @ cbId |\<notin>| sets s UNIQUE_VISITORS_KEY then 1 else 0)))
            # replicate (length rounds)
                (Inr False,
                 Inr (fcard (sets s UNIQUE_VISITORS_KEY)
                      + (if fpId @ '':'' @ cbId |\<notin>| sets s UNIQUE_VISITORS_KEY then 1 else 0))))"
proof -
  let ?key = "fpId @ '':'' @ cbId"
  let ?S = "sets s UNIQUE_VISITORS_KEY"
  let ?L = "trackingRedisLastError s"
  have L0: "trackingRedisLastError s = ?L \<or> trackingRedisLastError s = 0" by simp
  from count_ok[where env=env0 and s=s and y=y, OF tracking_up_ok[OF assms(1) assms(3) L0]]
  obtain s0 where C: "getTotalUniqueVisitors y env0 s = (Inr (fcard ?S), s0)"
    and S0: "sets s0 = sets s"
    and O0: "client_open (trackingRedis s0)"
    and L0': "trackingRedisLastError s0 = ?L \<or> trackingRedisLastError s0 = 0"
    by blast
  have O0': "client_open (trackingRedis s0) \<or> \<not> trackingRedisConnecting s0" using O0 by simp
  have n: "fcard (finsert ?key ?S) = fcard ?S + (if ?key |\<notin>| ?S then 1 else 0)"
    by (simp add: fcard_finsert_if)
  from visits_spec[OF assms(2) O0' L0', of y fpId cbId]
  have "fst (visits y fpId cbId (r # rounds) s0) =
          (Inr (?key |\<notin>| ?S), Inr (fcard (finsert ?key ?S)))
          # replicate (length rounds) (Inr False, Inr (fcard (finsert ?key ?S)))"
    by (simp add: S0)
  then show ?thesis
    unfolding visit_log_def using C n by simp
qed


theorem visitor_idempotence_witness:
  "visit_log (example_sys None None) ''fp1'' ''cb1'' (up_at 1000)
     [(up_at 2000, up_at 3000), (up_at 4000, up_at 5000), (up_at 6000, up_at 7000)] init_state
   = (Inr 0, [(Inr True, Inr 1), (Inr False, Inr 1), (Inr False, Inr 1)])"
proof -
  have u: "tracking_up (trackingRedisLastError init_state) (up_at t)" for t
    by (simp add: tracking_up_def up_at_def store_up_def init_state_def)
  have a: "\<forall>p \<in> set [(up_at 2000, up_at 3000), (up_at 4000, up_at 5000), (up_at 6000, up_at 7000)].
             tracking_up (trackingRedisLastError init_state) (fst p)
             \<and> tracking_up (trackingRedisLastError init_state) (snd p)"
    by (simp add: u)
  have c: "client_open (trackingRedis init_state) \<or> \<not> trackingRedisConnecting init_state"
    by (simp add: init_state_def)
  have e: "sets init_state UNIQUE_VISITORS_KEY = {||}" by (simp add: init_state_def)
  from visitor_idempotence[OF u a c, of "example_sys None None" "''fp1''" "''cb1''" 1000]
  show ?thesis by (simp add: e)
qed


end
